(* ===== verification/P2p_Prelude.thy ===== *)
theory P2p_Prelude
  imports Main
begin

text \<open>
  What every component shares.

  \<^item> Exceptions as values: a modelled Python function that may raise returns
    \<open>exn + 'a\<close>.  \<open>Refused code\<close> is the module's own exception with its fixed reason (the
    argument of the module's \<open>require\<close>/\<open>need\<close>); the other constructors are Python's built-in
    exceptions (\<open>DigitLimit\<close> is the plain \<open>ValueError\<close> of \<open>int\<close> on more than 4300 digits, \<open>ValueError\<close> stands for
    the decoding errors among others).  \<open>req\<close>, \<open>reqr\<close>, \<open>andthen\<close> and the short-circuit connectives \<open>allof\<close>, \<open>anyof\<close>
    sequence the checks in the order of the source, so the first failing check decides.
  \<^item> Strings: a Python \<open>str\<close> is its UTF-8 encoding and a \<open>bytes\<close> object its bytes, both as
    \<open>string\<close>.  \<open>py_len\<close> counts code points.  The regular expressions of the scripts use ASCII
    classes only and become predicates on the characters.
  \<^item> The collection \<open>ok_iff\<close> characterises when a sequence of checks succeeds.
\<close>

named_theorems ok_iff \<open>when a sequence of checks returns normally\<close>

section \<open>Results\<close>

datatype exn =
    Refused string
  | KeyError
  | TypeError
  | AttributeError
  | IndexError
  | ValueError
  | DigitLimit
  | OverflowError
  | OSError

type_synonym 'a res = "exn + 'a"

definition andthen :: "'a res \<Rightarrow> ('a \<Rightarrow> 'b res) \<Rightarrow> 'b res" where
  "andthen r k = (case r of Inl e \<Rightarrow> Inl e | Inr x \<Rightarrow> k x)"

definition req :: "bool \<Rightarrow> string \<Rightarrow> 'b res \<Rightarrow> 'b res" where
  "req c code k = (if c then k else Inl (Refused code))"

definition reqr :: "bool res \<Rightarrow> string \<Rightarrow> 'b res \<Rightarrow> 'b res" where
  "reqr r code k = andthen r (\<lambda>c. req c code k)"

fun allof :: "bool res list \<Rightarrow> bool res" where
  "allof [] = Inr True"
| "allof (c # cs) = (case c of Inl e \<Rightarrow> Inl e | Inr b \<Rightarrow> if b then allof cs else Inr False)"

fun anyof :: "bool res list \<Rightarrow> bool res" where
  "anyof [] = Inr False"
| "anyof (c # cs) = (case c of Inl e \<Rightarrow> Inl e | Inr b \<Rightarrow> if b then Inr True else anyof cs)"

text \<open>A loop that runs a check on every element and returns the results in order.\<close>

fun each :: "('a \<Rightarrow> 'b res) \<Rightarrow> 'a list \<Rightarrow> 'b list res" where
  "each f [] = Inr []"
| "each f (x # xs) = andthen (f x) (\<lambda>y. andthen (each f xs) (\<lambda>ys. Inr (y # ys)))"

text \<open>A loop with an accumulator.\<close>

fun loop :: "('a \<Rightarrow> 's \<Rightarrow> 's res) \<Rightarrow> 'a list \<Rightarrow> 's \<Rightarrow> 's res" where
  "loop f [] s = Inr s"
| "loop f (x # xs) s = andthen (f x s) (loop f xs)"

lemma andthen_simps [simp]: "andthen (Inl e) k = Inl e" "andthen (Inr x) k = k x"
  by (simp_all add: andthen_def)

lemma req_simps [simp]: "req True code k = k" "req False code k = Inl (Refused code)"
  by (simp_all add: req_def)

lemma reqr_simps [simp]:
  "reqr (Inl e) code k = Inl e" "reqr (Inr True) code k = k" "reqr (Inr False) code k = Inl (Refused code)"
  by (simp_all add: reqr_def)

lemma andthen_ok [ok_iff]: "andthen r k = Inr y \<longleftrightarrow> (\<exists>x. r = Inr x \<and> k x = Inr y)"
  by (cases r) auto

lemma req_ok [ok_iff]: "req c code k = Inr y \<longleftrightarrow> c \<and> k = Inr y"
  by (simp add: req_def)

lemma reqr_ok [ok_iff]: "reqr r code k = Inr y \<longleftrightarrow> r = Inr True \<and> k = Inr y"
  by (cases r) (auto simp: req_def reqr_def)

lemma allof_ok [ok_iff]: "allof cs = Inr True \<longleftrightarrow> list_all (\<lambda>c. c = Inr True) cs"
  by (induction cs) (auto split: sum.splits)

lemma returns_iff: "(\<exists>y. r = Inr y) \<longleftrightarrow> \<not> isl r"
  by (cases r) auto

lemma allof_Inr: "allof (map Inr bs) = Inr (list_all id bs)"
  by (induction bs) auto

lemma each_ok_length: "each f xs = Inr ys \<Longrightarrow> length ys = length xs"
  by (induction xs arbitrary: ys) (auto simp: ok_iff)

lemma each_ok_iff [ok_iff]: "each f xs = Inr ys \<longleftrightarrow> list_all2 (\<lambda>x y. f x = Inr y) xs ys"
  by (induction xs arbitrary: ys) (auto simp: ok_iff list_all2_Cons1)

lemma loop_append: "loop f (xs @ ys) s = andthen (loop f xs s) (loop f ys)"
proof (induction xs arbitrary: s)
  case (Cons x xs)
  then show ?case by (cases "f x s") auto
qed simp

text \<open>An invariant of the loop body is an invariant of the loop.\<close>

lemma loop_invariant:
  assumes "loop f xs s = Inr t" "P s"
    and "\<And>x s t. x \<in> set xs \<Longrightarrow> P s \<Longrightarrow> f x s = Inr t \<Longrightarrow> P t"
  shows "P t"
  using assms
proof (induction xs arbitrary: s)
  case (Cons x xs)
  then obtain u where "f x s = Inr u" "loop f xs u = Inr t" by (auto simp: ok_iff)
  then show ?case using Cons by (metis list.set_intros)
qed simp

section \<open>Characters and strings\<close>

definition cc :: "char \<Rightarrow> nat" where
  "cc c = of_char c"

definition is_digit :: "char \<Rightarrow> bool" where
  "is_digit c \<longleftrightarrow> 48 \<le> cc c \<and> cc c \<le> 57"

definition is_lower :: "char \<Rightarrow> bool" where
  "is_lower c \<longleftrightarrow> 97 \<le> cc c \<and> cc c \<le> 122"

definition is_upper :: "char \<Rightarrow> bool" where
  "is_upper c \<longleftrightarrow> 65 \<le> cc c \<and> cc c \<le> 90"

definition is_alnum :: "char \<Rightarrow> bool" where
  "is_alnum c \<longleftrightarrow> is_digit c \<or> is_lower c \<or> is_upper c"

text \<open>\<open>[0-9a-f]\<close> and \<open>[0-9a-fA-F]\<close>\<close>

definition is_hex :: "char \<Rightarrow> bool" where
  "is_hex c \<longleftrightarrow> is_digit c \<or> 97 \<le> cc c \<and> cc c \<le> 102"

definition is_hexx :: "char \<Rightarrow> bool" where
  "is_hexx c \<longleftrightarrow> is_hex c \<or> 65 \<le> cc c \<and> cc c \<le> 70"

text \<open>\<open>re.fullmatch("[0-9a-f]{n}", s)\<close>\<close>

definition hexn :: "nat \<Rightarrow> string \<Rightarrow> bool" where
  "hexn n s \<longleftrightarrow> length s = n \<and> list_all is_hex s"

text \<open>\<open>len\<close> of a \<open>str\<close>: the bytes that are not UTF-8 continuation bytes.\<close>

definition py_len :: "string \<Rightarrow> nat" where
  "py_len s = length (filter (\<lambda>c. cc c < 128 \<or> 192 \<le> cc c) s)"

text \<open>\<open>len\<close> of a list or of \<open>bytes\<close>, as an integer.\<close>

definition len :: "'a list \<Rightarrow> int" where
  "len xs = int (length xs)"

lemma cc_less [simp]: "cc c < 256"
  by (simp add: cc_def nat_of_char_less_256)

text \<open>ASCII \<open>str.lower()\<close>; the scripts apply it to strings already matched against ASCII.\<close>

definition lower_char :: "char \<Rightarrow> char" where
  "lower_char c = (if is_upper c then char_of (cc c + 32) else c)"

definition lower :: "string \<Rightarrow> string" where
  "lower s = map lower_char s"

section \<open>Decimal integers\<close>

definition digit_val :: "char \<Rightarrow> int" where
  "digit_val c = int (cc c) - 48"

text \<open>\<open>int(s)\<close> of a string of ASCII digits.\<close>

definition int_of_digits :: "string \<Rightarrow> int" where
  "int_of_digits s = foldl (\<lambda>a c. 10 * a + digit_val c) 0 s"

definition digit_char :: "nat \<Rightarrow> char" where
  "digit_char n = char_of (48 + n)"

text \<open>\<open>str(n)\<close> of a non-negative integer.\<close>

fun show_nat :: "nat \<Rightarrow> string" where
  "show_nat n = (if n < 10 then [digit_char n] else show_nat (n div 10) @ [digit_char (n mod 10)])"

declare show_nat.simps [simp del]

definition show_int :: "int \<Rightarrow> string" where
  "show_int i = (if i < 0 then CHR ''-'' # show_nat (nat (- i)) else show_nat (nat i))"

lemma cc_digit_char [simp]: "n < 10 \<Longrightarrow> cc (digit_char n) = 48 + n"
  by (simp add: cc_def digit_char_def)

lemma is_digit_digit_char [simp]: "n < 10 \<Longrightarrow> is_digit (digit_char n)"
  by (simp add: is_digit_def)

lemma digit_val_digit_char [simp]: "n < 10 \<Longrightarrow> digit_val (digit_char n) = int n"
  by (simp add: digit_val_def)

lemma int_of_digits_snoc [simp]: "int_of_digits (s @ [c]) = 10 * int_of_digits s + digit_val c"
  by (simp add: int_of_digits_def)

lemma int_of_digits_show_nat [simp]: "int_of_digits (show_nat n) = int n"
proof (induction n rule: show_nat.induct)
  case (1 n)
  show ?case
  proof (cases "n < 10")
    case True
    then show ?thesis by (simp add: show_nat.simps [of n] int_of_digits_def)
  next
    case False
    then have "int_of_digits (show_nat n) = 10 * int (n div 10) + int (n mod 10)"
      using 1 by (simp add: show_nat.simps [of n])
    then show ?thesis by presburger
  qed
qed

lemma show_nat_digits [simp]: "list_all is_digit (show_nat n)"
proof (induction n rule: show_nat.induct)
  case (1 n)
  then show ?case by (cases "n < 10") (simp_all add: show_nat.simps [of n])
qed

lemma show_nat_inj: "show_nat m = show_nat n \<longleftrightarrow> m = n"
  by (metis int_of_digits_show_nat nat_int)

lemma show_nat_neq_Nil [simp]: "show_nat n \<noteq> []"
  by (simp add: show_nat.simps [of n])

section \<open>Splitting and trimming\<close>

fun strip_left :: "(char \<Rightarrow> bool) \<Rightarrow> string \<Rightarrow> string" where
  "strip_left p [] = []"
| "strip_left p (c # s) = (if p c then strip_left p s else c # s)"

definition strip_right :: "(char \<Rightarrow> bool) \<Rightarrow> string \<Rightarrow> string" where
  "strip_right p s = rev (strip_left p (rev s))"

text \<open>\<open>s.split(c)\<close> on a one-character separator: always at least one part.\<close>

fun split_on :: "char \<Rightarrow> string \<Rightarrow> string list" where
  "split_on c [] = [[]]"
| "split_on c (x # xs) =
     (if x = c then [] # split_on c xs
      else case split_on c xs of [] \<Rightarrow> [[x]] | p # ps \<Rightarrow> (x # p) # ps)"

text \<open>\<open>s.partition(c)\<close>: head, whether the separator was found, tail.\<close>

fun partition_on :: "char \<Rightarrow> string \<Rightarrow> string \<times> bool \<times> string" where
  "partition_on c [] = ([], False, [])"
| "partition_on c (x # xs) =
     (if x = c then ([], True, xs)
      else case partition_on c xs of (h, b, t) \<Rightarrow> (x # h, b, t))"

lemma split_on_neq_Nil [simp]: "split_on c s \<noteq> []"
  by (cases s) (auto split: list.splits)

lemma partition_on_append: "c \<notin> set k \<Longrightarrow> partition_on c (k @ c # v) = (k, True, v)"
  by (induction k) auto

lemma split_on_no_sep: "c \<notin> set s \<Longrightarrow> split_on c s = [s]"
  by (induction s) auto

lemma split_on_append: "c \<notin> set s \<Longrightarrow> split_on c (s @ c # t) = s # split_on c t"
  by (induction s) auto

section \<open>UTF-8\<close>

text \<open>The encoding of one code point (\<open>chr(n)\<close>), lone surrogates included.\<close>

definition utf8_chr :: "nat \<Rightarrow> string" where
  "utf8_chr n =
     (if n < 128 then [char_of n]
      else if n < 2048 then [char_of (192 + n div 64), char_of (128 + n mod 64)]
      else if n < 65536 then
        [char_of (224 + n div 4096), char_of (128 + n div 64 mod 64), char_of (128 + n mod 64)]
      else [char_of (240 + n div 262144), char_of (128 + n div 4096 mod 64),
            char_of (128 + n div 64 mod 64), char_of (128 + n mod 64)])"

definition hex_val :: "char \<Rightarrow> nat" where
  "hex_val c = (if is_digit c then cc c - 48 else if is_lower c then cc c - 87 else cc c - 55)"

text \<open>\<open>int(s, 16)\<close> of hexadecimal digits\<close>

definition nat_of_hex :: "string \<Rightarrow> nat" where
  "nat_of_hex s = foldl (\<lambda>a c. 16 * a + hex_val c) 0 s"

end
