(* ===== verification/PyFloat.thy ===== *)
theory PyFloat
  imports Main "HOL-Library.Log_Nat"
begin

text \<open>
  Python's \<open>float\<close> is IEEE-754 binary64.  Every finite double is an integer multiple of
  \<open>2 ^ -1074\<close>, so a finite double is represented here by that integer: \<open>Fin n\<close> stands for
  \<open>n * 2 ^ -1074\<close>.  The two signed zeros are the one value \<open>Fin 0\<close>: they compare equal, and only
  the text written for them (\<open>0.0\<close> and \<open>-0.0\<close>) tells them apart, so that statements about written
  text exclude floats.

  The theory defines rounding to nearest, ties to even, of an exact quotient, the arithmetic
  and comparison operations the scripts use, and \<open>math.nextafter\<close>.  The lemmas show what the
  scripts' directed rounding relies on: rounding never crosses a representable value, and the
  double just below a rounded quotient is strictly below the exact quotient.
\<close>

section \<open>Representable magnitudes\<close>

definition expo53 :: "int \<Rightarrow> nat" where
  "expo53 n = nat (bitlen n - 53)"

definition ulp53 :: "int \<Rightarrow> int" where
  "ulp53 n = 2 ^ expo53 n"

text \<open>The largest representable magnitude not above \<open>n\<close>, for \<open>n \<ge> 0\<close>.\<close>

definition down53 :: "int \<Rightarrow> int" where
  "down53 n = (n div ulp53 n) * ulp53 n"

definition repr53 :: "int \<Rightarrow> bool" where
  "repr53 n \<longleftrightarrow> down53 n = n"

text \<open>Round the exact quotient \<open>p / q\<close> (\<open>p \<ge> 0\<close>, \<open>q > 0\<close>) to nearest, ties to even.\<close>

definition round53 :: "int \<Rightarrow> int \<Rightarrow> int" where
  "round53 p q =
     (let n = p div q; u = ulp53 n; d = down53 n; r = p - d * q in
      if 2 * r < u * q then d
      else if 2 * r > u * q then d + u
      else if even (d div u) then d else d + u)"

text \<open>The representable magnitude just below a positive \<open>n\<close>.\<close>

definition prev53 :: "int \<Rightarrow> int" where
  "prev53 n = down53 (n - 1)"

lemma ulp53_pos [simp]: "0 < ulp53 n"
  by (simp add: ulp53_def)

lemma ulp53_ge1 [simp]: "1 \<le> ulp53 n"
  using ulp53_pos [of n] by linarith

lemma ulp53_nonneg [simp]: "0 \<le> ulp53 n"
  by (simp add: ulp53_def)

lemma le_div_int_iff: "0 < u \<Longrightarrow> k \<le> n div u \<longleftrightarrow> k * u \<le> n" for k n u :: int
proof
  assume u: "0 < u" and le: "k \<le> n div u"
  have "k * u \<le> (n div u) * u" using u le by (simp add: mult_right_mono)
  also have "\<dots> \<le> n" using u by (metis div_mult_mod_eq le_add_same_cancel1 pos_mod_sign)
  finally show "k * u \<le> n" .
next
  assume u: "0 < u" and le: "k * u \<le> n"
  then have "(k * u) div u \<le> n div u" by (intro zdiv_mono1)
  then show "k \<le> n div u" using u by simp
qed

lemma div_less_int_iff: "0 < u \<Longrightarrow> n div u < k \<longleftrightarrow> n < k * u" for k n u :: int
  using le_div_int_iff [of u k n] by linarith

lemma down53_le: "down53 n \<le> n"
  unfolding down53_def by (metis ulp53_pos div_mult_mod_eq pos_mod_sign add_increasing2 le_add_same_cancel1 order_less_imp_le)

lemma less_down53_add: "n < down53 n + ulp53 n"
proof -
  have "n = down53 n + n mod ulp53 n" by (simp add: down53_def)
  moreover have "n mod ulp53 n < ulp53 n" by simp
  ultimately show ?thesis by linarith
qed

lemma down53_nonneg: "0 \<le> n \<Longrightarrow> 0 \<le> down53 n"
  by (simp add: down53_def pos_imp_zdiv_nonneg_iff zero_le_mult_iff)

lemma bitlen_le_nat: "0 \<le> n \<Longrightarrow> bitlen n \<le> int k \<longleftrightarrow> n < 2 ^ k"
  using bitlen_le_iff_power [of n "int k"] by simp

lemma less_expo53: "0 \<le> n \<Longrightarrow> n < 2 ^ (53 + expo53 n)"
  using bitlen_le_nat [of n "53 + expo53 n"] by (simp add: expo53_def split: if_splits)

lemma expo53_lower: "0 \<le> n \<Longrightarrow> 0 < expo53 n \<Longrightarrow> 2 ^ (52 + expo53 n) \<le> n"
  using bitlen_le_nat [of n "52 + expo53 n"] by (simp add: expo53_def)

lemma expo53_le: "0 \<le> n \<Longrightarrow> n < 2 ^ (53 + e) \<Longrightarrow> expo53 n \<le> e"
  using bitlen_le_nat [of n "53 + e"] by (simp add: expo53_def nat_le_iff)

lemma expo53_mono: "0 \<le> m \<Longrightarrow> m \<le> n \<Longrightarrow> expo53 m \<le> expo53 n"
  using less_expo53 [of n] by (intro expo53_le) linarith+

lemma repr53_iff_dvd: "repr53 n \<longleftrightarrow> ulp53 n dvd n"
  by (simp add: repr53_def down53_def dvd_eq_mod_eq_0 minus_mod_eq_div_mult [symmetric])

lemma repr53_mult:
  assumes "0 \<le> m" "m \<le> 2 ^ 53"
  shows "repr53 (m * 2 ^ e)"
proof -
  have "m * 2 ^ e \<le> 2 ^ 53 * 2 ^ e" using assms(2) by (simp add: mult_right_mono)
  then have lt: "m * 2 ^ e < 2 ^ (53 + Suc e)" by (simp add: power_add)
  show ?thesis
  proof (cases "m < 2 ^ 53")
    case True
    then have "m * 2 ^ e < 2 ^ (53 + e)" by (simp add: power_add)
    then have "expo53 (m * 2 ^ e) \<le> e" using assms by (intro expo53_le) auto
    then have "ulp53 (m * 2 ^ e) dvd 2 ^ e" by (simp add: ulp53_def le_imp_power_dvd)
    then show ?thesis by (simp add: repr53_iff_dvd)
  next
    case False
    then have m: "m * 2 ^ e = 2 ^ (53 + e)" using assms by (simp add: power_add)
    have "expo53 (m * 2 ^ e) \<le> Suc e" using assms lt by (intro expo53_le) auto
    then have "ulp53 (m * 2 ^ e) dvd 2 ^ (53 + e)" unfolding ulp53_def
      by (intro le_imp_power_dvd) simp
    then show ?thesis by (simp add: repr53_iff_dvd m)
  qed
qed

lemma repr53_small: "0 \<le> n \<Longrightarrow> n \<le> 2 ^ 53 \<Longrightarrow> repr53 n"
  using repr53_mult [of n 0] by simp

lemma down53_mantissa:
  assumes "0 \<le> n"
  shows "0 \<le> n div ulp53 n" "n div ulp53 n < 2 ^ 53"
proof -
  show "0 \<le> n div ulp53 n" using assms by (simp add: pos_imp_zdiv_nonneg_iff)
  have "n < 2 ^ 53 * ulp53 n" using less_expo53 [OF assms] by (simp add: ulp53_def power_add)
  then show "n div ulp53 n < 2 ^ 53" by (simp add: div_less_int_iff)
qed

lemma repr53_down53: "0 \<le> n \<Longrightarrow> repr53 (down53 n)"
  using repr53_mult [of "n div ulp53 n" "expo53 n"] down53_mantissa [of n]
  by (simp add: down53_def ulp53_def)

lemma repr53_down53_add: "0 \<le> n \<Longrightarrow> repr53 (down53 n + ulp53 n)"
  using repr53_mult [of "n div ulp53 n + 1" "expo53 n"] down53_mantissa [of n]
  by (simp add: down53_def ulp53_def algebra_simps)

text \<open>\<open>down53\<close> is the greatest representable value below: nothing representable is skipped.\<close>

lemma down53_greatest:
  assumes "0 \<le> m" "m \<le> n" "repr53 m"
  shows "m \<le> down53 n"
proof (cases "expo53 m = expo53 n")
  case True
  then have "ulp53 n dvd m" using assms(3) by (simp add: repr53_iff_dvd ulp53_def)
  then obtain k where k: "m = k * ulp53 n" by (auto simp: dvd_def mult.commute)
  then have "k \<le> n div ulp53 n" using assms(2) by (simp add: le_div_int_iff)
  then show ?thesis using k by (simp add: down53_def)
next
  case False
  then have lt: "expo53 m < expo53 n" using expo53_mono [OF assms(1,2)] by simp
  define E where "E = expo53 n"
  have "m < 2 ^ (53 + expo53 m)" using less_expo53 assms(1) by simp
  also have "(2::int) ^ (53 + expo53 m) \<le> 2 ^ (52 + E)" using lt by (intro power_increasing) (auto simp: E_def)
  also have "\<dots> = (2 ^ 52) * ulp53 n" by (simp add: ulp53_def power_add E_def)
  also have "\<dots> \<le> down53 n"
  proof -
    have "2 ^ 52 * ulp53 n \<le> n" using expo53_lower [of n] lt assms by (simp add: ulp53_def power_add)
    then show ?thesis by (simp add: down53_def le_div_int_iff)
  qed
  finally show ?thesis by simp
qed

lemma down53_add_pred:
  assumes "0 \<le> n"
  shows "down53 (down53 n + ulp53 n - 1) = down53 n"
proof -
  let ?x = "down53 n + ulp53 n - 1"
  have ge: "n \<le> ?x" using less_down53_add [of n] by simp
  have "down53 n + ulp53 n = (n div ulp53 n + 1) * ulp53 n" by (simp add: down53_def algebra_simps)
  also have "\<dots> \<le> 2 ^ 53 * ulp53 n" using down53_mantissa(2) [OF assms] by (intro mult_right_mono) auto
  finally have "?x < 2 ^ (53 + expo53 n)" by (simp add: ulp53_def power_add)
  then have "expo53 ?x \<le> expo53 n" using assms ge by (intro expo53_le) auto
  then have e: "ulp53 ?x = ulp53 n" using expo53_mono [OF assms ge] by (simp add: ulp53_def)
  have dv: "?x div ulp53 n = n div ulp53 n"
  proof -
    have x: "?x = (ulp53 n - 1) + (n div ulp53 n) * ulp53 n" by (simp add: down53_def)
    have z: "(ulp53 n - 1) div ulp53 n = 0" by (intro div_pos_pos_trivial) auto
    have nz: "ulp53 n \<noteq> 0" using ulp53_pos [of n] by linarith
    show ?thesis unfolding x using div_mult_self1 [OF nz, of "ulp53 n - 1" "n div ulp53 n"] z by linarith
  qed
  have "down53 ?x = (?x div ulp53 n) * ulp53 n" by (simp only: down53_def [of ?x] e)
  also have "\<dots> = down53 n" unfolding dv by (rule down53_def [symmetric])
  finally show ?thesis .
qed

lemma above_down53:
  assumes "0 \<le> n" "repr53 y" "down53 n < y"
  shows "down53 n + ulp53 n \<le> y"
proof (rule ccontr)
  assume "\<not> ?thesis"
  then have "y \<le> down53 (down53 n + ulp53 n - 1)"
    using assms down53_nonneg [of n] by (intro down53_greatest) auto
  then show False using assms by (simp add: down53_add_pred)
qed

lemma prev53_less: "prev53 n < n"
  using down53_le [of "n - 1"] by (simp add: prev53_def)

lemma prev53_nonneg: "0 < n \<Longrightarrow> 0 \<le> prev53 n"
  by (simp add: prev53_def down53_nonneg)

lemma prev53_greatest: "0 \<le> m \<Longrightarrow> m < n \<Longrightarrow> repr53 m \<Longrightarrow> m \<le> prev53 n"
  by (simp add: prev53_def down53_greatest)

section \<open>Rounding\<close>

lemma round53_cases:
  assumes "0 \<le> p" "0 < q"
  obtains (down) "round53 p q = down53 (p div q)"
    | (up) "round53 p q = down53 (p div q) + ulp53 (p div q)"
        "down53 (p div q) * q < p"
proof (cases "round53 p q = down53 (p div q)")
  case False
  define n where "n = p div q"
  have u: "0 < ulp53 n * q" using assms by simp
  have "\<not> 2 * (p - down53 n * q) < ulp53 n * q" "round53 p q = down53 n + ulp53 n"
    using False by (auto simp: round53_def Let_def n_def [symmetric] split: if_splits)
  then show ?thesis using up u by (simp add: n_def)
qed (rule down)

lemma round53_nonneg: "0 \<le> p \<Longrightarrow> 0 < q \<Longrightarrow> 0 \<le> round53 p q"
  by (cases rule: round53_cases [of p q])
    (auto simp: down53_nonneg pos_imp_zdiv_nonneg_iff add_nonneg_nonneg)

lemma round53_repr: "0 \<le> p \<Longrightarrow> 0 < q \<Longrightarrow> repr53 (round53 p q)"
  by (cases rule: round53_cases [of p q])
    (auto simp: repr53_down53 repr53_down53_add pos_imp_zdiv_nonneg_iff)

text \<open>Rounding never crosses a representable value.\<close>

lemma round53_le:
  assumes "0 \<le> p" "0 < q" "repr53 y" "p \<le> y * q"
  shows "round53 p q \<le> y"
proof -
  have n: "0 \<le> p div q" using assms by (simp add: pos_imp_zdiv_nonneg_iff)
  have "p < (y + 1) * q" using assms(2,4) by (simp add: distrib_right)
  then have "p div q < y + 1" using assms(2) by (simp only: div_less_int_iff)
  then have dy: "down53 (p div q) \<le> y" using down53_le [of "p div q"] by (simp add: order_trans)
  show ?thesis
  proof (rule round53_cases [OF assms(1,2)])
    assume "round53 p q = down53 (p div q)" then show ?thesis using dy by simp
  next
    assume up: "round53 p q = down53 (p div q) + ulp53 (p div q)" "down53 (p div q) * q < p"
    have "down53 (p div q) * q < y * q" using assms(4) by (rule order_less_le_trans [OF up(2)])
    then have "down53 (p div q) < y" using assms(2) by simp
    then show ?thesis using above_down53 [OF n assms(3)] by (simp add: up(1))
  qed
qed

lemma round53_ge:
  assumes "0 \<le> y" "0 < q" "repr53 y" "y * q \<le> p"
  shows "y \<le> round53 p q"
proof -
  have p: "0 \<le> p" using assms by (meson mult_nonneg_nonneg order_less_imp_le order_trans)
  have "y \<le> p div q" using assms by (simp add: le_div_int_iff)
  then have "y \<le> down53 (p div q)" using assms by (intro down53_greatest) auto
  note d = this
  show ?thesis
    by (rule round53_cases [OF p assms(2)]) (use d in \<open>auto intro: order_trans\<close>)
qed

lemma round53_exact: "0 \<le> n \<Longrightarrow> repr53 n \<Longrightarrow> round53 n 1 = n"
  using round53_le [of n 1 n] round53_ge [of n 1 n] by simp

text \<open>The directed-rounding fact: one step down from the rounded value is below the exact one.\<close>

lemma prev53_round53_less:
  assumes "0 < p" "0 < q"
  shows "prev53 (round53 p q) * q < p"
proof -
  have p: "0 \<le> p" using assms by simp
  have n: "0 \<le> p div q" using assms by (simp add: pos_imp_zdiv_nonneg_iff)
  show ?thesis using p assms(2)
  proof (cases rule: round53_cases)
    case down
    have "prev53 (round53 p q) < p div q"
      using prev53_less [of "round53 p q"] down53_le [of "p div q"] down by linarith
    then have "(prev53 (round53 p q) + 1) * q \<le> p" using assms(2) by (simp add: le_div_int_iff [symmetric])
    then show ?thesis using assms(2) by (simp add: distrib_right)
  next
    case up
    then show ?thesis using n by (simp add: prev53_def down53_add_pred)
  qed
qed

section \<open>The Python float type and the operations the scripts use\<close>

datatype pyfloat = NaN | PosInf | NegInf | Fin int

definition unit_exp :: nat where
  "unit_exp = 1074"

text \<open>\<open>float_unit\<close> is \<open>1.0\<close>; magnitudes from \<open>float_limit = 2 ^ 1024\<close> on overflow.\<close>

definition float_unit :: int where
  "float_unit = 2 ^ unit_exp"

definition float_limit :: int where
  "float_limit = 2 ^ (1024 + unit_exp)"

definition max_fin :: int where
  "max_fin = prev53 float_limit"

definition round_signed :: "int \<Rightarrow> int \<Rightarrow> int" where
  "round_signed p q = (if 0 \<le> p then round53 p q else - round53 (- p) q)"

definition mk_float :: "int \<Rightarrow> pyfloat" where
  "mk_float n = (if float_limit \<le> n then PosInf else if n \<le> - float_limit then NegInf else Fin n)"

text \<open>\<open>float(i)\<close> of a Python int; \<open>None\<close> is the \<open>OverflowError\<close>.\<close>

definition float_of_int :: "int \<Rightarrow> pyfloat option" where
  "float_of_int i =
     (case mk_float (round_signed (i * float_unit) 1) of Fin n \<Rightarrow> Some (Fin n) | _ \<Rightarrow> None)"

text \<open>\<open>a / b\<close> of two Python ints, correctly rounded; \<open>None\<close> is an exception.\<close>

definition int_truediv :: "int \<Rightarrow> int \<Rightarrow> pyfloat option" where
  "int_truediv a b =
     (if b = 0 then None
      else case mk_float (round_signed (sgn b * a * float_unit) \<bar>b\<bar>) of Fin n \<Rightarrow> Some (Fin n) | _ \<Rightarrow> None)"

fun fneg :: "pyfloat \<Rightarrow> pyfloat" where
  "fneg NaN = NaN"
| "fneg PosInf = NegInf"
| "fneg NegInf = PosInf"
| "fneg (Fin n) = Fin (- n)"

fun fadd :: "pyfloat \<Rightarrow> pyfloat \<Rightarrow> pyfloat" where
  "fadd (Fin a) (Fin b) = mk_float (round_signed (a + b) 1)"
| "fadd NaN _ = NaN"
| "fadd _ NaN = NaN"
| "fadd PosInf NegInf = NaN"
| "fadd NegInf PosInf = NaN"
| "fadd PosInf _ = PosInf"
| "fadd _ PosInf = PosInf"
| "fadd NegInf _ = NegInf"
| "fadd _ NegInf = NegInf"

definition fsub :: "pyfloat \<Rightarrow> pyfloat \<Rightarrow> pyfloat" where
  "fsub a b = fadd a (fneg b)"

fun flt :: "pyfloat \<Rightarrow> pyfloat \<Rightarrow> bool" where
  "flt (Fin a) (Fin b) = (a < b)"
| "flt (Fin _) PosInf = True"
| "flt NegInf (Fin _) = True"
| "flt NegInf PosInf = True"
| "flt _ _ = False"

fun feq :: "pyfloat \<Rightarrow> pyfloat \<Rightarrow> bool" where
  "feq (Fin a) (Fin b) = (a = b)"
| "feq PosInf PosInf = True"
| "feq NegInf NegInf = True"
| "feq _ _ = False"

definition fle :: "pyfloat \<Rightarrow> pyfloat \<Rightarrow> bool" where
  "fle a b = (flt a b \<or> feq a b)"

definition is_finite :: "pyfloat \<Rightarrow> bool" where
  "is_finite x = (case x of Fin _ \<Rightarrow> True | _ \<Rightarrow> False)"

text \<open>Python's \<open>min(a, b)\<close>: the second argument only when it is strictly smaller.\<close>

definition fmin :: "pyfloat \<Rightarrow> pyfloat \<Rightarrow> pyfloat" where
  "fmin a b = (if flt b a then b else a)"

text \<open>\<open>math.nextafter(x, -math.inf)\<close>\<close>

fun nextdown :: "pyfloat \<Rightarrow> pyfloat" where
  "nextdown NaN = NaN"
| "nextdown NegInf = NegInf"
| "nextdown PosInf = Fin max_fin"
| "nextdown (Fin n) = (if 0 < n then Fin (prev53 n) else mk_float (- (- n + ulp53 (- n))))"

text \<open>\<open>math.nextafter(x, 0.0)\<close>\<close>

fun nextzero :: "pyfloat \<Rightarrow> pyfloat" where
  "nextzero NaN = NaN"
| "nextzero PosInf = Fin max_fin"
| "nextzero NegInf = Fin (- max_fin)"
| "nextzero (Fin n) = (if 0 < n then Fin (prev53 n) else if n < 0 then Fin (- prev53 (- n)) else Fin 0)"

text \<open>
  \<open>float(x)\<close> of a float is the identity: a double already is representable.  In the model it
  is \<open>fnorm\<close>, which maps any \<open>Fin n\<close> to the double nearest to it and leaves doubles unchanged.
\<close>

fun fnorm :: "pyfloat \<Rightarrow> pyfloat" where
  "fnorm (Fin n) = mk_float (round_signed n 1)"
| "fnorm f = f"

text \<open>A non-negative finite double.\<close>

definition nnf :: "pyfloat \<Rightarrow> bool" where
  "nnf f = (case f of Fin n \<Rightarrow> 0 \<le> n \<and> repr53 n \<and> n < float_limit | _ \<Rightarrow> False)"

lemma nnf_Fin [simp]: "nnf (Fin n) \<longleftrightarrow> 0 \<le> n \<and> repr53 n \<and> n < float_limit"
  by (simp add: nnf_def)

lemma nnf_iff: "nnf f \<longleftrightarrow> (\<exists>n. f = Fin n \<and> 0 \<le> n \<and> repr53 n \<and> n < float_limit)"
  by (auto simp: nnf_def split: pyfloat.splits)

lemma float_unit_pos [simp]: "0 < float_unit" "0 \<le> float_unit" "float_unit \<noteq> 0"
  by (simp_all add: float_unit_def)

lemma repr53_0 [simp]: "repr53 0"
  by (simp add: repr53_small)

lemma fle_Fin [simp]: "fle (Fin a) (Fin b) \<longleftrightarrow> a \<le> b"
  by (auto simp: fle_def)

lemma float_limit_pos [simp]: "0 < float_limit"
  by (simp add: float_limit_def)

lemma repr53_float_limit: "repr53 float_limit"
  using repr53_mult [of 1 "1024 + unit_exp"] by (simp add: float_limit_def)

lemma mk_float_Fin: "0 \<le> n \<Longrightarrow> mk_float n = Fin m \<longleftrightarrow> m = n \<and> n < float_limit"
  using float_limit_pos by (auto simp: mk_float_def)

lemma mk_float_repr:
  assumes "mk_float (round_signed p 1) = Fin m" "0 \<le> m"
  shows "nnf (Fin m)"
proof -
  have m: "m = round_signed p 1" "m < float_limit"
    using assms by (auto simp: mk_float_def split: if_splits)
  show ?thesis
  proof (cases "0 \<le> p")
    case True
    then show ?thesis using assms m by (simp add: round_signed_def round53_repr)
  next
    case False
    then have "m = 0" using m(1) assms(2) round53_nonneg [of "- p" 1] by (simp add: round_signed_def)
    then show ?thesis by simp
  qed
qed

lemma fnorm_nnf: "fnorm f = Fin m \<Longrightarrow> 0 \<le> m \<Longrightarrow> nnf (fnorm f)"
  by (cases f) (auto simp del: nnf_Fin intro: mk_float_repr)

lemma fnorm_id: "nnf f \<Longrightarrow> fnorm f = f"
  by (auto simp: nnf_iff round_signed_def round53_exact mk_float_Fin)

text \<open>Sums and differences of doubles.\<close>

lemma fadd_ge:
  assumes "nnf (Fin a)" "nnf (Fin b)" "fadd (Fin a) (Fin b) = Fin s"
  shows "a \<le> s" "b \<le> s" "nnf (Fin s)"
proof -
  have s: "s = round53 (a + b) 1" "s < float_limit"
    using assms by (auto simp: round_signed_def mk_float_def split: if_splits)
  show "a \<le> s" unfolding s using assms by (intro round53_ge) auto
  show "b \<le> s" unfolding s using assms by (intro round53_ge) auto
  show "nnf (Fin s)" using s assms by (simp add: round53_nonneg round53_repr)
qed

lemma fsub_nonneg:
  assumes "nnf (Fin a)" "nnf (Fin b)" "b \<le> a"
  shows "fsub (Fin a) (Fin b) = Fin (round53 (a - b) 1)" "round53 (a - b) 1 \<le> a" "nnf (Fin (round53 (a - b) 1))"
proof -
  show le: "round53 (a - b) 1 \<le> a" using assms by (intro round53_le) auto
  then have lim: "round53 (a - b) 1 < float_limit" using assms(1) by simp
  have nn: "0 \<le> round53 (a - b) 1" using assms(3) by (simp add: round53_nonneg)
  show "nnf (Fin (round53 (a - b) 1))" using nn lim assms(3) by (simp add: round53_repr)
  show "fsub (Fin a) (Fin b) = Fin (round53 (a - b) 1)"
    using lim nn assms(3) by (simp add: fsub_def round_signed_def mk_float_Fin)
qed

text \<open>One step down from a rounded difference is strictly below the exact difference.\<close>

lemma nextdown_fsub:
  assumes "nnf (Fin a)" "nnf (Fin b)" "b \<le> a"
  obtains d where "nextdown (fsub (Fin a) (Fin b)) = Fin d" "d < a - b"
    "\<And>r m. nnf (Fin r) \<Longrightarrow> nnf (Fin m) \<Longrightarrow> r < m \<Longrightarrow> m \<le> a - b \<Longrightarrow> r \<le> d"
proof (cases "0 < round53 (a - b) 1")
  case True
  have "0 < a - b"
  proof (rule ccontr)
    assume "\<not> 0 < a - b"
    then have "a - b = 0" using assms(3) by simp
    then show False using True round53_exact [of 0] by simp
  qed
  then have "prev53 (round53 (a - b) 1) < a - b" using prev53_round53_less [of "a - b" 1] by simp
  moreover have "r \<le> prev53 (round53 (a - b) 1)"
    if "nnf (Fin r)" "nnf (Fin m)" "r < m" "m \<le> a - b" for r m
  proof -
    have "m \<le> round53 (a - b) 1" using that by (intro round53_ge) auto
    then show ?thesis using that by (intro prev53_greatest) auto
  qed
  ultimately show ?thesis using that True by (simp add: fsub_nonneg(1) [OF assms])
next
  case False
  then have z: "round53 (a - b) 1 = 0" using assms(3) round53_nonneg [of "a - b" 1] by simp
  have u: "ulp53 0 = 1" by (simp add: ulp53_def expo53_def)
  have "nextdown (Fin 0) = Fin (- 1)" by (simp add: u mk_float_def float_limit_def unit_exp_def)
  moreover have "r \<le> - 1" if "nnf (Fin r)" "nnf (Fin m)" "r < m" "m \<le> a - b" for r m
    using that z round53_ge [of m 1 "a - b"] by simp
  moreover have "- 1 < a - b" using assms(3) by simp
  ultimately show ?thesis using that [of "- 1"] fsub_nonneg(1) [OF assms] z by metis
qed

lemma prev53_mono: "0 < m \<Longrightarrow> m \<le> n \<Longrightarrow> prev53 m \<le> prev53 n"
  using prev53_less [of m] by (intro prev53_greatest) (auto simp: prev53_def repr53_down53 down53_nonneg)

lemma repr53_prev53: "0 < n \<Longrightarrow> repr53 (prev53 n)"
  by (simp add: prev53_def repr53_down53)

lemma nnf_max_fin: "nnf (Fin max_fin)"
  using prev53_less [of float_limit] by (simp add: max_fin_def prev53_nonneg repr53_prev53)

text \<open>One step down from a rounded sum: a double strictly below the exact sum.\<close>

lemma nextdown_fadd:
  assumes "nnf (Fin a)" "nnf (Fin b)" "0 < b"
  obtains d where "nextdown (fadd (Fin a) (Fin b)) = Fin d" "d < a + b" "nnf (Fin d)"
    "\<And>r m. nnf (Fin r) \<Longrightarrow> nnf (Fin m) \<Longrightarrow> r < m \<Longrightarrow> m \<le> a + b \<Longrightarrow> r \<le> d"
proof -
  let ?s = "round53 (a + b) 1"
  have ab: "0 < a + b" using assms by simp
  have bs: "b \<le> ?s" using assms by (intro round53_ge) auto
  then have pos: "0 < ?s" using assms(3) by simp
  have below: "prev53 ?s < a + b" using prev53_round53_less [of "a + b" 1] ab by simp
  show ?thesis
  proof (cases "?s < float_limit")
    case True
    have r: "r \<le> prev53 ?s" if "nnf (Fin r)" "nnf (Fin m)" "r < m" "m \<le> a + b" for r m
    proof -
      have "m \<le> ?s" using that by (intro round53_ge) auto
      then show ?thesis using that by (intro prev53_greatest) auto
    qed
    have "nnf (Fin (prev53 ?s))"
      using pos True prev53_less [of ?s] by (simp add: prev53_nonneg repr53_prev53)
    moreover have "mk_float ?s = Fin ?s" using pos True by (simp add: mk_float_Fin)
    ultimately show ?thesis using that [of "prev53 ?s"] pos ab below r
      by (simp add: round_signed_def)
  next
    case False
    then have "max_fin \<le> prev53 ?s" by (simp add: max_fin_def prev53_mono)
    then have lt: "max_fin < a + b" using below by simp
    have r: "r \<le> max_fin" if "nnf (Fin r)" for r
      using that unfolding max_fin_def by (intro prev53_greatest) auto
    have "fadd (Fin a) (Fin b) = PosInf" using False ab by (simp add: round_signed_def mk_float_def)
    then show ?thesis using that [of max_fin] nnf_max_fin lt r by simp
  qed
qed

text \<open>Whole numbers up to \<open>2 ^ 53\<close> convert and subtract exactly.\<close>

lemma nnf_whole: "0 \<le> i \<Longrightarrow> i \<le> 2 ^ 53 \<Longrightarrow> nnf (Fin (i * float_unit))"
proof -
  assume i: "0 \<le> i" "i \<le> 2 ^ 53"
  have "i * float_unit \<le> 2 ^ 53 * 2 ^ unit_exp" using i by (simp add: float_unit_def mult_right_mono)
  also have "\<dots> = 2 ^ (53 + unit_exp)" by (simp add: power_add)
  also have "\<dots> < float_limit" unfolding float_limit_def by (rule power_strict_increasing) simp_all
  finally show ?thesis using i repr53_mult [of i unit_exp] by (simp add: float_unit_def)
qed

lemma float_of_int_whole: "0 \<le> i \<Longrightarrow> i \<le> 2 ^ 53 \<Longrightarrow> float_of_int i = Some (Fin (i * float_unit))"
proof -
  assume i: "0 \<le> i" "i \<le> 2 ^ 53"
  then have n: "nnf (Fin (i * float_unit))" by (rule nnf_whole)
  then have "mk_float (round_signed (i * float_unit) 1) = Fin (i * float_unit)"
    by (simp add: round_signed_def round53_exact mk_float_Fin)
  then show ?thesis by (simp add: float_of_int_def)
qed

lemma fsub_whole:
  "0 \<le> j \<Longrightarrow> j \<le> i \<Longrightarrow> i \<le> 2 ^ 53 \<Longrightarrow>
   fsub (Fin (i * float_unit)) (Fin (j * float_unit)) = Fin ((i - j) * float_unit)"
proof -
  assume ij: "0 \<le> j" "j \<le> i" "i \<le> 2 ^ 53"
  have n: "nnf (Fin (i * float_unit))" "nnf (Fin (j * float_unit))" "nnf (Fin ((i - j) * float_unit))"
    using ij by (intro nnf_whole; simp)+
  have le: "j * float_unit \<le> i * float_unit" using ij by (simp add: float_unit_def)
  have "round53 (i * float_unit - j * float_unit) 1 = (i - j) * float_unit"
    using n(3) round53_exact [of "(i - j) * float_unit"] by (simp add: left_diff_distrib)
  then show ?thesis using fsub_nonneg(1) [OF n(1,2) le] by simp
qed

text \<open>
  The scripts' directed conversion of an exact duration \<open>n / q\<close> to a local float deadline,
  \<open>nextafter(local + min(maximum, nextafter(n / q, 0.0)), -inf)\<close>: the result is strictly within
  both the maximum and the exact duration.
\<close>

lemma nextdown_fadd_less:
  assumes "nnf (Fin a)" "nnf (Fin b)" "nextdown (fadd (Fin a) (Fin b)) = Fin d"
  shows "d < a + b"
proof (cases "0 < b")
  case True
  then obtain d' where "nextdown (fadd (Fin a) (Fin b)) = Fin d'" "d' < a + b"
    using nextdown_fadd [OF assms(1,2)] by metis
  then show ?thesis using assms(3) by simp
next
  case False
  then have b: "b = 0" using assms(2) by simp
  have "fadd (Fin a) (Fin 0) = Fin a"
    using assms(1) by (simp add: round_signed_def round53_exact mk_float_Fin)
  then have "nextdown (Fin a) = Fin d" using assms(3) b by simp
  then show ?thesis using b prev53_less [of a] ulp53_pos [of "- a"]
    by (auto simp: mk_float_def split: if_splits)
qed

lemma int_truediv_pos:
  assumes "int_truediv n q = Some quo" "0 < n" "0 < q"
  obtains z where "nextzero quo = Fin z" "nnf (Fin z)" "z * q < n * float_unit"
proof -
  let ?x = "round53 (n * float_unit) q"
  have p: "0 < n * float_unit" using assms by (simp add: float_unit_def)
  then have nn: "0 \<le> ?x" using assms(3) by (intro round53_nonneg) auto
  have q: "quo = Fin ?x" "?x < float_limit"
    using assms p nn by (auto simp: int_truediv_def round_signed_def mk_float_def split: if_splits)
  show ?thesis
  proof (cases "0 < ?x")
    case True
    have "nnf (Fin (prev53 ?x))" using True q prev53_less [of ?x] by (simp add: prev53_nonneg repr53_prev53)
    moreover have "prev53 ?x * q < n * float_unit" using prev53_round53_less [OF p assms(3)] .
    ultimately show ?thesis using that q True by simp
  next
    case False
    then show ?thesis using that [of 0] q nn p by simp
  qed
qed

lemma directed_sum:
  assumes "nnf (Fin l)" "nnf (Fin m)" "int_truediv n q = Some quo" "0 < n" "0 < q"
    "nextdown (fadd (Fin l) (fmin (Fin m) (nextzero quo))) = Fin d"
  shows "d < l + m \<and> (d - l) * q < n * float_unit"
proof -
  obtain z where z: "nextzero quo = Fin z" "nnf (Fin z)" "z * q < n * float_unit"
    using int_truediv_pos [OF assms(3,4,5)] .
  define x where "x = min m z"
  have x: "fmin (Fin m) (nextzero quo) = Fin x" "nnf (Fin x)" "x \<le> m" "x \<le> z"
    using z assms(2) by (auto simp: fmin_def x_def min_def)
  then have "d < l + x" using nextdown_fadd_less [OF assms(1) x(2)] assms(6) by simp
  moreover have "(d - l) * q \<le> z * q" using calculation x assms(5) by (intro mult_right_mono) auto
  ultimately show ?thesis using x z by linarith
qed

lemma int_truediv_whole: "0 \<le> i \<Longrightarrow> i \<le> 2 ^ 53 \<Longrightarrow> 0 < q \<Longrightarrow> int_truediv (i * q) q = Some (Fin (i * float_unit))"
proof -
  assume i: "0 \<le> i" "i \<le> 2 ^ 53" and q: "0 < q"
  have n: "nnf (Fin (i * float_unit))" using i by (rule nnf_whole)
  have "round53 (i * float_unit * q) q = i * float_unit"
    using n q round53_le [of "i * float_unit * q" q "i * float_unit"] round53_ge [of "i * float_unit" q "i * float_unit * q"]
    by simp
  moreover have "mk_float (i * float_unit) = Fin (i * float_unit)" using n by (simp add: mk_float_Fin)
  moreover have "0 \<le> i * float_unit * q" using i q by simp
  ultimately show ?thesis using q
    by (simp add: int_truediv_def round_signed_def mult.assoc mult.commute [of q])
qed

end
