(* ===== verification/PyValue.thy ===== *)
theory PyValue
  imports P2p_Prelude PyFloat
begin

text \<open>
  The Python values the validators inspect.  \<open>PInt\<close> and \<open>PBool\<close> are separate constructors, so
  \<open>type(v) is int\<close> is \<open>is_int v\<close>, which is false of a bool, while \<open>==\<close> (\<open>py_eq\<close>) compares
  bools, ints and floats numerically as Python does.  A dict is an association list with
  distinct \<open>str\<close> keys (the validated dicts come from JSON or from literals, so their keys are
  strings); \<open>==\<close> on dicts ignores the order.
\<close>

datatype pyval =
    PNone
  | PBool bool
  | PInt int
  | PFloat pyfloat
  | PStr string
  | PBytes string
  | PList "pyval list"
  | PTuple "pyval list"
  | PDict "(string \<times> pyval) list"

section \<open>Types\<close>

definition is_int :: "pyval \<Rightarrow> bool" where
  "is_int v = (case v of PInt _ \<Rightarrow> True | _ \<Rightarrow> False)"

definition is_bool :: "pyval \<Rightarrow> bool" where
  "is_bool v = (case v of PBool _ \<Rightarrow> True | _ \<Rightarrow> False)"

definition is_str :: "pyval \<Rightarrow> bool" where
  "is_str v = (case v of PStr _ \<Rightarrow> True | _ \<Rightarrow> False)"

definition is_list :: "pyval \<Rightarrow> bool" where
  "is_list v = (case v of PList _ \<Rightarrow> True | _ \<Rightarrow> False)"

definition is_dict :: "pyval \<Rightarrow> bool" where
  "is_dict v = (case v of PDict _ \<Rightarrow> True | _ \<Rightarrow> False)"

text \<open>\<open>type(v) is str and p(v)\<close>, \<open>type(v) is int and p(v)\<close>\<close>

definition str_and :: "(string \<Rightarrow> bool) \<Rightarrow> pyval \<Rightarrow> bool" where
  "str_and p v = (case v of PStr s \<Rightarrow> p s | _ \<Rightarrow> False)"

definition int_and :: "(int \<Rightarrow> bool) \<Rightarrow> pyval \<Rightarrow> bool" where
  "int_and p v = (case v of PInt i \<Rightarrow> p i | _ \<Rightarrow> False)"

lemma type_simps [simp]:
  "is_int (PInt i)" "is_str (PStr s)" "is_list (PList vs)" "is_dict (PDict d)" "is_bool (PBool b)"
  by (simp_all add: is_int_def is_str_def is_list_def is_dict_def is_bool_def)

lemma type_iff:
  "is_int v \<longleftrightarrow> (\<exists>i. v = PInt i)" "is_str v \<longleftrightarrow> (\<exists>s. v = PStr s)"
  "is_list v \<longleftrightarrow> (\<exists>vs. v = PList vs)" "is_dict v \<longleftrightarrow> (\<exists>d. v = PDict d)" "is_bool v \<longleftrightarrow> (\<exists>b. v = PBool b)"
  by (auto simp: is_int_def is_str_def is_list_def is_dict_def is_bool_def split: pyval.splits)

lemma str_and_simp [simp]: "str_and p (PStr s) = p s"
  by (simp add: str_and_def)

lemma int_and_simp [simp]: "int_and p (PInt i) = p i"
  by (simp add: int_and_def)

lemma str_and_iff: "str_and p v \<longleftrightarrow> (\<exists>s. v = PStr s \<and> p s)"
  by (auto simp: str_and_def split: pyval.splits)

lemma int_and_iff: "int_and p v \<longleftrightarrow> (\<exists>i. v = PInt i \<and> p i)"
  by (auto simp: int_and_def split: pyval.splits)

section \<open>Equality\<close>

text \<open>The numeric value of a bool, int or float, in units of \<open>2 ^ -1074\<close>.\<close>

definition num_val :: "pyval \<Rightarrow> pyfloat option" where
  "num_val v = (case v of
      PBool b \<Rightarrow> Some (Fin (if b then float_unit else 0))
    | PInt i \<Rightarrow> Some (Fin (i * float_unit))
    | PFloat f \<Rightarrow> Some f
    | _ \<Rightarrow> None)"

definition num_eq :: "pyval \<Rightarrow> pyval \<Rightarrow> bool" where
  "num_eq a b = (case num_val a of None \<Rightarrow> False | Some x \<Rightarrow>
     (case num_val b of None \<Rightarrow> False | Some y \<Rightarrow> feq x y))"

fun py_eq :: "pyval \<Rightarrow> pyval \<Rightarrow> bool"
  and py_eqs :: "pyval list \<Rightarrow> pyval list \<Rightarrow> bool"
  and py_eqd :: "(string \<times> pyval) list \<Rightarrow> (string \<times> pyval) list \<Rightarrow> bool" where
  "py_eq PNone b = (b = PNone)"
| "py_eq (PStr s) b = (b = PStr s)"
| "py_eq (PBytes s) b = (b = PBytes s)"
| "py_eq (PList xs) b = (case b of PList ys \<Rightarrow> py_eqs xs ys | _ \<Rightarrow> False)"
| "py_eq (PTuple xs) b = (case b of PTuple ys \<Rightarrow> py_eqs xs ys | _ \<Rightarrow> False)"
| "py_eq (PDict xs) b = (case b of PDict ys \<Rightarrow> length xs = length ys \<and> py_eqd xs ys | _ \<Rightarrow> False)"
| "py_eq (PBool x) b = num_eq (PBool x) b"
| "py_eq (PInt x) b = num_eq (PInt x) b"
| "py_eq (PFloat x) b = num_eq (PFloat x) b"
| "py_eqs [] ys = (ys = [])"
| "py_eqs (x # xs) ys = (case ys of [] \<Rightarrow> False | y # ys' \<Rightarrow> py_eq x y \<and> py_eqs xs ys')"
| "py_eqd [] ys = True"
| "py_eqd ((k, x) # xs) ys = (case map_of ys k of None \<Rightarrow> False | Some y \<Rightarrow> py_eq x y \<and> py_eqd xs ys)"

text \<open>\<open>v in (a, b, ...)\<close>\<close>

definition py_in :: "pyval \<Rightarrow> pyval list \<Rightarrow> bool" where
  "py_in v vs = list_ex (py_eq v) vs"

lemma num_eq_int [simp]: "num_eq (PInt a) (PInt b) \<longleftrightarrow> a = b"
  by (simp add: num_eq_def num_val_def float_unit_def)

section \<open>Dictionaries\<close>

text \<open>\<open>v[k]\<close>, \<open>v.get(k, d)\<close> and \<open>k in v\<close>\<close>

definition py_item :: "pyval \<Rightarrow> string \<Rightarrow> pyval res" where
  "py_item v k = (case v of
      PDict d \<Rightarrow> (case map_of d k of None \<Rightarrow> Inl KeyError | Some x \<Rightarrow> Inr x)
    | _ \<Rightarrow> Inl TypeError)"

definition py_get :: "pyval \<Rightarrow> string \<Rightarrow> pyval \<Rightarrow> pyval res" where
  "py_get v k x = (case v of
      PDict d \<Rightarrow> Inr (case map_of d k of None \<Rightarrow> x | Some y \<Rightarrow> y)
    | _ \<Rightarrow> Inl AttributeError)"

text \<open>\<open>set(d) == {...}\<close> on a dict\<close>

definition keys_eq :: "(string \<times> pyval) list \<Rightarrow> string list \<Rightarrow> bool" where
  "keys_eq d ks \<longleftrightarrow> set (map fst d) = set ks"

text \<open>\<open>type(v) is dict and set(v) == {...}\<close>\<close>

definition closed_dict :: "pyval \<Rightarrow> string list \<Rightarrow> bool" where
  "closed_dict v ks = (case v of PDict d \<Rightarrow> keys_eq d ks | _ \<Rightarrow> False)"

text \<open>The association list of a value the code has already checked to be a dict.\<close>

definition items :: "pyval \<Rightarrow> (string \<times> pyval) list" where
  "items v = (case v of PDict d \<Rightarrow> d | _ \<Rightarrow> [])"

definition elems :: "pyval \<Rightarrow> pyval list" where
  "elems v = (case v of PList vs \<Rightarrow> vs | PTuple vs \<Rightarrow> vs | _ \<Rightarrow> [])"

lemma items_simp [simp]: "items (PDict d) = d"
  by (simp add: items_def)

lemma elems_simp [simp]: "elems (PList vs) = vs"
  by (simp add: elems_def)

lemma closed_dict_iff: "closed_dict v ks \<longleftrightarrow> (\<exists>d. v = PDict d \<and> keys_eq d ks)"
  by (auto simp: closed_dict_def split: pyval.splits)

lemma closed_dict_item:
  assumes "closed_dict v ks" "k \<in> set ks"
  obtains x where "py_item v k = Inr x"
proof -
  from assms obtain d where d: "v = PDict d" "k \<in> fst ` set d"
    by (auto simp: closed_dict_iff keys_eq_def)
  then obtain x where "map_of d k = Some x" by (metis domD dom_map_of_conv_image_fst)
  then show ?thesis using that d by (simp add: py_item_def)
qed

lemma py_item_PDict: "py_item (PDict d) k = (case map_of d k of None \<Rightarrow> Inl KeyError | Some x \<Rightarrow> Inr x)"
  by (simp add: py_item_def)

lemma py_item_ok [ok_iff]: "py_item v k = Inr x \<longleftrightarrow> (\<exists>d. v = PDict d \<and> map_of d k = Some x)"
  by (auto simp: py_item_def split: pyval.splits option.splits)

section \<open>Numbers as floats\<close>

text \<open>\<open>float(value)\<close> of an int or a float; \<open>None\<close> is the caught \<open>OverflowError\<close>.\<close>

definition to_float :: "pyval \<Rightarrow> pyfloat option" where
  "to_float v = (case v of PInt i \<Rightarrow> float_of_int i | PFloat f \<Rightarrow> Some (fnorm f) | _ \<Rightarrow> None)"

definition is_number :: "pyval \<Rightarrow> bool" where
  "is_number v = (case v of PInt _ \<Rightarrow> True | PFloat _ \<Rightarrow> True | _ \<Rightarrow> False)"

lemma float_of_int_nnf: "float_of_int i = Some f \<Longrightarrow> fle (Fin 0) f \<Longrightarrow> nnf f"
  unfolding float_of_int_def
  by (cases "mk_float (round_signed (i * float_unit) 1)")
    (auto simp del: nnf_Fin intro: mk_float_repr)

lemma to_float_nnf: "to_float v = Some f \<Longrightarrow> is_finite f \<Longrightarrow> fle (Fin 0) f \<Longrightarrow> nnf f"
proof (cases v)
  case (PFloat g)
  assume "to_float v = Some f" "is_finite f" "fle (Fin 0) f"
  with PFloat obtain m where "f = fnorm g" "fnorm g = Fin m" "0 \<le> m"
    by (auto simp: to_float_def is_finite_def split: pyfloat.splits)
  then show ?thesis using fnorm_nnf by simp
qed (auto simp: to_float_def float_of_int_nnf)

text \<open>Python compares an int and a float exactly, by value.\<close>

definition num_lt :: "pyval \<Rightarrow> pyval \<Rightarrow> bool" where
  "num_lt a b = (case num_val a of None \<Rightarrow> False | Some x \<Rightarrow>
     (case num_val b of None \<Rightarrow> False | Some y \<Rightarrow> flt x y))"

end
