(* ===== verification/Step_System.thy ===== *)
theory Step_System
  imports Main
begin

text \<open>
  Runs of a component whose methods are steps \<open>step s es t\<close> from state \<open>s\<close> to state \<open>t\<close> emitting
  the external effects \<open>es\<close>, and the three contracts the stateful components promise: an
  invariant, a flag that is never cleared, and an effect that happens at most once.
\<close>

inductive run :: "('s \<Rightarrow> 'e list \<Rightarrow> 's \<Rightarrow> bool) \<Rightarrow> 's \<Rightarrow> 'e list \<Rightarrow> 's \<Rightarrow> bool" for step where
  run_refl: "run step s [] s"
| run_step: "run step s es t \<Longrightarrow> step t fs u \<Longrightarrow> run step s (es @ fs) u"

lemma run_silent: "run step s es t \<Longrightarrow> step t [] u \<Longrightarrow> run step s es u"
  using run_step [of step s es t "[]" u] by simp

locale step_system =
  fixes step :: "'s \<Rightarrow> 'e list \<Rightarrow> 's \<Rightarrow> bool"
    and inv :: "'s \<Rightarrow> bool"
  assumes step_inv: "inv s \<Longrightarrow> step s es t \<Longrightarrow> inv t"
begin

lemma run_inv: "run step s es t \<Longrightarrow> inv s \<Longrightarrow> inv t"
  by (induction rule: run.induct) (auto intro: step_inv)

end

locale sticky_flag = step_system +
  fixes flag :: "'a \<Rightarrow> bool"
  assumes step_flag: "inv s \<Longrightarrow> step s es t \<Longrightarrow> flag s \<Longrightarrow> flag t"
begin

lemma run_flag: "run step s es t \<Longrightarrow> inv s \<Longrightarrow> flag s \<Longrightarrow> flag t"
  by (induction rule: run.induct) (auto intro: step_flag run_inv)

end

locale single_shot = sticky_flag +
  assumes step_shot: "inv s \<Longrightarrow> step s es t \<Longrightarrow> es \<noteq> [] \<Longrightarrow> \<not> flag s \<and> flag t \<and> length es = 1"
begin

lemma run_spent: "run step s es t \<Longrightarrow> inv s \<Longrightarrow> flag s \<Longrightarrow> es = []"
  by (induction rule: run.induct) (use run_inv run_flag step_shot in blast)+

lemma run_once: "run step s es t \<Longrightarrow> inv s \<Longrightarrow> length es \<le> 1 \<and> (es \<noteq> [] \<longrightarrow> flag t)"
proof (induction rule: run.induct)
  case (run_step s es t fs u)
  then have t: "inv t" by (blast intro: run_inv)
  show ?case
  proof (cases "fs = []")
    case True
    then show ?thesis using run_step t by (auto intro: step_flag)
  next
    case False
    then have "\<not> flag t" "flag u" "length fs = 1" using step_shot [OF t] run_step by auto
    then show ?thesis using run_step by auto
  qed
qed simp

end

end
