(* ===== verification/Keeper.thy ===== *)
theory Keeper
  imports PyValue Step_System
begin

text \<open>
  The decision core of the Apple CI keeper, \<^verbatim>\<open>src/scripts/rpc_apple_ci_lifecycle.py\<close>.

  A \<open>keeper_binding\<close> is the validated immutable \<open>KeeperBinding\<close>; a \<open>keeper\<close> is the mutable
  \<open>KeeperDecision\<close> object.  Every method is a state transformer that returns the result (or the
  exception) together with the object after the call, because a method that raises may already
  have changed the object.  Times are Python floats, with the rounding of the source.

  The lemmas show: the validated time line; that a latched cancellation, a lost clock and a
  decided start are permanent; that the cancellation callback runs at most once, only for a
  launched and cancelled product, with a deadline that leaves the complete Terminal and
  verification reserve; and that the final exit code is the product's own only in a run that
  was never cancelled.
\<close>

section \<open>Bindings\<close>

definition SCOPE :: string where
  "SCOPE = ''ORDINARY_CI_APPLE_KEEPER_DECISIONS_NOT_NATIVE_OR_RELEASE_QUALIFICATION''"

definition BINDING_KEYS :: "string list" where
  "BINDING_KEYS = [''source'', ''runId'', ''runAttempt'', ''jobId'', ''invocationId'', ''bootSession'',
     ''boundAtMonotonic'', ''productCutoffMonotonic'', ''finalizationCutoffMonotonic'',
     ''jobCutoffMonotonic'', ''cancellationAllowanceSeconds'', ''terminalAndVerificationReserveSeconds'']"

definition finite_value :: "pyval \<Rightarrow> pyfloat res" where
  "finite_value v =
     req (is_number v) ''Numeric monotonic observation required'' (
     case to_float v of
       None \<Rightarrow> Inl (Refused ''Unrepresentable monotonic observation'')
     | Some number \<Rightarrow>
         req (is_finite number \<and> fle (Fin 0) number) ''Finite nonnegative monotonic observation required''
           (Inr number))"

text \<open>\<open>[0-9a-fA-F]{8}(?:-[0-9a-fA-F]{4}){3}-[0-9a-fA-F]{12}\<close>\<close>

definition uuid_shape :: "string \<Rightarrow> bool" where
  "uuid_shape s \<longleftrightarrow> map length (split_on CHR ''-'' s) = [8, 4, 4, 4, 12] \<and>
     list_all (\<lambda>c. c = CHR ''-'' \<or> is_hexx c) s"

definition boot_uuid :: "pyval \<Rightarrow> string res" where
  "boot_uuid v = (case v of
      PStr s \<Rightarrow> req (uuid_shape s \<and> set (filter (\<lambda>c. c \<noteq> CHR ''-'') s) \<noteq> {CHR ''0''})
                 ''Exact kernel boot-session UUID required'' (Inr (lower s))
    | _ \<Rightarrow> Inl (Refused ''Exact kernel boot-session UUID required''))"

record keeper_args =
  a_commit :: pyval
  a_tree :: pyval
  a_run_id :: pyval
  a_run_attempt :: pyval
  a_job_id :: pyval
  a_invocation_id :: pyval
  a_boot_session :: pyval
  a_bound_at :: pyval
  a_product_cutoff :: pyval
  a_finalization_cutoff :: pyval
  a_job_cutoff :: pyval
  a_cancellation_allowance :: pyval
  a_reserve :: pyval

record keeper_binding =
  commit :: string
  tree :: string
  run_id :: int
  run_attempt :: int
  job_id :: string
  invocation_id :: string
  boot_session :: string
  bound_at :: pyfloat
  product_cutoff :: pyfloat
  finalization_cutoff :: pyfloat
  job_cutoff :: pyfloat
  cancellation_allowance :: pyfloat
  terminal_and_verification_reserve :: pyfloat

definition object_id :: "pyval \<Rightarrow> string res" where
  "object_id v = (case v of
      PStr s \<Rightarrow> req ((hexn 40 s \<or> hexn 64 s) \<and> set s \<noteq> {CHR ''0''}) ''Exact source object identity required'' (Inr s)
    | _ \<Rightarrow> Inl (Refused ''Exact source object identity required''))"

definition run_number :: "pyval \<Rightarrow> int \<Rightarrow> int res" where
  "run_number v maximum = (case v of
      PInt i \<Rightarrow> req (0 < i \<and> i \<le> maximum) ''Exact run/attempt identity required'' (Inr i)
    | _ \<Rightarrow> Inl (Refused ''Exact run/attempt identity required''))"

definition audit_id :: "pyval \<Rightarrow> string res" where
  "audit_id v = (case v of
      PStr s \<Rightarrow> req (hexn 32 s \<and> set s \<noteq> {CHR ''0''}) ''Exact preallocated audit identity required'' (Inr s)
    | _ \<Rightarrow> Inl (Refused ''Exact preallocated audit identity required''))"

definition secs :: "int \<Rightarrow> pyfloat" where
  "secs i = Fin (i * float_unit)"

text \<open>\<open>KeeperBinding.__post_init__\<close>\<close>

definition binding_post_init :: "keeper_args \<Rightarrow> keeper_binding res" where
  "binding_post_init a =
     andthen (object_id (a_commit a)) (\<lambda>c.
     andthen (object_id (a_tree a)) (\<lambda>t.
     req (length c = length t) ''Source hash algorithms differ'' (
     andthen (run_number (a_run_id a) (2 ^ 63 - 1)) (\<lambda>rid.
     andthen (run_number (a_run_attempt a) (2 ^ 31 - 1)) (\<lambda>ratt.
     andthen (audit_id (a_job_id a)) (\<lambda>jid.
     andthen (audit_id (a_invocation_id a)) (\<lambda>inv.
     andthen (boot_uuid (a_boot_session a)) (\<lambda>boot.
     andthen (finite_value (a_bound_at a)) (\<lambda>bnd.
     andthen (finite_value (a_product_cutoff a)) (\<lambda>prod.
     andthen (finite_value (a_finalization_cutoff a)) (\<lambda>fin.
     andthen (finite_value (a_job_cutoff a)) (\<lambda>job.
     andthen (finite_value (a_cancellation_allowance a)) (\<lambda>allow.
     andthen (finite_value (a_reserve a)) (\<lambda>reserve.
     req (flt bnd prod \<and> flt prod fin \<and> fle fin job \<and> fle (fsub job bnd) (secs 3600) \<and>
          fle reserve (fsub fin prod))
       ''Original job/product cutoffs and complete finalization reserve required'' (
     req (fle (secs 30) reserve \<and> flt reserve allow \<and> fle allow (secs 300))
       ''Caller-reviewed cancellation allowance and Terminal/verification reserve required'' (
     Inr \<lparr>commit = c, tree = t, run_id = rid, run_attempt = ratt, job_id = jid, invocation_id = inv,
          boot_session = boot, bound_at = bnd, product_cutoff = prod, finalization_cutoff = fin,
          job_cutoff = job, cancellation_allowance = allow,
          terminal_and_verification_reserve = reserve\<rparr>))))))))))))))))"

definition from_record :: "pyval \<Rightarrow> keeper_binding res" where
  "from_record v =
     req (closed_dict v BINDING_KEYS) ''Closed keeper binding required'' (
     andthen (py_item v ''source'') (\<lambda>source.
     req (closed_dict source [''commit'', ''tree'']) ''Closed exact source required'' (
     andthen (py_item source ''commit'') (\<lambda>c.
     andthen (py_item source ''tree'') (\<lambda>t.
     andthen (py_item v ''runId'') (\<lambda>rid.
     andthen (py_item v ''runAttempt'') (\<lambda>ratt.
     andthen (py_item v ''jobId'') (\<lambda>jid.
     andthen (py_item v ''invocationId'') (\<lambda>inv.
     andthen (py_item v ''bootSession'') (\<lambda>boot.
     andthen (py_item v ''boundAtMonotonic'') (\<lambda>bnd.
     andthen (py_item v ''productCutoffMonotonic'') (\<lambda>prod.
     andthen (py_item v ''finalizationCutoffMonotonic'') (\<lambda>fin.
     andthen (py_item v ''jobCutoffMonotonic'') (\<lambda>job.
     andthen (py_item v ''cancellationAllowanceSeconds'') (\<lambda>allow.
     andthen (py_item v ''terminalAndVerificationReserveSeconds'') (\<lambda>reserve.
     binding_post_init
       \<lparr>a_commit = c, a_tree = t, a_run_id = rid, a_run_attempt = ratt, a_job_id = jid,
        a_invocation_id = inv, a_boot_session = boot, a_bound_at = bnd, a_product_cutoff = prod,
        a_finalization_cutoff = fin, a_job_cutoff = job, a_cancellation_allowance = allow,
        a_reserve = reserve\<rparr>))))))))))))))))"

section \<open>The decision object\<close>

record keeper =
  binding :: keeper_binding
  last_now :: pyfloat
  clock_usable :: bool
  start_decided :: bool
  launch_requested :: bool
  product_exit :: "int option"
  cancel_reason :: "string option"
  cancel_cutoff :: "pyfloat option"
  cancel_attempted :: bool
  cancel_delivery :: string
  closed :: bool

definition keeper_init :: "keeper_binding \<Rightarrow> keeper" where
  "keeper_init b = \<lparr>binding = b, last_now = bound_at b, clock_usable = True, start_decided = False,
     launch_requested = False, product_exit = None, cancel_reason = None, cancel_cutoff = None,
     cancel_attempted = False, cancel_delivery = ''NOT_REQUESTED'', closed = False\<rparr>"

definition cancellation_request_cutoff :: "keeper \<Rightarrow> pyfloat option" where
  "cancellation_request_cutoff k = (case cancel_cutoff k of
      None \<Rightarrow> None
    | Some c \<Rightarrow> Some (nextdown (fsub c (terminal_and_verification_reserve (binding k)))))"

definition latch :: "string \<Rightarrow> keeper \<Rightarrow> keeper" where
  "latch reason k =
     (if cancel_reason k = None
      then (let k' = k\<lparr>cancel_reason := Some reason\<rparr> in
            if clock_usable k
            then k'\<lparr>cancel_cutoff := Some (fmin (finalization_cutoff (binding k))
                   (nextdown (fadd (last_now k) (cancellation_allowance (binding k)))))\<rparr>
            else k')
      else k)"

definition lose_clock :: "string \<Rightarrow> keeper \<Rightarrow> keeper" where
  "lose_clock reason k = latch reason (k\<lparr>clock_usable := False\<rparr>)"

definition observe_clock :: "pyval \<Rightarrow> pyval \<Rightarrow> keeper \<Rightarrow> keeper" where
  "observe_clock now boot k =
     (case boot_uuid boot of
        Inl _ \<Rightarrow> lose_clock ''BOOT_SESSION_UNKNOWN'' k
      | Inr b \<Rightarrow>
        if b \<noteq> boot_session (binding k) then lose_clock ''BOOT_SESSION_CHANGED'' k
        else case finite_value now of
          Inl _ \<Rightarrow> lose_clock ''CLOCK_UNKNOWN'' k
        | Inr observed \<Rightarrow>
          if flt observed (last_now k) then lose_clock ''CLOCK_REVERSED'' k
          else if \<not> clock_usable k then k
          else let k' = k\<lparr>last_now := observed\<rparr> in
            if (case cancel_cutoff k of None \<Rightarrow> False | Some c \<Rightarrow> fle c observed)
            then latch ''CANCELLATION_DEADLINE'' k'
            else if fle (finalization_cutoff (binding k)) observed then latch ''FINALIZATION_DEADLINE'' k'
            else if product_exit k = None \<and> fle (product_cutoff (binding k)) observed
            then latch ''PRODUCT_DEADLINE'' k'
            else k')"

record observation =
  o_now :: pyval
  o_boot :: pyval
  o_facade :: pyval
  o_explicit_cancel :: pyval

definition closed_error :: "string" where
  "closed_error = ''Finalized keeper cannot accept new work or observations''"

definition observe_body :: "observation \<Rightarrow> keeper \<Rightarrow> keeper" where
  "observe_body ob k =
     (let k1 = observe_clock (o_now ob) (o_boot ob) k;
          k2 = (case o_explicit_cancel ob of
                  PBool b \<Rightarrow> if b then latch ''EXPLICIT_CANCEL'' k1 else k1
                | _ \<Rightarrow> latch ''CANCEL_OBSERVATION_UNKNOWN'' k1)
      in if o_facade ob = PStr ''EOF'' then latch ''FACADE_EOF'' k2
         else if o_facade ob \<noteq> PStr ''SAME'' then latch ''FACADE_IDENTITY_UNKNOWN'' k2
         else k2)"

definition observe :: "observation \<Rightarrow> keeper \<Rightarrow> bool res \<times> keeper" where
  "observe ob k =
     (if closed k then (Inl (Refused closed_error), k)
      else let k' = observe_body ob k in (Inr (cancel_reason k' = None), k'))"

definition begin_product :: "observation \<Rightarrow> keeper \<Rightarrow> bool res \<times> keeper" where
  "begin_product ob k =
     (if start_decided k then (Inl (Refused ''Product launch decision is single-use''), k)
      else case observe ob (k\<lparr>start_decided := True\<rparr>) of
        (Inl e, k') \<Rightarrow> (Inl e, k')
      | (Inr b, k') \<Rightarrow> (Inr b, k'\<lparr>launch_requested := b\<rparr>))"

definition product_exited :: "pyval \<Rightarrow> observation \<Rightarrow> keeper \<Rightarrow> unit res \<times> keeper" where
  "product_exited code ob k =
     (if \<not> (launch_requested k \<and> product_exit k = None)
      then (Inl (Refused ''One previously requested product exit required''), k)
      else case code of
        PInt c \<Rightarrow>
          if - 255 \<le> c \<and> c \<le> 255
          then (case observe ob k of
                  (Inl e, k') \<Rightarrow> (Inl e, k')
                | (Inr _, k') \<Rightarrow> (Inr (), k'\<lparr>product_exit := Some c\<rparr>))
          else (Inl (Refused ''Exact observed product exit required''), k)
      | _ \<Rightarrow> (Inl (Refused ''Exact observed product exit required''), k))"

text \<open>
  The injected callables of \<open>request_cancellation\<close>: a clock sample either raised or returned a
  pair, the callback either raised or returned a value.  A cancellation call records the
  arguments the callback received.
\<close>

datatype sample = SampleRaised | Sample pyval pyval

datatype delivery_result = CallbackRaised | CallbackReturned pyval

record cancel_call =
  expected_job_id :: string
  call_invocation_id :: string
  deadline_monotonic :: pyfloat

definition take_sample :: "sample \<Rightarrow> keeper \<Rightarrow> keeper" where
  "take_sample s k = (case s of
      SampleRaised \<Rightarrow> lose_clock ''CLOCK_UNKNOWN'' k
    | Sample now boot \<Rightarrow> observe_clock now boot k)"

definition request_cancellation ::
  "(cancel_call \<Rightarrow> delivery_result) \<Rightarrow> sample \<Rightarrow> sample \<Rightarrow> keeper \<Rightarrow>
     string res \<times> keeper \<times> cancel_call list" where
  "request_cancellation callback before after k =
     (if closed k then (Inl (Refused ''Finalized keeper cannot request cancellation''), k, [])
      else if cancel_reason k = None \<or> \<not> launch_requested k then (Inr (cancel_delivery k), k, [])
      else if cancel_attempted k then (Inr (cancel_delivery k), k, [])
      else let k1 = take_sample before (k\<lparr>cancel_attempted := True\<rparr>) in
        if \<not> clock_usable k1
        then (Inr ''REFUSED_CLOCK'', k1\<lparr>cancel_delivery := ''REFUSED_CLOCK''\<rparr>, [])
        else case cancellation_request_cutoff k1 of
          None \<Rightarrow> (Inr ''REFUSED_DEADLINE'', k1\<lparr>cancel_delivery := ''REFUSED_DEADLINE''\<rparr>, [])
        | Some deadline \<Rightarrow>
          if fle deadline (last_now k1)
          then (Inr ''REFUSED_DEADLINE'', k1\<lparr>cancel_delivery := ''REFUSED_DEADLINE''\<rparr>, [])
          else let call = \<lparr>expected_job_id = job_id (binding k1),
                   call_invocation_id = invocation_id (binding k1), deadline_monotonic = deadline\<rparr>;
                 d1 = (if callback call = CallbackReturned PNone
                       then ''ACKNOWLEDGED_BY_CALLBACK'' else ''FAILED_CALLBACK'');
                 k2 = take_sample after (k1\<lparr>cancel_delivery := d1\<rparr>);
                 d2 = (if \<not> clock_usable k2 then ''UNKNOWN_CALLBACK_COMPLETION''
                       else if fle deadline (last_now k2) then ''LATE_CALLBACK_COMPLETION''
                       else d1)
             in (Inr d2, k2\<lparr>cancel_delivery := d2\<rparr>, [call]))"

record keeper_report =
  r_scope :: string
  r_commit :: string
  r_tree :: string
  r_run_id :: int
  r_run_attempt :: int
  r_job_id :: string
  r_invocation_id :: string
  r_product_exit_code :: "int option"
  r_exit_code_decision :: int
  r_cancellation_reason :: "string option"
  r_cancellation_delivery :: string
  r_cancellation_cutoff :: "pyfloat option"
  r_cancellation_request_cutoff :: "pyfloat option"
  r_cleanup_observation :: string
  r_native_execution_authorized :: bool
  r_runtime_evidence_required :: bool

definition finish_report :: "bool \<Rightarrow> keeper \<Rightarrow> keeper_report" where
  "finish_report cleanup_verified k =
     (let cutoff = (case cancel_cutoff k of None \<Rightarrow> finalization_cutoff (binding k) | Some c \<Rightarrow> c);
          cleanup_accepted = (cleanup_verified \<and> clock_usable k \<and> flt (last_now k) cutoff);
          code = (case product_exit k of
              None \<Rightarrow> 125
            | Some c \<Rightarrow> if cancel_reason k = None \<and> cleanup_accepted \<and> 0 \<le> c \<and> c \<le> 255 then c else 125)
      in \<lparr>r_scope = SCOPE, r_commit = commit (binding k), r_tree = tree (binding k),
          r_run_id = run_id (binding k), r_run_attempt = run_attempt (binding k),
          r_job_id = job_id (binding k), r_invocation_id = invocation_id (binding k),
          r_product_exit_code = product_exit k, r_exit_code_decision = code,
          r_cancellation_reason = cancel_reason k, r_cancellation_delivery = cancel_delivery k,
          r_cancellation_cutoff = cancel_cutoff k,
          r_cancellation_request_cutoff = cancellation_request_cutoff k,
          r_cleanup_observation = (if cleanup_accepted then ''VERIFIED_BY_CALLER'' else ''UNKNOWN''),
          r_native_execution_authorized = False, r_runtime_evidence_required = True\<rparr>)"

definition finish :: "pyval \<Rightarrow> observation \<Rightarrow> keeper \<Rightarrow> keeper_report res \<times> keeper" where
  "finish cleanup ob k = (case cleanup of
      PBool verified \<Rightarrow>
        (case observe ob k of
           (Inl e, k') \<Rightarrow> (Inl e, k')
         | (Inr _, k') \<Rightarrow> let k2 = k'\<lparr>closed := True\<rparr> in (Inr (finish_report verified k2), k2))
    | _ \<Rightarrow> (Inl (Refused ''Explicit cleanup observation required''), k))"

section \<open>Validated bindings\<close>

definition binding_ok :: "keeper_binding \<Rightarrow> bool" where
  "binding_ok b \<longleftrightarrow>
     nnf (bound_at b) \<and> nnf (product_cutoff b) \<and> nnf (finalization_cutoff b) \<and> nnf (job_cutoff b) \<and>
     nnf (cancellation_allowance b) \<and> nnf (terminal_and_verification_reserve b) \<and>
     flt (bound_at b) (product_cutoff b) \<and> flt (product_cutoff b) (finalization_cutoff b) \<and>
     fle (finalization_cutoff b) (job_cutoff b) \<and>
     fle (terminal_and_verification_reserve b) (finalization_cutoff b) \<and>
     fle (secs 30) (terminal_and_verification_reserve b) \<and>
     flt (terminal_and_verification_reserve b) (cancellation_allowance b) \<and>
     fle (cancellation_allowance b) (secs 300)"

lemma finite_value_nnf: "finite_value v = Inr f \<Longrightarrow> nnf f"
  by (auto simp: finite_value_def ok_iff to_float_nnf split: option.splits)

lemma reserve_within_finalization:
  assumes "nnf fin" "nnf pc" "flt pc fin" "fle r (fsub fin pc)" "nnf r"
  shows "fle r fin"
proof -
  obtain f p x where n: "fin = Fin f" "pc = Fin p" "r = Fin x"
    using assms by (auto simp: nnf_iff)
  then show ?thesis using fsub_nonneg [of f p] assms by auto
qed

lemma binding_post_init_ok: "binding_post_init a = Inr b \<Longrightarrow> binding_ok b"
  unfolding binding_post_init_def
  by (auto simp: ok_iff binding_ok_def dest!: finite_value_nnf intro: reserve_within_finalization)

lemma from_record_ok: "from_record v = Inr b \<Longrightarrow> binding_ok b"
  unfolding from_record_def by (auto simp: ok_iff dest: binding_post_init_ok)

section \<open>The cancellation cutoff\<close>

lemma latched_cutoff:
  assumes "binding_ok b" "nnf now"
  obtains c f n a r where
    "fmin (finalization_cutoff b) (nextdown (fadd now (cancellation_allowance b))) = Fin c"
    "nnf (Fin c)" "finalization_cutoff b = Fin f" "c \<le> f" "now = Fin n"
    "cancellation_allowance b = Fin a" "c < n + a"
    "terminal_and_verification_reserve b = Fin r" "r \<le> c"
proof -
  obtain f n a r where v: "finalization_cutoff b = Fin f" "now = Fin n" "cancellation_allowance b = Fin a"
      "terminal_and_verification_reserve b = Fin r"
    using assms by (auto simp: binding_ok_def nnf_iff)
  have h: "nnf (Fin f)" "nnf (Fin n)" "nnf (Fin a)" "nnf (Fin r)" "r < a" "r \<le> f"
    using assms v by (auto simp: binding_ok_def)
  then have "0 < a" by auto
  with h obtain d where d: "nextdown (fadd (Fin n) (Fin a)) = Fin d" "d < n + a" "nnf (Fin d)"
      and ge: "\<And>x m. nnf (Fin x) \<Longrightarrow> nnf (Fin m) \<Longrightarrow> x < m \<Longrightarrow> m \<le> n + a \<Longrightarrow> x \<le> d"
    by (metis nextdown_fadd)
  have "r \<le> d" using ge [of r a] h by simp
  show ?thesis
  proof (cases "d < f")
    case True
    then show ?thesis using that [of d f n a r] v d h \<open>r \<le> d\<close> by (simp add: fmin_def)
  next
    case False
    then show ?thesis using that [of f f n a r] v d h by (simp add: fmin_def)
  qed
qed

definition keeper_base :: "keeper \<Rightarrow> bool" where
  "keeper_base k \<longleftrightarrow>
     binding_ok (binding k) \<and> nnf (last_now k) \<and>
     (\<forall>c. cancel_cutoff k = Some c \<longrightarrow>
        cancel_reason k \<noteq> None \<and> nnf c \<and> fle c (finalization_cutoff (binding k)) \<and>
        fle (terminal_and_verification_reserve (binding k)) c) \<and>
     (launch_requested k \<longrightarrow> start_decided k) \<and>
     (product_exit k \<noteq> None \<longrightarrow> launch_requested k) \<and>
     (cancel_attempted k \<longrightarrow> launch_requested k \<and> cancel_reason k \<noteq> None)"

text \<open>While nothing is latched, the clock is good and every deadline still lies ahead.\<close>

definition keeper_live :: "keeper \<Rightarrow> bool" where
  "keeper_live k \<longleftrightarrow> cancel_reason k \<noteq> None \<or>
     clock_usable k \<and> flt (last_now k) (finalization_cutoff (binding k)) \<and>
     (product_exit k = None \<longrightarrow> flt (last_now k) (product_cutoff (binding k)))"

definition keeper_inv :: "keeper \<Rightarrow> bool" where
  "keeper_inv k \<longleftrightarrow> keeper_base k \<and> keeper_live k"

lemma keeper_inv_init: "binding_ok b \<Longrightarrow> keeper_inv (keeper_init b)"
  by (auto simp: keeper_inv_def keeper_base_def keeper_live_def keeper_init_def binding_ok_def nnf_iff)

section \<open>What each method keeps\<close>

text \<open>The fields a latch never touches.\<close>

lemma latch_frame [simp]:
  "binding (latch r k) = binding k" "last_now (latch r k) = last_now k"
  "clock_usable (latch r k) = clock_usable k" "start_decided (latch r k) = start_decided k"
  "launch_requested (latch r k) = launch_requested k" "product_exit (latch r k) = product_exit k"
  "cancel_attempted (latch r k) = cancel_attempted k" "cancel_delivery (latch r k) = cancel_delivery k"
  "closed (latch r k) = closed k"
  by (simp_all add: latch_def Let_def)

lemma latch_reason [simp]: "cancel_reason (latch r k) \<noteq> None"
  by (simp add: latch_def Let_def)

lemma latch_sticky [simp]: "cancel_reason k \<noteq> None \<Longrightarrow> latch r k = k"
  by (auto simp: latch_def)

lemma latch_base:
  assumes "keeper_base k"
  shows "keeper_base (latch r k)"
proof (cases "cancel_reason k = None \<and> clock_usable k")
  case True
  from assms have "binding_ok (binding k)" "nnf (last_now k)" by (auto simp: keeper_base_def)
  then obtain c f n a x where
    "fmin (finalization_cutoff (binding k)) (nextdown (fadd (last_now k) (cancellation_allowance (binding k)))) = Fin c"
    "nnf (Fin c)" "finalization_cutoff (binding k) = Fin f" "c \<le> f"
    "terminal_and_verification_reserve (binding k) = Fin x" "x \<le> c"
    by (rule latched_cutoff)
  then show ?thesis using True assms by (auto simp: keeper_base_def latch_def Let_def)
next
  case False
  then show ?thesis using assms by (cases "cancel_reason k") (auto simp: keeper_base_def latch_def Let_def split: option.splits)
qed

lemma latch_live [simp]: "keeper_live (latch r k)"
  by (simp add: keeper_live_def)

lemma latch_inv: "keeper_base k \<Longrightarrow> keeper_inv (latch r k)"
  by (simp add: keeper_inv_def latch_base)

lemma lose_clock_inv: "keeper_base k \<Longrightarrow> keeper_inv (lose_clock r k)"
  unfolding lose_clock_def by (intro latch_inv) (simp add: keeper_base_def)

lemma observe_clock_inv:
  assumes "keeper_inv k"
  shows "keeper_inv (observe_clock now boot k)"
proof -
  have base: "keeper_base k" and live: "keeper_live k" using assms by (auto simp: keeper_inv_def)
  have upd: "keeper_base (k\<lparr>last_now := f\<rparr>)" if "nnf f" for f
    using base that by (simp add: keeper_base_def)
  have live': "keeper_live (k\<lparr>last_now := f\<rparr>)"
    if "nnf f" "clock_usable k" "\<not> fle (finalization_cutoff (binding k)) f"
      "\<not> (product_exit k = None \<and> fle (product_cutoff (binding k)) f)" for f
    using base that by (auto simp: keeper_live_def keeper_base_def binding_ok_def nnf_iff)
  show ?thesis
    unfolding observe_clock_def Let_def
    by (auto split: sum.splits option.splits dest: finite_value_nnf
        intro!: lose_clock_inv latch_inv base assms upd)
      (auto simp: keeper_inv_def intro!: upd live' dest: finite_value_nnf)
qed

lemma latch_keeps: "keeper_inv k \<Longrightarrow> keeper_inv (latch r k)"
  by (simp add: keeper_inv_def latch_base)

lemma observe_body_inv: "keeper_inv k \<Longrightarrow> keeper_inv (observe_body ob k)"
  unfolding observe_body_def Let_def
  by (auto split: pyval.splits intro!: latch_keeps observe_clock_inv)

lemma observe_inv: "keeper_inv k \<Longrightarrow> keeper_inv (snd (observe ob k))"
  by (simp add: observe_def Let_def observe_body_inv)

text \<open>The fields an observation never touches.\<close>

lemma lose_clock_frame [simp]:
  "binding (lose_clock r k) = binding k" "last_now (lose_clock r k) = last_now k"
  "\<not> clock_usable (lose_clock r k)" "start_decided (lose_clock r k) = start_decided k"
  "launch_requested (lose_clock r k) = launch_requested k" "product_exit (lose_clock r k) = product_exit k"
  "cancel_attempted (lose_clock r k) = cancel_attempted k" "cancel_delivery (lose_clock r k) = cancel_delivery k"
  "closed (lose_clock r k) = closed k"
  by (simp_all add: lose_clock_def)

lemma observe_clock_frame [simp]:
  "binding (observe_clock n b k) = binding k" "start_decided (observe_clock n b k) = start_decided k"
  "launch_requested (observe_clock n b k) = launch_requested k" "product_exit (observe_clock n b k) = product_exit k"
  "cancel_attempted (observe_clock n b k) = cancel_attempted k" "cancel_delivery (observe_clock n b k) = cancel_delivery k"
  "closed (observe_clock n b k) = closed k"
  by (simp_all add: observe_clock_def Let_def split: sum.splits option.splits)

lemma observe_body_frame [simp]:
  "binding (observe_body ob k) = binding k" "start_decided (observe_body ob k) = start_decided k"
  "launch_requested (observe_body ob k) = launch_requested k" "product_exit (observe_body ob k) = product_exit k"
  "cancel_attempted (observe_body ob k) = cancel_attempted k" "cancel_delivery (observe_body ob k) = cancel_delivery k"
  "closed (observe_body ob k) = closed k"
  by (simp_all add: observe_body_def Let_def split: pyval.splits)

text \<open>A latched reason, a fixed cutoff and a lost clock survive every observation.\<close>

lemma lose_clock_sticky: "cancel_reason k \<noteq> None \<Longrightarrow> lose_clock r k = k\<lparr>clock_usable := False\<rparr>"
  by (simp add: lose_clock_def)

lemma observe_clock_sticky:
  assumes "cancel_reason k = Some r"
  shows "cancel_reason (observe_clock n b k) = Some r" "cancel_cutoff (observe_clock n b k) = cancel_cutoff k"
  using assms by (simp_all add: observe_clock_def Let_def lose_clock_sticky split: sum.splits option.splits)

lemma observe_clock_lost: "\<not> clock_usable k \<Longrightarrow> \<not> clock_usable (observe_clock n b k)"
  by (simp add: observe_clock_def Let_def split: sum.splits option.splits)

lemma observe_body_sticky:
  assumes "cancel_reason k = Some r"
  shows "cancel_reason (observe_body ob k) = Some r" "cancel_cutoff (observe_body ob k) = cancel_cutoff k"
  using observe_clock_sticky [OF assms] by (simp_all add: observe_body_def Let_def split: pyval.splits)

lemma observe_body_lost: "\<not> clock_usable k \<Longrightarrow> \<not> clock_usable (observe_body ob k)"
  using observe_clock_lost [of k] by (simp add: observe_body_def Let_def split: pyval.splits)

lemma take_sample_frame [simp]:
  "binding (take_sample s k) = binding k" "start_decided (take_sample s k) = start_decided k"
  "launch_requested (take_sample s k) = launch_requested k" "product_exit (take_sample s k) = product_exit k"
  "cancel_attempted (take_sample s k) = cancel_attempted k" "cancel_delivery (take_sample s k) = cancel_delivery k"
  "closed (take_sample s k) = closed k"
  by (simp_all add: take_sample_def split: sample.splits)

lemma take_sample_inv: "keeper_inv k \<Longrightarrow> keeper_inv (take_sample s k)"
  by (auto simp: take_sample_def keeper_inv_def [of k] split: sample.splits
      intro: lose_clock_inv observe_clock_inv)

lemma take_sample_sticky:
  assumes "cancel_reason k = Some r"
  shows "cancel_reason (take_sample s k) = Some r" "cancel_cutoff (take_sample s k) = cancel_cutoff k"
  using assms observe_clock_sticky [OF assms]
  by (simp_all add: take_sample_def lose_clock_sticky split: sample.splits)

lemma take_sample_lost: "\<not> clock_usable k \<Longrightarrow> \<not> clock_usable (take_sample s k)"
  by (simp add: take_sample_def observe_clock_lost split: sample.splits)

section \<open>Method calls as steps\<close>

text \<open>One step is one method call with arbitrary arguments, whether it returns or raises.\<close>

inductive keeper_step :: "keeper \<Rightarrow> cancel_call list \<Rightarrow> keeper \<Rightarrow> bool" where
  step_observe: "keeper_step k [] (snd (observe ob k))"
| step_begin: "keeper_step k [] (snd (begin_product ob k))"
| step_exited: "keeper_step k [] (snd (product_exited code ob k))"
| step_cancel: "request_cancellation callback before after k = (r, k', calls) \<Longrightarrow> keeper_step k calls k'"
| step_finish: "keeper_step k [] (snd (finish cleanup ob k))"

inductive_cases keeper_stepE: "keeper_step k es k'"

lemma start_decided_inv: "keeper_inv k \<Longrightarrow> \<not> start_decided k \<Longrightarrow> keeper_inv (k\<lparr>start_decided := True\<rparr>)"
  by (auto simp: keeper_inv_def keeper_base_def keeper_live_def)

lemma begin_product_inv:
  assumes "keeper_inv k"
  shows "keeper_inv (snd (begin_product ob k))"
proof (cases "start_decided k \<or> closed k")
  case True
  then show ?thesis using assms start_decided_inv [OF assms] by (auto simp: begin_product_def observe_def)
next
  case False
  let ?k = "observe_body ob (k\<lparr>start_decided := True\<rparr>)"
  have "keeper_inv ?k" using assms False by (simp add: observe_body_inv start_decided_inv)
  moreover have "\<not> launch_requested k" using assms False by (auto simp: keeper_inv_def keeper_base_def)
  ultimately have "keeper_inv (?k\<lparr>launch_requested := cancel_reason ?k = None\<rparr>)"
    using assms False by (auto simp: keeper_inv_def keeper_base_def keeper_live_def)
  then show ?thesis using False by (simp add: begin_product_def observe_def Let_def)
qed

lemma product_exited_inv:
  assumes "keeper_inv k"
  shows "keeper_inv (snd (product_exited code ob k))"
proof -
  have "keeper_inv ((observe_body ob k)\<lparr>product_exit := Some c\<rparr>)" if "launch_requested k" for c
    using observe_body_inv [OF assms, of ob] that
    by (auto simp: keeper_inv_def keeper_base_def keeper_live_def)
  then show ?thesis using assms by (auto simp: product_exited_def observe_def Let_def split: pyval.splits)
qed

lemma finish_inv:
  assumes "keeper_inv k"
  shows "keeper_inv (snd (finish cleanup ob k))"
proof -
  have "keeper_inv (x\<lparr>closed := True\<rparr>)" if "keeper_inv x" for x
    using that by (simp add: keeper_inv_def keeper_base_def keeper_live_def)
  then show ?thesis using assms observe_body_inv [OF assms]
    by (auto simp: finish_def observe_def Let_def split: pyval.splits)
qed

lemma delivery_inv: "keeper_inv (k\<lparr>cancel_delivery := d\<rparr>) \<longleftrightarrow> keeper_inv k"
  by (simp add: keeper_inv_def keeper_base_def keeper_live_def)

lemma attempted_inv:
  "keeper_inv k \<Longrightarrow> launch_requested k \<Longrightarrow> cancel_reason k \<noteq> None \<Longrightarrow> keeper_inv (k\<lparr>cancel_attempted := True\<rparr>)"
  by (simp add: keeper_inv_def keeper_base_def keeper_live_def)

lemma request_cancellation_inv:
  assumes "keeper_inv k" "request_cancellation cb s1 s2 k = (r, k', calls)"
  shows "keeper_inv k'"
proof (cases "closed k \<or> cancel_reason k = None \<or> \<not> launch_requested k \<or> cancel_attempted k")
  case True
  then show ?thesis using assms by (auto simp: request_cancellation_def split: if_splits)
next
  case False
  let ?k1 = "take_sample s1 (k\<lparr>cancel_attempted := True\<rparr>)"
  have "keeper_inv ?k1" using assms False by (simp add: take_sample_inv attempted_inv)
  then have "keeper_inv (take_sample s2 (?k1\<lparr>cancel_delivery := d\<rparr>))" for d
    by (simp add: take_sample_inv delivery_inv)
  then show ?thesis using assms False \<open>keeper_inv ?k1\<close>
    by (auto simp: request_cancellation_def Let_def delivery_inv split: if_splits option.splits)
qed

lemma keeper_step_inv: "keeper_step k es k' \<Longrightarrow> keeper_inv k \<Longrightarrow> keeper_inv k'"
  by (induction rule: keeper_step.induct)
    (auto intro: observe_inv begin_product_inv product_exited_inv finish_inv request_cancellation_inv)

text \<open>No method undoes a latched reason, a lost clock, a decided start or an attempted delivery.\<close>

definition keeps :: "keeper \<Rightarrow> keeper \<Rightarrow> bool" where
  "keeps k k' \<longleftrightarrow> binding k' = binding k \<and>
     (cancel_reason k \<noteq> None \<longrightarrow> cancel_reason k' = cancel_reason k \<and> cancel_cutoff k' = cancel_cutoff k) \<and>
     (\<not> clock_usable k \<longrightarrow> \<not> clock_usable k') \<and> (start_decided k \<longrightarrow> start_decided k') \<and>
     (cancel_attempted k \<longrightarrow> cancel_attempted k')"

lemma keeps_refl [simp]: "keeps k k"
  by (simp add: keeps_def)

lemma keeps_observe_body: "keeps k (observe_body ob k)"
  using observe_body_sticky [of k] by (auto simp: keeps_def observe_body_lost)

lemma keeps_observe: "keeps k (snd (observe ob k))"
  by (simp add: observe_def Let_def keeps_observe_body)

lemma keeps_begin: "keeps k (snd (begin_product ob k))"
  using keeps_observe_body [of "k\<lparr>start_decided := True\<rparr>" ob]
  by (auto simp: begin_product_def observe_def Let_def keeps_def)

lemma keeps_exited: "keeps k (snd (product_exited code ob k))"
  using keeps_observe_body [of k ob]
  by (auto simp: product_exited_def observe_def Let_def keeps_def split: pyval.splits)

lemma keeps_finish: "keeps k (snd (finish cleanup ob k))"
  using keeps_observe_body [of k ob]
  by (auto simp: finish_def observe_def Let_def keeps_def split: pyval.splits)

text \<open>What a call of the callback requires and receives.\<close>

lemma request_cancellation_call:
  assumes "request_cancellation cb s1 s2 k = (r, k', calls)" "call \<in> set calls"
  shows "calls = [call]" "\<not> cancel_attempted k" "launch_requested k" "cancel_reason k \<noteq> None" "cancel_attempted k'"
    "cancel_cutoff k' = cancel_cutoff k"
    "\<exists>c. cancel_cutoff k = Some c \<and>
       deadline_monotonic call = nextdown (fsub c (terminal_and_verification_reserve (binding k)))"
    "call_invocation_id call = invocation_id (binding k)" "expected_job_id call = job_id (binding k)"
  using assms
  by (auto simp: request_cancellation_def cancellation_request_cutoff_def Let_def take_sample_sticky
      split: if_splits option.splits)

lemma keeps_sample: "keeps k (take_sample sm k)"
  using take_sample_sticky [of k] by (auto simp: keeps_def take_sample_lost)

lemma keeps_trans: "keeps a b \<Longrightarrow> keeps b c \<Longrightarrow> keeps a c"
  by (auto simp: keeps_def)

lemma keeps_delivery [simp]: "keeps k (x\<lparr>cancel_delivery := d\<rparr>) \<longleftrightarrow> keeps k x"
  by (simp add: keeps_def)

lemma keeps_request:
  assumes "request_cancellation cb s1 s2 k = (r, k', calls)"
  shows "keeps k k'"
proof -
  let ?k1 = "take_sample s1 (k\<lparr>cancel_attempted := True\<rparr>)"
  have "keeps k (k\<lparr>cancel_attempted := True\<rparr>)" by (simp add: keeps_def)
  then have k1: "keeps k ?k1" using keeps_sample keeps_trans by blast
  then have "keeps k (take_sample s2 (?k1\<lparr>cancel_delivery := d\<rparr>))" for d
    using keeps_trans [OF _ keeps_sample] by simp
  then show ?thesis using assms k1
    by (auto simp: request_cancellation_def Let_def split: if_splits option.splits)
qed

lemma keeper_step_keeps: "keeper_step k es k' \<Longrightarrow> keeps k k'"
  by (induction rule: keeper_step.induct)
    (auto intro: keeps_observe keeps_begin keeps_exited keeps_finish keeps_request)

lemma keeper_step_shot:
  "keeper_step k es k' \<Longrightarrow> es \<noteq> [] \<Longrightarrow> \<not> cancel_attempted k \<and> cancel_attempted k' \<and> length es = 1"
proof (induction rule: keeper_step.induct)
  case (step_cancel callback before after k r k' calls)
  then have "hd calls \<in> set calls" by simp
  note c = request_cancellation_call [OF step_cancel.hyps this]
  have "length calls = length [hd calls]" using c(1) by (rule arg_cong)
  then show ?case using c(2,5) by simp
qed auto

section \<open>The contracts the keeper meets\<close>

interpretation keeper_sys: step_system keeper_step keeper_inv
  by unfold_locales (rule keeper_step_inv)

interpretation cancelled: sticky_flag keeper_step keeper_inv "\<lambda>k. cancel_reason k = Some r" for r
  by unfold_locales (auto dest!: keeper_step_keeps simp: keeps_def)

interpretation clock_lost: sticky_flag keeper_step keeper_inv "\<lambda>k. \<not> clock_usable k"
  by unfold_locales (auto dest!: keeper_step_keeps simp: keeps_def)

interpretation started: sticky_flag keeper_step keeper_inv start_decided
  by unfold_locales (auto dest!: keeper_step_keeps simp: keeps_def)

interpretation delivered: single_shot keeper_step keeper_inv cancel_attempted
  by unfold_locales (use keeper_step_keeps keeper_step_shot in \<open>auto simp: keeps_def\<close>)

section \<open>Properties\<close>

text \<open>Every call leaves the whole reserve before a cutoff that is itself within finalization.\<close>

definition call_ok :: "keeper_binding \<Rightarrow> cancel_call \<Rightarrow> bool" where
  "call_ok b call \<longleftrightarrow> expected_job_id call = job_id b \<and> call_invocation_id call = invocation_id b \<and>
     (\<exists>d c f r. deadline_monotonic call = Fin d \<and> finalization_cutoff b = Fin f \<and>
        terminal_and_verification_reserve b = Fin r \<and> d + r < c \<and> c \<le> f)"

lemma request_cancellation_call_ok:
  assumes "keeper_inv k" "request_cancellation cb s1 s2 k = (r, k', calls)" "call \<in> set calls"
  shows "call_ok (binding k) call"
proof -
  note c = request_cancellation_call [OF assms(2,3)]
  obtain c' where cut: "cancel_cutoff k = Some c'"
      "deadline_monotonic call = nextdown (fsub c' (terminal_and_verification_reserve (binding k)))"
    using c(7) by auto
  then have "nnf c'" "fle c' (finalization_cutoff (binding k))"
      "fle (terminal_and_verification_reserve (binding k)) c'" "binding_ok (binding k)"
    using assms(1) by (auto simp: keeper_inv_def keeper_base_def)
  then obtain x f rr where v: "c' = Fin x" "finalization_cutoff (binding k) = Fin f" "x \<le> f"
      "terminal_and_verification_reserve (binding k) = Fin rr" "nnf (Fin x)" "nnf (Fin rr)" "rr \<le> x"
    by (auto simp: binding_ok_def nnf_iff)
  obtain d where "nextdown (fsub (Fin x) (Fin rr)) = Fin d" "d < x - rr"
    using nextdown_fsub [OF v(5,6,7)] by blast
  then show ?thesis using c(8,9) cut v by (auto simp: call_ok_def intro!: exI [of _ x])
qed

lemma keeper_step_call_ok: "keeper_step k es k' \<Longrightarrow> keeper_inv k \<Longrightarrow> list_all (call_ok (binding k)) es"
  by (induction rule: keeper_step.induct) (auto simp: list_all_iff intro: request_cancellation_call_ok)

lemma keeper_run_binding: "run keeper_step k es k' \<Longrightarrow> binding k' = binding k"
  by (induction rule: run.induct) (auto dest!: keeper_step_keeps simp: keeps_def)

lemma keeper_run_call_ok: "run keeper_step k es k' \<Longrightarrow> keeper_inv k \<Longrightarrow> list_all (call_ok (binding k)) es"
proof (induction rule: run.induct)
  case (run_step s es t fs u)
  then show ?case using keeper_run_binding [OF run_step.hyps(1)] keeper_sys.run_inv [OF run_step.hyps(1)]
      keeper_step_call_ok [OF run_step.hyps(2)] by simp
qed simp

lemma reachable_inv: "from_record v = Inr b \<Longrightarrow> run keeper_step (keeper_init b) es k \<Longrightarrow> keeper_inv k"
  using keeper_sys.run_inv keeper_inv_init from_record_ok by blast

lemma finish_result:
  assumes "finish cleanup ob k = (Inr rep, k')"
  obtains verified where "cleanup = PBool verified" "k' = (observe_body ob k)\<lparr>closed := True\<rparr>"
    "rep = finish_report verified k'"
  using assms by (auto simp: finish_def observe_def Let_def split: pyval.splits if_splits)

text \<open>
  C1.  The cancellation callback is the keeper's only external effect.  In every run of method
  calls from a validated binding it is invoked at most once, and the invocation carries the
  bound job and invocation ids and a deadline which, in exact arithmetic, leaves the complete
  Terminal/verification reserve before a cutoff that is not after the finalization cutoff.
\<close>

theorem keeper_callback_once:
  assumes "from_record v = Inr b" "run keeper_step (keeper_init b) calls k"
  shows "length calls \<le> 1 \<and> list_all (call_ok b) calls"
proof -
  have inv: "keeper_inv (keeper_init b)" using assms(1) by (simp add: from_record_ok keeper_inv_init)
  have "binding (keeper_init b) = b" by (simp add: keeper_init_def)
  then show ?thesis using delivered.run_once [OF assms(2) inv] keeper_run_call_ok [OF assms(2) inv] by simp
qed

text \<open>A concrete binding and a concrete cancelled run, for the witnesses.\<close>

definition demo_record :: pyval where
  "demo_record = PDict
     [(''source'', PDict [(''commit'', PStr (replicate 40 CHR ''a'')), (''tree'', PStr (replicate 40 CHR ''b''))]),
      (''runId'', PInt 7), (''runAttempt'', PInt 1),
      (''jobId'', PStr (replicate 32 CHR ''c'')), (''invocationId'', PStr (replicate 32 CHR ''d'')),
      (''bootSession'', PStr ''00000000-0000-0000-0000-000000000001''),
      (''boundAtMonotonic'', PInt 0), (''productCutoffMonotonic'', PInt 100),
      (''finalizationCutoffMonotonic'', PInt 200), (''jobCutoffMonotonic'', PInt 300),
      (''cancellationAllowanceSeconds'', PInt 40), (''terminalAndVerificationReserveSeconds'', PInt 30)]"

definition demo_binding :: keeper_binding where
  "demo_binding = \<lparr>commit = replicate 40 CHR ''a'', tree = replicate 40 CHR ''b'', run_id = 7, run_attempt = 1,
     job_id = replicate 32 CHR ''c'', invocation_id = replicate 32 CHR ''d'',
     boot_session = ''00000000-0000-0000-0000-000000000001'', bound_at = secs 0, product_cutoff = secs 100,
     finalization_cutoff = secs 200, job_cutoff = secs 300, cancellation_allowance = secs 40,
     terminal_and_verification_reserve = secs 30\<rparr>"

lemma secs_simps [simp]:
  "flt (secs a) (secs b) \<longleftrightarrow> a < b" "fle (secs a) (secs b) \<longleftrightarrow> a \<le> b"
  by (simp_all add: secs_def float_unit_def)

lemma finite_value_secs [simp]: "0 \<le> i \<Longrightarrow> i \<le> 2 ^ 53 \<Longrightarrow> finite_value (PInt i) = Inr (secs i)"
  by (simp add: finite_value_def is_number_def to_float_def float_of_int_whole is_finite_def secs_def float_unit_def)

lemma fsub_secs [simp]: "0 \<le> j \<Longrightarrow> j \<le> i \<Longrightarrow> i \<le> 2 ^ 53 \<Longrightarrow> fsub (secs i) (secs j) = secs (i - j)"
  by (simp add: secs_def fsub_whole)

lemma demo_boot: "boot_uuid (PStr ''00000000-0000-0000-0000-000000000001'') = Inr ''00000000-0000-0000-0000-000000000001''"
  by code_simp

lemma demo_from_record: "from_record demo_record = Inr demo_binding"
  by (simp add: from_record_def demo_record_def BINDING_KEYS_def closed_dict_def keys_eq_def py_item_def
      binding_post_init_def object_id_def hexn_def is_hex_def is_digit_def cc_def list_all_iff
      run_number_def audit_id_def demo_boot demo_binding_def)

definition demo_obs :: "int \<Rightarrow> bool \<Rightarrow> observation" where
  "demo_obs t c = \<lparr>o_now = PInt t, o_boot = PStr ''00000000-0000-0000-0000-000000000001'',
     o_facade = PStr ''SAME'', o_explicit_cancel = PBool c\<rparr>"

definition demo_started :: keeper where
  "demo_started = snd (begin_product (demo_obs 1 False) (keeper_init demo_binding))"

definition demo_cancelled :: keeper where
  "demo_cancelled = snd (observe (demo_obs 2 True) demo_started)"

lemmas demo_unfold = demo_obs_def keeper_init_def begin_product_def observe_def observe_body_def
  observe_clock_def Let_def demo_boot latch_def

lemma demo_started_eq: "demo_started = (keeper_init demo_binding)\<lparr>last_now := secs 1, start_decided := True,
    launch_requested := True\<rparr>"
  by (simp add: demo_started_def demo_unfold) (simp add: demo_binding_def)

lemma demo_cancelled_eq: "demo_cancelled = demo_started\<lparr>last_now := secs 2, cancel_reason := Some ''EXPLICIT_CANCEL'',
    cancel_cutoff := Some (fmin (secs 200) (nextdown (fadd (secs 2) (secs 40))))\<rparr>"
  by (simp add: demo_cancelled_def demo_started_eq demo_unfold) (simp add: demo_binding_def)

lemma nnf_secs [simp]: "0 \<le> i \<Longrightarrow> i \<le> 2 ^ 53 \<Longrightarrow> nnf (secs i)"
  by (simp only: secs_def nnf_whole)

lemma demo_cutoff:
  obtains c d where "fmin (secs 200) (nextdown (fadd (secs 2) (secs 40))) = Fin c"
    "nextdown (fsub (Fin c) (secs 30)) = Fin d" "10 * float_unit \<le> d" "41 * float_unit \<le> c"
proof -
  have n: "nnf (Fin (i * float_unit))" if "0 \<le> i" "i \<le> 300" for i
    using that by (intro nnf_whole) auto
  obtain c where c: "nextdown (fadd (secs 2) (secs 40)) = Fin c" "c < 42 * float_unit" "nnf (Fin c)"
      and ge: "\<And>r m. nnf (Fin r) \<Longrightarrow> nnf (Fin m) \<Longrightarrow> r < m \<Longrightarrow> m \<le> 2 * float_unit + 40 * float_unit \<Longrightarrow> r \<le> c"
    using nextdown_fadd [OF n [of 2] n [of 40]] by (auto simp: secs_def float_unit_def)
  have c41: "41 * float_unit \<le> c" using ge [OF n [of 41] n [of 42]] by (simp add: float_unit_def)
  then have "30 * float_unit \<le> c" using float_unit_pos by linarith
  moreover have "nnf (Fin (30 * float_unit))" by (rule n) simp_all
  ultimately obtain d where d: "nextdown (fsub (Fin c) (secs 30)) = Fin d"
      and ged: "\<And>r m. nnf (Fin r) \<Longrightarrow> nnf (Fin m) \<Longrightarrow> r < m \<Longrightarrow> m \<le> c - 30 * float_unit \<Longrightarrow> r \<le> d"
    using c(3) unfolding secs_def by (metis nextdown_fsub)
  have "10 * float_unit \<le> d" using ged [OF n [of 10] n [of 11]] c41 by (simp add: float_unit_def)
  moreover have "c < 200 * float_unit" using c(2) float_unit_pos by linarith
  then have "fmin (secs 200) (Fin c) = Fin c" by (simp add: fmin_def secs_def)
  ultimately show ?thesis using that c d c41 by simp
qed

lemma demo_started_run: "run keeper_step (keeper_init demo_binding) [] demo_started"
  unfolding demo_started_def by (rule run_silent) (rule run_refl, rule step_begin)

lemma demo_run: "run keeper_step (keeper_init demo_binding) [] demo_cancelled"
  unfolding demo_cancelled_def by (rule run_silent) (rule demo_started_run, rule step_observe)

definition demo_sample :: "int \<Rightarrow> sample" where
  "demo_sample t = Sample (PInt t) (PStr ''00000000-0000-0000-0000-000000000001'')"

lemma demo_take_sample:
  assumes "binding x = demo_binding" "clock_usable x" "cancel_reason x = Some r" "last_now x = secs t0"
    "t0 \<le> t" "0 \<le> t" "t \<le> 300"
  shows "take_sample (demo_sample t) x = x\<lparr>last_now := secs t\<rparr>"
proof -
  have "latch y (x\<lparr>last_now := secs t\<rparr>) = x\<lparr>last_now := secs t\<rparr>" for y
    using assms(3) by (intro latch_sticky) simp
  moreover have "boot_session demo_binding = ''00000000-0000-0000-0000-000000000001''" by (simp add: demo_binding_def)
  moreover have "finite_value (PInt t) = Inr (secs t)" using assms by simp
  ultimately show ?thesis using assms
    by (simp add: take_sample_def demo_sample_def observe_clock_def demo_boot Let_def split: option.splits)
qed

definition demo_deliver :: "string res \<times> keeper \<times> cancel_call list" where
  "demo_deliver = request_cancellation (\<lambda>_. CallbackReturned PNone) (demo_sample 3) (demo_sample 4) demo_cancelled"

lemma demo_delivery: obtains call k where "demo_deliver = (Inr ''ACKNOWLEDGED_BY_CALLBACK'', k, [call])"
proof -
  obtain c d where cd: "fmin (secs 200) (nextdown (fadd (secs 2) (secs 40))) = Fin c"
    "nextdown (fsub (Fin c) (secs 30)) = Fin d" "10 * float_unit \<le> d" "41 * float_unit \<le> c" by (rule demo_cutoff)
  let ?k = "demo_cancelled\<lparr>cancel_attempted := True\<rparr>"
  let ?d = "''ACKNOWLEDGED_BY_CALLBACK''"
  have f: "binding demo_cancelled = demo_binding" "clock_usable demo_cancelled" "launch_requested demo_cancelled"
    "cancel_reason demo_cancelled = Some ''EXPLICIT_CANCEL''" "last_now demo_cancelled = secs 2"
    "\<not> closed demo_cancelled" "\<not> cancel_attempted demo_cancelled" "cancel_cutoff demo_cancelled = Some (Fin c)"
    using cd(1) by (simp_all add: demo_cancelled_eq demo_started_eq keeper_init_def)
  have late: "\<not> fle (Fin d) (secs t)" if "t < 10" for t
  proof -
    have "t * float_unit < 10 * float_unit" using that by (simp add: float_unit_def)
    then show ?thesis unfolding secs_def fle_Fin using cd(3) by linarith
  qed
  have s1: "take_sample (demo_sample 3) ?k = ?k\<lparr>last_now := secs 3\<rparr>"
    using demo_take_sample [of ?k "''EXPLICIT_CANCEL''" 2 3] f by simp
  have s2: "take_sample (demo_sample 4) (?k\<lparr>last_now := secs 3, cancel_delivery := ?d\<rparr>)
      = ?k\<lparr>last_now := secs 3, cancel_delivery := ?d, last_now := secs 4\<rparr>"
    using demo_take_sample [of "?k\<lparr>last_now := secs 3, cancel_delivery := ?d\<rparr>" "''EXPLICIT_CANCEL''" 3 4] f by simp
  have "terminal_and_verification_reserve demo_binding = secs 30" by (simp add: demo_binding_def)
  then show ?thesis using that f late [of 3] late [of 4] cd(2)
    by (simp add: demo_deliver_def request_cancellation_def cancellation_request_cutoff_def s1 s2 Let_def)
qed

theorem keeper_callback_once_witness:
  "\<exists>calls k. from_record demo_record = Inr demo_binding \<and>
     run keeper_step (keeper_init demo_binding) calls k \<and> calls \<noteq> [] \<and>
     length calls \<le> 1 \<and> list_all (call_ok demo_binding) calls"
proof -
  obtain call k where "demo_deliver = (Inr ''ACKNOWLEDGED_BY_CALLBACK'', k, [call])" by (rule demo_delivery)
  then have r: "run keeper_step (keeper_init demo_binding) ([] @ [call]) k"
    unfolding demo_deliver_def by (rule run_step [OF demo_run step_cancel])
  then show ?thesis using keeper_callback_once [OF demo_from_record r] demo_from_record
    by (intro exI [of _ "[call]"] exI [of _ k]) auto
qed

text \<open>
  C2.  Cancellation is final: once a reason is latched, no sequence of further method calls
  changes it, and whatever the product returned and whatever cleanup the caller verified, the
  finished keeper reports that first reason and decides the failing exit code 125.
\<close>

theorem keeper_cancellation_final:
  assumes "from_record v = Inr b" "run keeper_step (keeper_init b) es k" "cancel_reason k = Some r"
    "run keeper_step k fs k'" "finish cleanup ob k' = (Inr rep, k'')"
  shows "r_cancellation_reason rep = Some r \<and> r_exit_code_decision rep = 125"
proof -
  have "keeper_inv k" using assms(1,2) by (rule reachable_inv)
  then have "cancel_reason k' = Some r" using cancelled.run_flag [OF assms(4)] assms(3) by blast
  then have "cancel_reason (observe_body ob k') = Some r" by (rule observe_body_sticky)
  moreover obtain verified where "k'' = (observe_body ob k')\<lparr>closed := True\<rparr>" "rep = finish_report verified k''"
    using finish_result [OF assms(5)] .
  ultimately show ?thesis by (simp add: finish_report_def Let_def split: option.splits)
qed

lemma demo_finish:
  "finish (PBool True) (demo_obs 3 False) demo_cancelled =
     (Inr (finish_report True (snd (finish (PBool True) (demo_obs 3 False) demo_cancelled))),
      snd (finish (PBool True) (demo_obs 3 False) demo_cancelled))"
  by (simp add: finish_def observe_def Let_def demo_cancelled_eq demo_started_eq keeper_init_def)

theorem keeper_cancellation_final_witness:
  "cancel_reason demo_cancelled = Some ''EXPLICIT_CANCEL'' \<and>
   r_exit_code_decision (finish_report True (snd (finish (PBool True) (demo_obs 3 False) demo_cancelled))) = 125"
  using keeper_cancellation_final [OF demo_from_record demo_run _ run_refl demo_finish, of "''EXPLICIT_CANCEL''"]
  by (simp add: demo_cancelled_eq)

text \<open>
  C3.  The exit code of a finished keeper is always in \<open>0..255\<close>, and any code other than 125 is
  the product's own exit, reported for a launched product with no cancellation latched, cleanup
  verified by the caller, an unbroken clock and the last reading before the finalization cutoff.
\<close>

theorem keeper_exit_code:
  assumes "from_record v = Inr b" "run keeper_step (keeper_init b) es k"
    "finish cleanup ob k = (Inr rep, k')"
  shows "0 \<le> r_exit_code_decision rep \<and> r_exit_code_decision rep \<le> 255 \<and>
     (r_exit_code_decision rep \<noteq> 125 \<longrightarrow>
        r_product_exit_code rep = Some (r_exit_code_decision rep) \<and> launch_requested k \<and>
        r_cancellation_reason rep = None \<and> cleanup = PBool True \<and> clock_usable k' \<and>
        r_cleanup_observation rep = ''VERIFIED_BY_CALLER'' \<and>
        flt (last_now k') (finalization_cutoff b))"
proof -
  have inv: "keeper_inv k" using assms(1,2) by (rule reachable_inv)
  obtain verified where f: "cleanup = PBool verified" "k' = (observe_body ob k)\<lparr>closed := True\<rparr>"
    "rep = finish_report verified k'" using finish_result [OF assms(3)] .
  have inv': "keeper_inv (observe_body ob k)" using inv by (rule observe_body_inv)
  have "binding k = b" using keeper_run_binding [OF assms(2)] by (simp add: keeper_init_def)
  moreover have "cancel_cutoff k' = None" if "cancel_reason k' = None"
    using inv' that f(2) by (cases "cancel_cutoff (observe_body ob k)") (auto simp: keeper_inv_def keeper_base_def)
  moreover have "launch_requested k" if "product_exit k \<noteq> None"
    using inv that by (simp add: keeper_inv_def keeper_base_def)
  ultimately show ?thesis using f
    by (auto simp: finish_report_def Let_def split: option.splits)
qed

definition demo_exited :: keeper where
  "demo_exited = snd (product_exited (PInt 3) (demo_obs 2 False) demo_started)"

lemma demo_exited_eq: "demo_exited = demo_started\<lparr>last_now := secs 2, product_exit := Some 3\<rparr>"
  by (simp add: demo_exited_def product_exited_def demo_started_eq demo_unfold) (simp add: demo_binding_def)

lemma demo_exited_run: "run keeper_step (keeper_init demo_binding) [] demo_exited"
  unfolding demo_exited_def by (rule run_silent) (rule demo_started_run, rule step_exited)

definition demo_report :: keeper_report where
  "demo_report = finish_report True (demo_exited\<lparr>last_now := secs 3, closed := True\<rparr>)"

lemma demo_exited_finish:
  "finish (PBool True) (demo_obs 3 False) demo_exited = (Inr demo_report, demo_exited\<lparr>last_now := secs 3, closed := True\<rparr>)"
  by (simp add: finish_def demo_report_def demo_exited_eq demo_started_eq demo_unfold) (simp add: demo_binding_def)

theorem keeper_exit_code_witness:
  "r_exit_code_decision demo_report = 3 \<and> r_product_exit_code demo_report = Some 3 \<and>
   r_cleanup_observation demo_report = ''VERIFIED_BY_CALLER''"
proof -
  have "r_exit_code_decision demo_report = 3"
    by (simp add: demo_report_def demo_exited_eq demo_started_eq finish_report_def keeper_init_def Let_def)
      (simp add: demo_binding_def)
  then show ?thesis using keeper_exit_code [OF demo_from_record demo_exited_run demo_exited_finish] by simp
qed

text \<open>
  C4.  The launch decision is single use: when \<open>begin_product\<close> answers \<open>True\<close>, nothing was
  cancelled, the clock was good and its reading was before the product cutoff; and after any
  further method calls every later \<open>begin_product\<close> is refused.
\<close>

theorem keeper_launch_once:
  assumes "from_record v = Inr b" "run keeper_step (keeper_init b) es k"
    "begin_product ob k = (Inr True, k1)" "run keeper_step k1 fs k2"
  shows "launch_requested k1 \<and> cancel_reason k1 = None \<and> clock_usable k1 \<and>
     flt (last_now k1) (product_cutoff b) \<and>
     fst (begin_product ob' k2) = Inl (Refused ''Product launch decision is single-use'')"
proof -
  have inv: "keeper_inv k" using assms(1,2) by (rule reachable_inv)
  then have inv1: "keeper_inv k1" using begin_product_inv [OF inv, of ob] assms(3) by simp
  have nd: "\<not> start_decided k" "\<not> closed k"
    using assms(3) by (auto simp: begin_product_def observe_def split: if_splits)
  then have k1: "k1 = (observe_body ob (k\<lparr>start_decided := True\<rparr>))\<lparr>launch_requested := True\<rparr>"
      "cancel_reason k1 = None"
    using assms(3) by (auto simp: begin_product_def observe_def Let_def)
  have "product_exit k = None" using inv nd by (auto simp: keeper_inv_def keeper_base_def)
  then have "product_exit k1 = None" by (simp add: k1(1))
  moreover have "start_decided k2" using started.run_flag [OF assms(4) inv1] by (simp add: k1(1))
  moreover have "binding k1 = b" using keeper_run_binding [OF assms(2)] by (simp add: k1(1) keeper_init_def)
  ultimately show ?thesis using k1 inv1
    by (auto simp: keeper_inv_def keeper_live_def begin_product_def)
qed

lemma demo_begin: "begin_product (demo_obs 1 False) (keeper_init demo_binding) = (Inr True, demo_started)"
  by (simp add: demo_started_def demo_unfold) (simp add: demo_binding_def)

theorem keeper_launch_once_witness:
  "launch_requested demo_started \<and> flt (last_now demo_started) (product_cutoff demo_binding) \<and>
   fst (begin_product (demo_obs 2 False) demo_started) = Inl (Refused ''Product launch decision is single-use'')"
  using keeper_launch_once [OF demo_from_record run_refl demo_begin run_refl] by blast

text \<open>
  C5.  A lost clock is never repaired: after an unknown, foreign or reversed reading no later
  call sequence delivers the cancellation callback, and the finished keeper reports cleanup as
  unknown and decides exit code 125.
\<close>

lemma lost_no_call: "keeper_step k es k' \<Longrightarrow> \<not> clock_usable k \<Longrightarrow> es = []"
proof (induction rule: keeper_step.induct)
  case (step_cancel callback before after k r k' calls)
  have "\<not> clock_usable (take_sample before (k\<lparr>cancel_attempted := True\<rparr>))"
    using step_cancel.prems by (simp add: take_sample_lost)
  then show ?case using step_cancel.hyps by (auto simp: request_cancellation_def Let_def split: if_splits)
qed auto

lemma lost_run_no_call: "run keeper_step k es k' \<Longrightarrow> keeper_inv k \<Longrightarrow> \<not> clock_usable k \<Longrightarrow> es = []"
proof (induction rule: run.induct)
  case (run_step s es t fs u)
  then show ?case using clock_lost.run_flag [OF run_step.hyps(1)] lost_no_call [OF run_step.hyps(2)] by simp
qed simp

theorem keeper_lost_clock:
  assumes "from_record v = Inr b" "run keeper_step (keeper_init b) es k" "\<not> clock_usable k"
    "run keeper_step k fs k'"
  shows "fs = [] \<and> (\<forall>cleanup ob rep k''. finish cleanup ob k' = (Inr rep, k'') \<longrightarrow>
     r_cleanup_observation rep = ''UNKNOWN'' \<and> r_exit_code_decision rep = 125)"
proof -
  have inv: "keeper_inv k" using assms(1,2) by (rule reachable_inv)
  have "\<not> clock_usable k'" using clock_lost.run_flag [OF assms(4) inv assms(3)] .
  then have "\<not> clock_usable (observe_body ob k')" for ob by (rule observe_body_lost)
  moreover have "fs = []" using lost_run_no_call [OF assms(4) inv assms(3)] .
  ultimately show ?thesis by (auto elim!: finish_result simp: finish_report_def Let_def split: option.splits)
qed

definition demo_lost :: keeper where
  "demo_lost = snd (observe (demo_obs 2 False\<lparr>o_boot := PNone\<rparr>) demo_started)"

theorem keeper_lost_clock_witness:
  "\<not> clock_usable demo_lost \<and>
   (\<exists>rep k''. finish (PBool True) (demo_obs 3 False) demo_lost = (Inr rep, k'') \<and>
      r_cleanup_observation rep = ''UNKNOWN'' \<and> r_exit_code_decision rep = 125)"
proof -
  have r: "run keeper_step (keeper_init demo_binding) [] demo_lost"
    unfolding demo_lost_def by (rule run_silent) (rule demo_started_run, rule step_observe)
  have l: "\<not> clock_usable demo_lost"
    by (simp add: demo_lost_def demo_started_eq observe_def observe_body_def observe_clock_def demo_obs_def
        boot_uuid_def keeper_init_def Let_def)
  have "\<not> closed demo_lost" by (simp add: demo_lost_def demo_started_eq observe_def Let_def keeper_init_def)
  then obtain rep k'' where f: "finish (PBool True) (demo_obs 3 False) demo_lost = (Inr rep, k'')"
    by (simp add: finish_def observe_def Let_def)
  then show ?thesis using keeper_lost_clock [OF demo_from_record r l run_refl] l by blast
qed

end
