(* ===== verification/Job_Clock.thy ===== *)
theory Job_Clock
  imports PyValue
begin

text \<open>
  The same-host elapsed clocks, \<^verbatim>\<open>src/scripts/hosted_job_clock.py\<close>, with the shared Darwin
  reader of \<^verbatim>\<open>src/scripts/hosted_lock_resources.py\<close>.

  The operating system is the record \<open>host_env\<close>: what \<open>sys.platform\<close> says, what
  \<open>audit_processes.host_role()\<close> returns or raises, and what the native clock calls return at
  that moment.  A reading is validated data; \<open>local_deadline\<close> converts an integer fence on the
  shared clock into a local float deadline.  The lemmas show that an accepted elapsed time is the
  exact non-negative difference of two readings of one clock, that the Windows counter is
  converted by an exact floor, and that directed rounding never extends a fence.
\<close>

definition NS :: int where
  "NS = 1000000000"

definition UINT64 :: int where
  "UINT64 = 2 ^ 64 - 1"

definition INT64 :: int where
  "INT64 = 2 ^ 63 - 1"

definition DARWIN_DOMAIN :: string where
  "DARWIN_DOMAIN = ''darwin.clock_gettime_ns(CLOCK_MONOTONIC_RAW)''"

definition LINUX_DOMAIN :: string where
  "LINUX_DOMAIN = ''linux.clock_gettime_ns(CLOCK_MONOTONIC_RAW)''"

definition WINDOWS_DOMAIN :: string where
  "WINDOWS_DOMAIN = ''windows.QueryPerformanceCounter/QueryPerformanceFrequency.floor_ns''"

definition DOMAINS :: "(string \<times> string) list" where
  "DOMAINS = [(''macos-arm64'', DARWIN_DOMAIN), (''macos-x64'', DARWIN_DOMAIN),
     (''linux-x64'', LINUX_DOMAIN), (''windows-x64'', WINDOWS_DOMAIN)]"

section \<open>Identities and readings\<close>

definition clock_integer :: "pyval \<Rightarrow> int \<Rightarrow> int res" where
  "clock_integer v maximum = (case v of
      PInt i \<Rightarrow> req (0 \<le> i \<and> i \<le> maximum) ''JOB_CLOCK_INTEGER'' (Inr i)
    | _ \<Rightarrow> Inl (Refused ''JOB_CLOCK_INTEGER''))"

text \<open>The dataclasses \<open>ClockIdentity\<close> and \<open>Reading\<close>; their fields are unchecked until validated.\<close>

record clock_identity =
  role :: pyval
  domain :: pyval
  ticks_per_second :: pyval

record reading =
  clock :: clock_identity
  nanoseconds :: pyval

definition validate_identity :: "clock_identity \<Rightarrow> clock_identity res" where
  "validate_identity c =
     req (str_and (\<lambda>r. case map_of DOMAINS r of None \<Rightarrow> False | Some d \<Rightarrow> domain c = PStr d) (role c))
       ''JOB_CLOCK_IDENTITY'' (
     andthen (clock_integer (ticks_per_second c) INT64) (\<lambda>frequency.
     req (0 < frequency \<and> (role c = PStr ''windows-x64'' \<or> frequency = NS)) ''JOB_CLOCK_FREQUENCY'' (
     Inr c)))"

definition validate_reading :: "reading \<Rightarrow> reading res" where
  "validate_reading r =
     andthen (validate_identity (clock r)) (\<lambda>_.
     andthen (clock_integer (nanoseconds r) UINT64) (\<lambda>_. Inr r))"

text \<open>\<open>==\<close> of the frozen dataclass compares the fields.\<close>

definition clock_eq :: "clock_identity \<Rightarrow> clock_identity \<Rightarrow> bool" where
  "clock_eq a b \<longleftrightarrow> py_eq (role a) (role b) \<and> py_eq (domain a) (domain b) \<and>
     py_eq (ticks_per_second a) (ticks_per_second b)"

definition elapsed_ns :: "reading \<Rightarrow> reading \<Rightarrow> int res" where
  "elapsed_ns before after =
     andthen (validate_reading before) (\<lambda>_.
     andthen (validate_reading after) (\<lambda>_.
     req (clock_eq (clock before) (clock after)) ''JOB_CLOCK_IDENTITY_CHANGED'' (
     andthen (clock_integer (nanoseconds before) UINT64) (\<lambda>b.
     andthen (clock_integer (nanoseconds after) UINT64) (\<lambda>a.
     req (b \<le> a) ''JOB_CLOCK_BACKWARDS'' (
     Inr (a - b)))))))"

section \<open>Reading the host\<close>

record host_env =
  platform :: string
  host_role :: "pyval res"
  clock_gettime_raw :: "pyval res option"
  windll :: bool
  query_frequency :: "bool \<times> int"
  query_counter :: "bool \<times> int"
  local_monotonic :: "pyval res"

text \<open>\<open>_Qpc.__init__\<close> and \<open>_Qpc.read\<close>: \<open>count * NS // hz\<close> is an integer floor.\<close>

definition qpc_read :: "host_env \<Rightarrow> (int \<times> int) res" where
  "qpc_read h =
     req (platform h = ''win32'' \<and> windll h) ''JOB_CLOCK_QPC_UNAVAILABLE'' (
     req (fst (query_frequency h)) ''JOB_CLOCK_QPC_FREQUENCY_FAILED'' (
     andthen (clock_integer (PInt (snd (query_frequency h))) INT64) (\<lambda>hz.
     req (0 < hz) ''JOB_CLOCK_FREQUENCY'' (
     req (fst (query_counter h)) ''JOB_CLOCK_QPC_READ_FAILED'' (
     andthen (clock_integer (PInt (snd (query_counter h))) INT64) (\<lambda>count.
     andthen (clock_integer (PInt (count * NS div hz)) UINT64) (\<lambda>ns.
     Inr (ns, hz))))))))"

text \<open>\<open>hosted_lock_resources.shared_raw_ns\<close>; its own \<open>ResourceError\<close> is a \<open>ValueError\<close>.\<close>

definition shared_raw_ns :: "host_env \<Rightarrow> pyval res" where
  "shared_raw_ns h =
     (if platform h = ''darwin''
      then case clock_gettime_raw h of
          None \<Rightarrow> Inl ValueError
        | Some r \<Rightarrow> andthen r (\<lambda>v. if int_and (\<lambda>i. 0 \<le> i \<and> i \<le> UINT64) v then Inr v else Inl ValueError)
      else Inl ValueError)"

definition darwin_raw_ns :: "host_env \<Rightarrow> pyval res" where
  "darwin_raw_ns h = req (platform h = ''darwin'') ''JOB_CLOCK_PLATFORM'' (shared_raw_ns h)"

definition observe_value :: "host_env \<Rightarrow> string \<Rightarrow> (pyval \<times> int) res" where
  "observe_value h r =
     (if r = ''macos-arm64'' \<or> r = ''macos-x64''
      then req (platform h = ''darwin'') ''JOB_CLOCK_PLATFORM'' (
           andthen (darwin_raw_ns h) (\<lambda>v. Inr (v, NS)))
      else if r = ''linux-x64''
      then req (platform h = ''linux'') ''JOB_CLOCK_PLATFORM'' (
           case clock_gettime_raw h of
             None \<Rightarrow> Inl (Refused ''JOB_CLOCK_LINUX_RAW_UNAVAILABLE'')
           | Some v \<Rightarrow> andthen v (\<lambda>v. Inr (v, NS)))
      else req (platform h = ''win32'') ''JOB_CLOCK_PLATFORM'' (
           andthen (qpc_read h) (\<lambda>(v, hz). Inr (PInt v, hz))))"

text \<open>A \<open>ClockError\<close> passes; every other exception becomes the fixed reason.\<close>

definition clock_errors :: "'a res \<Rightarrow> 'a res" where
  "clock_errors r = (case r of Inr x \<Rightarrow> Inr x | Inl (Refused code) \<Rightarrow> Inl (Refused code)
     | Inl _ \<Rightarrow> Inl (Refused ''JOB_CLOCK_READ_FAILED''))"

definition observe :: "host_env \<Rightarrow> reading res" where
  "observe h = clock_errors (
     andthen (host_role h) (\<lambda>r.
     req (str_and (\<lambda>s. map_of DOMAINS s \<noteq> None) r) ''JOB_CLOCK_ROLE'' (
     case r of
       PStr s \<Rightarrow>
         andthen (observe_value h s) (\<lambda>(value, frequency).
         validate_reading \<lparr>clock = \<lparr>role = PStr s, domain = PStr (the (map_of DOMAINS s)),
             ticks_per_second = PInt frequency\<rparr>, nanoseconds = value\<rparr>)
     | _ \<Rightarrow> Inl (Refused ''JOB_CLOCK_ROLE''))))"

definition checked_now :: "host_env \<Rightarrow> clock_identity \<Rightarrow> pyval \<Rightarrow> int res" where
  "checked_now h expected minimum_ns =
     andthen (validate_identity expected) (\<lambda>_.
     andthen (clock_integer minimum_ns UINT64) (\<lambda>_.
     andthen (observe h) (\<lambda>actual.
     andthen (elapsed_ns \<lparr>clock = expected, nanoseconds = minimum_ns\<rparr> actual) (\<lambda>_.
     clock_integer (nanoseconds actual) UINT64))))"

text \<open>The local sample: the exact value (for the final comparison) and its float.\<close>

definition local_sample :: "host_env \<Rightarrow> (pyval \<times> pyfloat) res" where
  "local_sample h = (case local_monotonic h of
      Inl _ \<Rightarrow> Inl (Refused ''JOB_CLOCK_LOCAL_SAMPLE'')
    | Inr v \<Rightarrow>
       if is_number v
       then (case to_float v of
               None \<Rightarrow> Inl OverflowError
             | Some f \<Rightarrow> req (is_finite f \<and> fle (Fin 0) f) ''JOB_CLOCK_LOCAL_SAMPLE''
                 (Inr (if is_int v then v else PFloat f, f)))
       else Inl (Refused ''JOB_CLOCK_LOCAL_SAMPLE''))"

definition local_deadline ::
  "host_env \<Rightarrow> clock_identity \<Rightarrow> pyval \<Rightarrow> pyval \<Rightarrow> pyval \<Rightarrow> pyfloat res" where
  "local_deadline h expected fence_ns maximum_seconds minimum_ns =
     andthen (validate_identity expected) (\<lambda>_.
     andthen (clock_integer fence_ns UINT64) (\<lambda>fence.
     andthen (clock_integer minimum_ns UINT64) (\<lambda>_.
     req (is_number maximum_seconds) ''JOB_CLOCK_OPERATION_LIMIT'' (
     case to_float maximum_seconds of
       None \<Rightarrow> Inl (Refused ''JOB_CLOCK_OPERATION_LIMIT'')
     | Some maximum \<Rightarrow>
       req (is_finite maximum \<and> flt (Fin 0) maximum) ''JOB_CLOCK_OPERATION_LIMIT'' (
       andthen (local_sample h) (\<lambda>(local_value, local).
       andthen (checked_now h expected minimum_ns) (\<lambda>now.
       req (now < fence) ''JOB_CLOCK_FENCE_EXPIRED'' (
       case int_truediv (fence - now) NS of
         None \<Rightarrow> Inl OverflowError
       | Some quo \<Rightarrow>
         (let remaining = nextzero quo;
              result = nextdown (fadd local (fmin maximum remaining))
          in req (is_finite result \<and> num_lt local_value (PFloat result)) ''JOB_CLOCK_LOCAL_DEADLINE''
               (Inr result))))))))))"

section \<open>Properties\<close>

lemma clock_integer_ok [ok_iff]: "clock_integer v m = Inr i \<longleftrightarrow> v = PInt i \<and> 0 \<le> i \<and> i \<le> m"
  by (auto simp: clock_integer_def ok_iff split: pyval.splits)

lemma validate_identity_ok:
  "validate_identity c = Inr c' \<longleftrightarrow> c' = c \<and>
     (\<exists>r d f. role c = PStr r \<and> map_of DOMAINS r = Some d \<and> domain c = PStr d \<and> ticks_per_second c = PInt f \<and>
        0 < f \<and> f \<le> INT64 \<and> (r = ''windows-x64'' \<or> f = NS))"
  by (auto simp: validate_identity_def ok_iff str_and_iff split: option.splits)

lemma validate_reading_ok:
  "validate_reading r = Inr r' \<longleftrightarrow> r' = r \<and> validate_identity (clock r) = Inr (clock r) \<and>
     (\<exists>n. nanoseconds r = PInt n \<and> 0 \<le> n \<and> n \<le> UINT64)"
  using validate_identity_ok [of "clock r"] by (auto simp: validate_reading_def ok_iff)

lemma clock_eq_valid:
  "validate_identity a = Inr a \<Longrightarrow> validate_identity b = Inr b \<Longrightarrow> clock_eq a b \<longleftrightarrow> a = b"
  by (cases a; cases b) (auto simp: validate_identity_ok clock_eq_def)

lemma elapsed_ns_ok:
  "elapsed_ns b a = Inr d \<longleftrightarrow>
     (\<exists>m n. nanoseconds b = PInt m \<and> nanoseconds a = PInt n \<and> clock b = clock a \<and>
        validate_identity (clock a) = Inr (clock a) \<and> 0 \<le> m \<and> m \<le> n \<and> n \<le> UINT64 \<and> d = n - m)"
  using clock_eq_valid [of "clock b" "clock a"]
  by (auto simp: elapsed_ns_def ok_iff validate_reading_ok)

lemma checked_now_ok:
  "checked_now h expected (PInt m) = Inr now \<Longrightarrow>
     0 \<le> m \<and> m \<le> now \<and> now \<le> UINT64 \<and> validate_identity expected = Inr expected \<and>
     observe h = Inr \<lparr>clock = expected, nanoseconds = PInt now\<rparr>"
  by (auto simp: checked_now_def ok_iff elapsed_ns_ok intro!: reading.equality)

lemma local_sample_ok: "local_sample h = Inr (v, f) \<Longrightarrow> nnf f"
  by (auto simp: local_sample_def ok_iff split: sum.splits option.splits if_splits intro: to_float_nnf)

text \<open>
  C6.  \<open>local_deadline\<close> never adds time.  In exact arithmetic the returned local deadline is
  strictly less than the allowed number of seconds after the local sample, and strictly less than
  the time remaining to the integer fence on the shared clock; the shared reading it is measured
  from is of the expected clock, not before the caller's minimum and before the fence.
\<close>

theorem local_deadline_within_fence:
  assumes "local_deadline h expected (PInt fence) maximum_seconds (PInt minimum) = Inr result"
  shows "\<exists>now lv l m d.
     observe h = Inr \<lparr>clock = expected, nanoseconds = PInt now\<rparr> \<and> minimum \<le> now \<and> now < fence \<and>
     local_sample h = Inr (lv, Fin l) \<and> to_float maximum_seconds = Some (Fin m) \<and> result = Fin d \<and>
     d < l + m \<and> (d - l) * NS < (fence - now) * float_unit"
proof -
  obtain m lv lf now quo where
    m: "to_float maximum_seconds = Some m" "is_finite m" "flt (Fin 0) m" and
    l: "local_sample h = Inr (lv, lf)" and
    n: "checked_now h expected (PInt minimum) = Inr now" "now < fence" and
    q: "int_truediv (fence - now) NS = Some quo" and
    r: "result = nextdown (fadd lf (fmin m (nextzero quo)))" "is_finite result"
    using assms unfolding local_deadline_def
    by (auto simp: ok_iff Let_def split: option.splits prod.splits)
  obtain l' where l': "lf = Fin l'" "nnf (Fin l')" using local_sample_ok [OF l] by (auto simp: nnf_iff)
  obtain m' where m': "m = Fin m'" "nnf (Fin m')"
    using to_float_nnf [OF m(1,2)] m(3) by (auto simp: nnf_iff fle_def)
  obtain d where d: "result = Fin d" using r(2) by (auto simp: is_finite_def split: pyfloat.splits)
  have "d < l' + m' \<and> (d - l') * NS < (fence - now) * float_unit"
    using directed_sum [of l' m' "fence - now" NS quo d] l' m' q r(1) d n(2) by (simp add: NS_def)
  then show ?thesis using checked_now_ok [OF n(1)] n(2) l l' m m' d by auto
qed

definition demo_host :: host_env where
  "demo_host = \<lparr>platform = ''linux'', host_role = Inr (PStr ''linux-x64''),
     clock_gettime_raw = Some (Inr (PInt 7000000000)), windll = False,
     query_frequency = (False, 0), query_counter = (False, 0), local_monotonic = Inr (PInt 0)\<rparr>"

definition demo_clock :: clock_identity where
  "demo_clock = \<lparr>role = PStr ''linux-x64'', domain = PStr LINUX_DOMAIN, ticks_per_second = PInt NS\<rparr>"

lemma demo_local_deadline:
  "local_deadline demo_host demo_clock (PInt 17000000000) (PInt 5) (PInt 0) = Inr (Fin (prev53 (5 * float_unit)))"
proof -
  have n: "nnf (Fin (i * float_unit))" if "0 \<le> i" "i \<le> 100" for i using that by (intro nnf_whole) auto
  have q: "int_truediv 10000000000 NS = Some (Fin (10 * float_unit))"
    using int_truediv_whole [of 10 NS] by (simp add: NS_def)
  have p4: "4 * float_unit \<le> prev53 (5 * float_unit)"
    using n [of 4] float_unit_pos by (intro prev53_greatest) auto
  have p9: "9 * float_unit \<le> prev53 (10 * float_unit)"
    using n [of 9] float_unit_pos by (intro prev53_greatest) auto
  have m: "fmin (Fin (5 * float_unit)) (Fin (prev53 (10 * float_unit))) = Fin (5 * float_unit)"
    unfolding fmin_def using p9 float_unit_pos by (simp, linarith)
  have a: "fadd (Fin 0) (Fin (5 * float_unit)) = Fin (5 * float_unit)"
    using n [of 5] float_unit_pos by (simp add: round_signed_def round53_exact mk_float_Fin)
  have pos: "0 < prev53 (5 * float_unit)" using p4 float_unit_pos by linarith
  have obs: "checked_now demo_host demo_clock (PInt 0) = Inr 7000000000"
    by (simp add: checked_now_def demo_host_def demo_clock_def observe_def observe_value_def clock_errors_def
        validate_identity_def validate_reading_def elapsed_ns_def clock_eq_def DOMAINS_def clock_integer_def
        UINT64_def INT64_def NS_def num_eq_def num_val_def)
  have loc: "local_sample demo_host = Inr (PInt 0, Fin 0)"
    using float_of_int_whole [of 0] by (simp add: local_sample_def demo_host_def is_number_def to_float_def is_finite_def)
  show ?thesis
    using float_of_int_whole [of 5] q m a pos obs loc float_unit_pos
    by (simp add: local_deadline_def validate_identity_def demo_clock_def DOMAINS_def clock_integer_def UINT64_def
        INT64_def NS_def is_number_def to_float_def is_finite_def Let_def num_lt_def num_val_def)
qed

theorem local_deadline_within_fence_witness:
  "\<exists>now l m d. now < 17000000000 \<and>
     local_deadline demo_host demo_clock (PInt 17000000000) (PInt 5) (PInt 0) = Inr (Fin d) \<and>
     d < l + m \<and> (d - l) * NS < (17000000000 - now) * float_unit"
  using local_deadline_within_fence [OF demo_local_deadline] demo_local_deadline by auto

text \<open>
  C7.  The Windows performance counter is converted without floating point: the accepted
  nanoseconds are the exact floor of ticks times \<open>10 ^ 9\<close> over the frequency, fit 64 bits, and a
  later counter value of the same frequency never gives an earlier time.
\<close>

theorem qpc_floor_exact:
  assumes "qpc_read h = Inr (ns, hz)"
  shows "0 < hz \<and> 0 \<le> ns \<and> ns \<le> UINT64 \<and>
     ns * hz \<le> snd (query_counter h) * NS \<and> snd (query_counter h) * NS < (ns + 1) * hz \<and>
     (\<forall>h' ns'. qpc_read h' = Inr (ns', hz) \<longrightarrow> snd (query_counter h) \<le> snd (query_counter h') \<longrightarrow> ns \<le> ns')"
proof -
  have e: "0 < z \<and> 0 \<le> x \<and> x \<le> UINT64 \<and> x = snd (query_counter k) * NS div z"
    if "qpc_read k = Inr (x, z)" for k x z
    using that by (auto simp: qpc_read_def ok_iff)
  have ns: "0 < hz" "0 \<le> ns" "ns \<le> UINT64" "ns = snd (query_counter h) * NS div hz" using e [OF assms] by auto
  have "ns \<le> ns'" if "qpc_read h' = Inr (ns', hz)" "snd (query_counter h) \<le> snd (query_counter h')" for h' ns'
    using e [OF that(1)] ns that(2) by (simp add: NS_def zdiv_mono1)
  moreover have "ns * hz \<le> snd (query_counter h) * NS"
    using le_div_int_iff [of hz ns "snd (query_counter h) * NS"] ns by simp
  moreover have "snd (query_counter h) * NS < (ns + 1) * hz"
    using div_less_int_iff [of hz "snd (query_counter h) * NS" "ns + 1"] ns by simp
  ultimately show ?thesis using ns by blast
qed

definition demo_windows :: host_env where
  "demo_windows = \<lparr>platform = ''win32'', host_role = Inr (PStr ''windows-x64''), clock_gettime_raw = None,
     windll = True, query_frequency = (True, 3579545), query_counter = (True, 12345678),
     local_monotonic = Inr (PInt 0)\<rparr>"

theorem qpc_floor_exact_witness:
  "qpc_read demo_windows = Inr (3448951752, 3579545) \<and> 3448951752 * 3579545 \<le> 12345678 * NS \<and>
   12345678 * NS < (3448951752 + 1) * 3579545"
proof -
  have r: "qpc_read demo_windows = Inr (3448951752, 3579545)"
    by (simp add: qpc_read_def demo_windows_def clock_integer_def INT64_def UINT64_def NS_def)
  then show ?thesis using qpc_floor_exact [OF r] by (simp add: demo_windows_def)
qed

end
