(* ===== verification/Release_Version.thy ===== *)
theory Release_Version
  imports PyValue "HOL-Library.Product_Lexorder"
begin

text \<open>
  The application version encoding, \<^verbatim>\<open>src/scripts/application_release_version.py\<close>: the version
  grammar, the Android/native/Debian numbers derived from it, and the reader of
  \<^verbatim>\<open>gradle.properties\<close> that finds the one \<open>VERSION_NAME\<close> declaration, Java escapes and line
  continuations included.

  The lemmas show that the Android code is a strictly increasing, injective and bounded encoding
  of accepted versions, and that a properties file is accepted only with exactly one canonical
  declaration line.
\<close>

section \<open>The version grammar\<close>

text \<open>\<open>0|[1-9][0-9]?\<close> and \<open>[1-9][0-9]?\<close>\<close>

definition is_pos99 :: "string \<Rightarrow> bool" where
  "is_pos99 s = (case s of
      [a] \<Rightarrow> is_digit a \<and> a \<noteq> CHR ''0''
    | [a, b] \<Rightarrow> is_digit a \<and> a \<noteq> CHR ''0'' \<and> is_digit b
    | _ \<Rightarrow> False)"

definition is_num99 :: "string \<Rightarrow> bool" where
  "is_num99 s \<longleftrightarrow> s = ''0'' \<or> is_pos99 s"

datatype stage = Alpha | Beta | Rc

datatype suffix = Final | Snapshot | Pre stage string

text \<open>The regular expression \<open>VERSION\<close> with its groups.\<close>

definition match_suffix :: "string \<Rightarrow> suffix option" where
  "match_suffix s =
     (if s = ''SNAPSHOT'' then Some Snapshot
      else if take 5 s = ''alpha'' \<and> is_pos99 (drop 5 s) then Some (Pre Alpha (drop 5 s))
      else if take 4 s = ''beta'' \<and> is_pos99 (drop 4 s) then Some (Pre Beta (drop 4 s))
      else if take 2 s = ''rc'' \<and> is_pos99 (drop 2 s) then Some (Pre Rc (drop 2 s))
      else None)"

definition match_version :: "string \<Rightarrow> (string \<times> string \<times> string \<times> suffix) option" where
  "match_version s =
     (case partition_on CHR ''-'' s of (core, dashed, rest) \<Rightarrow>
        (case split_on CHR ''.'' core of
           [a, b, c] \<Rightarrow>
             if is_num99 a \<and> is_num99 b \<and> is_num99 c
             then if dashed then map_option (\<lambda>x. (a, b, c, x)) (match_suffix rest)
                  else Some (a, b, c, Final)
             else None
         | _ \<Rightarrow> None))"

fun stage_base :: "stage \<Rightarrow> int" where
  "stage_base Alpha = 0"
| "stage_base Beta = 100"
| "stage_base Rc = 200"

fun rank :: "suffix \<Rightarrow> int" where
  "rank Final = 399"
| "rank Snapshot = 0"
| "rank (Pre st n) = stage_base st + int_of_digits n"

record version_record =
  canonicalVersion :: string
  androidVersionCode :: int
  nativeVersion :: string
  debianVersion :: string

definition version_fields :: "pyval \<Rightarrow> version_record res" where
  "version_fields name = (case name of
      PStr s \<Rightarrow>
        (case match_version s of
           None \<Rightarrow> Inl (Refused ''Unsupported canonical VERSION_NAME'')
         | Some (a, b, c, x) \<Rightarrow>
             let major = int_of_digits a; minor = int_of_digits b; patch = int_of_digits c;
                 native = show_int (major + 1) @ ''.'' @ show_int minor @ ''.'' @ show_int (patch * 400 + rank x)
             in Inr \<lparr>canonicalVersion = s,
                     androidVersionCode = 1 + (major * 10000 + minor * 100 + patch) * 400 + rank x,
                     nativeVersion = native, debianVersion = native @ ''-1''\<rparr>)
    | _ \<Rightarrow> Inl (Refused ''Unsupported canonical VERSION_NAME''))"

section \<open>Java properties\<close>

definition escape_char :: "char \<Rightarrow> char" where
  "escape_char c =
     (if c = CHR ''t'' then CHR 0x09 else if c = CHR ''r'' then CHR 0x0D
      else if c = CHR ''n'' then CHR 0x0A else if c = CHR ''f'' then CHR 0x0C else c)"

fun unescape :: "string \<Rightarrow> string res" where
  "unescape [] = Inr []"
| "unescape (c # s) =
     (if c = CHR 0x5C
      then (case s of
          [] \<Rightarrow> Inl (Refused ''Truncated properties escape'')
        | d # t \<Rightarrow>
            if d = CHR ''u''
            then if length (take 4 t) = 4 \<and> list_all is_hexx (take 4 t)
                 then andthen (unescape (drop 4 t)) (\<lambda>r. Inr (utf8_chr (nat_of_hex (take 4 t)) @ r))
                 else Inl (Refused ''Invalid properties Unicode escape'')
            else andthen (unescape t) (\<lambda>r. Inr (escape_char d # r)))
      else andthen (unescape s) (\<lambda>r. Inr (c # r)))"

text \<open>\<open>re.split(r"\r\n|\r|\n", content)\<close>\<close>

fun physical_lines :: "string \<Rightarrow> string list" where
  "physical_lines [] = [[]]"
| "physical_lines (c # s) =
     (if c = CHR 0x0D
      then [] # (case s of [] \<Rightarrow> physical_lines s
                 | d # t \<Rightarrow> if d = CHR 0x0A then physical_lines t else physical_lines s)
      else if c = CHR 0x0A then [] # physical_lines s
      else case physical_lines s of [] \<Rightarrow> [[c]] | l # ls \<Rightarrow> (c # l) # ls)"

definition blank :: "char \<Rightarrow> bool" where
  "blank c \<longleftrightarrow> c = CHR '' '' \<or> c = CHR 0x09 \<or> c = CHR 0x0C"

definition trailing_slashes :: "string \<Rightarrow> nat" where
  "trailing_slashes line = length line - length (strip_right (\<lambda>c. c = CHR 0x5C) line)"

text \<open>The key scan: the number of characters before an unescaped separator.\<close>

fun key_end :: "string \<Rightarrow> nat" where
  "key_end [] = 0"
| "key_end (c # s) =
     (if blank c \<or> c = CHR '':'' \<or> c = CHR ''='' then 0
      else if c = CHR 0x5C then 2 + key_end (drop 1 s)
      else 1 + key_end s)"

definition declared_value :: "string \<Rightarrow> string res" where
  "declared_value after_key =
     (let rest = strip_left blank after_key;
          rest = (case rest of c # t \<Rightarrow> if c = CHR ''='' \<or> c = CHR '':'' then t else rest | [] \<Rightarrow> rest)
      in unescape (strip_left blank rest))"

text \<open>One turn of the loop of \<open>from_properties\<close>; the state is \<open>(values, pending)\<close>.\<close>

definition properties_line :: "string \<Rightarrow> string list \<times> string \<Rightarrow> (string list \<times> string) res" where
  "properties_line physical st =
     (case st of (values, pending) \<Rightarrow>
      let line = pending @ strip_left blank physical in
      if pending = [] \<and> (line = [] \<or> hd line = CHR ''#'' \<or> hd line = CHR ''!'') then Inr (values, pending)
      else if odd (trailing_slashes line) then Inr (values, butlast line)
      else andthen (unescape (take (key_end line) line)) (\<lambda>key.
           if key \<noteq> ''VERSION_NAME'' then Inr (values, [])
           else andthen (declared_value (drop (key_end line) line)) (\<lambda>v. Inr (values @ [v], []))))"

definition from_properties :: "string \<Rightarrow> version_record res" where
  "from_properties content =
     andthen (loop properties_line (physical_lines content) ([], [])) (\<lambda>(values, pending).
       case values of
         [v] \<Rightarrow>
           if pending \<noteq> [] \<or> count_list (physical_lines content) (''VERSION_NAME='' @ v) \<noteq> 1
           then Inl (Refused ''VERSION_NAME must be one canonical repository declaration'')
           else version_fields (PStr v)
       | _ \<Rightarrow> Inl (Refused ''VERSION_NAME must be one canonical repository declaration''))"

text \<open>What \<open>repository_version\<close> sees of the file: \<open>is_file\<close>, \<open>is_symlink\<close>, \<open>stat().st_size\<close> and the
  result of \<open>read_text\<close>.\<close>

record version_file =
  is_regular :: bool
  is_link :: bool
  st_size :: int
  read_text :: "string res"

definition repository_version :: "version_file \<Rightarrow> version_record res" where
  "repository_version path =
     req (\<not> (\<not> is_regular path \<or> is_link path \<or> 65536 < st_size path))
       ''Missing/linked/oversized canonical version file'' (
     andthen (read_text path) from_properties)"

record embedded =
  embedded_schema :: int
  sourceCommit :: string
  embedded_version :: version_record

definition embedded_identity :: "pyval \<Rightarrow> string \<Rightarrow> embedded res" where
  "embedded_identity version source =
     req (hexn 40 source) ''Release application requires an exact source commit'' (
     andthen (version_fields version) (\<lambda>f.
       Inr \<lparr>embedded_schema = 1, sourceCommit = source, embedded_version = f\<rparr>))"

section \<open>The encoding is an order embedding\<close>

text \<open>The components of an accepted version, most significant first.\<close>

definition version_key :: "string \<Rightarrow> (int \<times> int \<times> int \<times> int) option" where
  "version_key s = (case match_version s of None \<Rightarrow> None
     | Some (a, b, c, x) \<Rightarrow> Some (int_of_digits a, int_of_digits b, int_of_digits c, rank x))"

lemma is_digit_val: "is_digit c \<Longrightarrow> 0 \<le> digit_val c \<and> digit_val c \<le> 9"
  by (simp add: is_digit_def digit_val_def)

lemma cc_inj: "cc c = cc d \<longleftrightarrow> c = d"
  by (simp add: cc_def)

lemma digit_val_inj: "digit_val c = digit_val d \<longleftrightarrow> c = d"
  by (simp add: digit_val_def cc_inj)

lemma digit_val_0 [simp]: "digit_val CHR ''0'' = 0"
  by (simp add: digit_val_def cc_def)

lemma nonzero_digit_val:
  assumes "is_digit c" "c \<noteq> CHR ''0''" shows "1 \<le> digit_val c"
  using assms is_digit_val [of c] digit_val_inj [of c "CHR ''0''"] by simp

lemma pos99_cases:
  assumes "is_pos99 s"
  obtains (one) a where "s = [a]" "1 \<le> digit_val a" "digit_val a \<le> 9" "int_of_digits s = digit_val a"
  | (two) a b where "s = [a, b]" "1 \<le> digit_val a" "digit_val a \<le> 9" "0 \<le> digit_val b" "digit_val b \<le> 9"
      "int_of_digits s = 10 * digit_val a + digit_val b"
proof (cases s)
  case Nil
  then show ?thesis using assms by (simp add: is_pos99_def)
next
  case (Cons a t)
  show ?thesis
  proof (cases t)
    case Nil
    with Cons assms have "is_digit a" "a \<noteq> CHR ''0''" by (simp_all add: is_pos99_def)
    then show ?thesis using one [of a] Cons Nil is_digit_val [of a] nonzero_digit_val [of a]
      by (simp add: int_of_digits_def)
  next
    case t: (Cons b u)
    with Cons assms have "is_digit a" "a \<noteq> CHR ''0''" "is_digit b" "u = []"
      by (simp_all add: is_pos99_def split: list.splits)
    then show ?thesis using two [of a b] Cons t is_digit_val [of a] is_digit_val [of b] nonzero_digit_val [of a]
      by (simp add: int_of_digits_def)
  qed
qed

lemma pos99_bounds: "is_pos99 s \<Longrightarrow> 1 \<le> int_of_digits s \<and> int_of_digits s \<le> 99"
  by (erule pos99_cases) auto

lemma num99_bounds: "is_num99 s \<Longrightarrow> 0 \<le> int_of_digits s \<and> int_of_digits s \<le> 99"
proof -
  have "int_of_digits ''0'' = 0" by (simp add: int_of_digits_def)
  then show "is_num99 s \<Longrightarrow> ?thesis" using pos99_bounds [of s] unfolding is_num99_def by fastforce
qed

lemma radix_step:
  fixes x y x' y' n :: int
  assumes "0 \<le> y" "y < n" "0 \<le> y'" "y' < n" "x < x'"
  shows "x * n + y < x' * n + y'"
proof -
  have "(x + 1) * n \<le> x' * n" using assms by (intro mult_right_mono) auto
  with assms show ?thesis by (simp add: distrib_right)
qed

lemma radix_less:
  fixes x y x' y' n :: int
  assumes "0 \<le> y" "y < n" "0 \<le> y'" "y' < n"
  shows "x * n + y < x' * n + y' \<longleftrightarrow> x < x' \<or> x = x' \<and> y < y'"
  using radix_step [OF assms, of x x'] radix_step [OF assms(3,4,1,2), of x' x] by (cases x x' rule: linorder_cases) auto

lemma radix_eq:
  fixes x y x' y' n :: int
  assumes "0 \<le> y" "y < n" "0 \<le> y'" "y' < n"
  shows "x * n + y = x' * n + y' \<longleftrightarrow> x = x' \<and> y = y'"
  using radix_step [OF assms, of x x'] radix_step [OF assms(3,4,1,2), of x' x] by (cases x x' rule: linorder_cases) auto

lemma pos99_inj:
  assumes "is_pos99 s" "is_pos99 t" "int_of_digits s = int_of_digits t" shows "s = t"
  using assms(1)
proof (cases rule: pos99_cases)
  case (one a)
  show ?thesis using assms(2)
    by (cases rule: pos99_cases) (use one assms(3) in \<open>simp_all add: digit_val_inj\<close>)
next
  case (two a b)
  show ?thesis using assms(2)
  proof (cases rule: pos99_cases)
    case (one c)
    then show ?thesis using two assms(3) by linarith
  next
    case t: (two c d)
    then show ?thesis using two assms(3) radix_eq [of "digit_val b" 10 "digit_val d" "digit_val a" "digit_val c"]
      by (simp add: digit_val_inj mult.commute)
  qed
qed

lemma num99_inj:
  assumes "is_num99 s" "is_num99 t" "int_of_digits s = int_of_digits t" shows "s = t"
proof -
  have "int_of_digits ''0'' = 0" by (simp add: int_of_digits_def)
  then show ?thesis
    using assms pos99_inj [of s t] pos99_bounds [of s] pos99_bounds [of t] unfolding is_num99_def by force
qed

section \<open>The matcher\<close>

lemma split_on_join: "split_on c s = p # ps \<Longrightarrow> s = p @ concat (map (\<lambda>q. c # q) ps)"
proof (induction s arbitrary: p ps)
  case (Cons x s)
  obtain q qs where q: "split_on c s = q # qs" by (cases "split_on c s") auto
  with Cons.IH have "s = q @ concat (map (\<lambda>q. c # q) qs)" by blast
  with Cons.prems q show ?case by (cases "x = c") simp_all
qed simp

lemma partition_on_join: "partition_on c s = (h, b, t) \<Longrightarrow> s = h @ (if b then c # t else []) \<and> (b \<or> t = [])"
  by (induction s arbitrary: h) (auto split: if_splits prod.splits)

fun suffix_text :: "suffix \<Rightarrow> string" where
  "suffix_text Final = []"
| "suffix_text Snapshot = ''-SNAPSHOT''"
| "suffix_text (Pre Alpha n) = ''-alpha'' @ n"
| "suffix_text (Pre Beta n) = ''-beta'' @ n"
| "suffix_text (Pre Rc n) = ''-rc'' @ n"

fun suffix_ok :: "suffix \<Rightarrow> bool" where
  "suffix_ok (Pre st n) = is_pos99 n"
| "suffix_ok _ = True"

lemma match_suffix_text:
  assumes "match_suffix s = Some x" shows "CHR ''-'' # s = suffix_text x \<and> suffix_ok x \<and> x \<noteq> Final"
proof -
  have t: "take n s = p \<Longrightarrow> p @ drop n s = s" for n p by (metis append_take_drop_id)
  show ?thesis using assms t [of 5 "''alpha''"] t [of 4 "''beta''"] t [of 2 "''rc''"]
    unfolding match_suffix_def by (force split: if_splits)
qed

lemma match_version_text:
  assumes "match_version s = Some (a, b, c, x)"
  shows "s = a @ ''.'' @ b @ ''.'' @ c @ suffix_text x" "is_num99 a" "is_num99 b" "is_num99 c" "suffix_ok x"
  using assms
  by (auto simp: match_version_def split: prod.splits list.splits if_splits
      dest!: split_on_join partition_on_join match_suffix_text)

lemma rank_bounds: "suffix_ok x \<Longrightarrow> 0 \<le> rank x \<and> rank x \<le> 399"
proof (cases x)
  case (Pre st n)
  then show "suffix_ok x \<Longrightarrow> ?thesis" using pos99_bounds [of n] by (cases st) auto
qed auto

lemma rank_inj:
  assumes "suffix_ok x" "suffix_ok y" "rank x = rank y" shows "x = y"
proof (cases x)
  case (Pre st n)
  show ?thesis
  proof (cases y)
    case y: (Pre st' m)
    have "st = st' \<and> int_of_digits n = int_of_digits m"
      using Pre y assms pos99_bounds [of n] pos99_bounds [of m] by (cases st; cases st') auto
    then show ?thesis using Pre y assms pos99_inj by auto
  qed (use Pre assms pos99_bounds [of n] in \<open>cases st; auto\<close>)+
next
  case Final
  show ?thesis
  proof (cases y)
    case (Pre st' m)
    then show ?thesis using Final assms pos99_bounds [of m] by (cases st') auto
  qed (use Final assms in auto)
next
  case Snapshot
  show ?thesis
  proof (cases y)
    case (Pre st' m)
    then show ?thesis using Snapshot assms pos99_bounds [of m] by (cases st') auto
  qed (use Snapshot assms in auto)
qed

text \<open>Two accepted versions with the same components are the same string.\<close>

lemma version_key_inj:
  assumes "version_key s = Some k" "version_key t = Some k" shows "s = t"
proof -
  obtain a b c x where s: "match_version s = Some (a, b, c, x)"
    "k = (int_of_digits a, int_of_digits b, int_of_digits c, rank x)"
    using assms(1) by (auto simp: version_key_def split: option.splits)
  obtain a' b' c' x' where t: "match_version t = Some (a', b', c', x')"
    "k = (int_of_digits a', int_of_digits b', int_of_digits c', rank x')"
    using assms(2) by (auto simp: version_key_def split: option.splits)
  note S = match_version_text [OF s(1)] and T = match_version_text [OF t(1)]
  have "a = a'" "b = b'" "c = c'" "x = x'"
    using s(2) t(2) S T num99_inj rank_inj by auto
  with S(1) T(1) show ?thesis by simp
qed

definition code_of_key :: "int \<times> int \<times> int \<times> int \<Rightarrow> int" where
  "code_of_key k = (case k of (a, b, c, r) \<Rightarrow> 1 + (a * 10000 + b * 100 + c) * 400 + r)"

definition key_ok :: "int \<times> int \<times> int \<times> int \<Rightarrow> bool" where
  "key_ok k = (case k of (a, b, c, r) \<Rightarrow>
     0 \<le> a \<and> a \<le> 99 \<and> 0 \<le> b \<and> b \<le> 99 \<and> 0 \<le> c \<and> c \<le> 99 \<and> 0 \<le> r \<and> r \<le> 399)"

lemma version_key_ok: "version_key s = Some k \<Longrightarrow> key_ok k"
proof -
  assume "version_key s = Some k"
  then obtain a b c x where s: "match_version s = Some (a, b, c, x)"
    "k = (int_of_digits a, int_of_digits b, int_of_digits c, rank x)"
    by (auto simp: version_key_def split: option.splits)
  then show ?thesis
    using match_version_text [OF s(1)] num99_bounds [of a] num99_bounds [of b] num99_bounds [of c] rank_bounds [of x]
    by (simp add: key_ok_def)
qed

lemma code_of_key_less:
  assumes "key_ok k" "key_ok l"
  shows "code_of_key k < code_of_key l \<longleftrightarrow> k < l"
proof -
  obtain a b c r where k: "k = (a, b, c, r)" by (cases k)
  obtain a' b' c' r' where l: "l = (a', b', c', r')" by (cases l)
  have e: "code_of_key (a, b, c, r) = 1 + (((a * 100 + b) * 100 + c) * 400 + r)" for a b c r
    by (simp add: code_of_key_def)
  have r: "0 \<le> r" "r < 400" "0 \<le> r'" "r' < 400" and c: "0 \<le> c" "c < 100" "0 \<le> c'" "c' < 100"
    and b: "0 \<le> b" "b < 100" "0 \<le> b'" "b' < 100"
    using assms by (auto simp: k l key_ok_def)
  show ?thesis
    unfolding k l e add_less_cancel_left radix_less [OF r] radix_less [OF c] radix_less [OF b]
      radix_eq [OF c] radix_eq [OF b] by (auto simp: le_less)
qed

lemma code_of_key_bounds: "key_ok k \<Longrightarrow> 1 \<le> code_of_key k \<and> code_of_key k \<le> 400000000"
  by (auto simp: code_of_key_def key_ok_def)

lemma version_fields_ok:
  "version_fields (PStr s) = Inr v \<longleftrightarrow> (\<exists>a b c r. version_key s = Some (a, b, c, r)
     \<and> v = \<lparr>canonicalVersion = s, androidVersionCode = code_of_key (a, b, c, r),
            nativeVersion = show_int (a + 1) @ ''.'' @ show_int b @ ''.'' @ show_int (c * 400 + r),
            debianVersion = (show_int (a + 1) @ ''.'' @ show_int b @ ''.'' @ show_int (c * 400 + r)) @ ''-1''\<rparr>)"
  by (auto simp: version_fields_def version_key_def code_of_key_def Let_def split: option.splits)

section \<open>The properties file\<close>

lemma from_properties_ok:
  assumes "from_properties content = Inr r"
  obtains v pre post where "version_fields (PStr v) = Inr r"
    "physical_lines content = pre @ (''VERSION_NAME='' @ v) # post"
    "''VERSION_NAME='' @ v \<notin> set (pre @ post)"
    "loop properties_line (physical_lines content) ([], []) = Inr ([v], [])"
proof -
  from assms obtain vs pending where l: "loop properties_line (physical_lines content) ([], []) = Inr (vs, pending)"
    unfolding from_properties_def by (auto simp only: ok_iff)
  have "\<exists>v. vs = [v]" using assms l
    by (cases vs; cases "tl vs") (simp_all add: from_properties_def)
  then obtain v where vs: "vs = [v]" by blast
  have v: "loop properties_line (physical_lines content) ([], []) = Inr ([v], [])"
    "count_list (physical_lines content) (''VERSION_NAME='' @ v) = 1" "version_fields (PStr v) = Inr r"
    using assms l unfolding vs from_properties_def by (simp_all split: if_splits)
  then have "''VERSION_NAME='' @ v \<in> set (physical_lines content)"
    by (metis count_list_0_iff zero_neq_one)
  then obtain pre post where p: "physical_lines content = pre @ (''VERSION_NAME='' @ v) # post"
    by (meson split_list)
  with v(2) have "count_list pre (''VERSION_NAME='' @ v) = 0 \<and> count_list post (''VERSION_NAME='' @ v) = 0" by simp
  then have "''VERSION_NAME='' @ v \<notin> set (pre @ post)" by (simp add: count_list_0_iff)
  with v p that show ?thesis by blast
qed

text \<open>A line that the reader takes as a complete declaration of \<open>VERSION_NAME\<close>, in whatever Java
  spelling: escapes in the key, \<open>:\<close> or blanks as the separator.\<close>

definition declares :: "string \<Rightarrow> bool" where
  "declares line \<longleftrightarrow> unescape (take (key_end line) line) = Inr ''VERSION_NAME''"

text \<open>The logical lines of the file: continuations joined, comments and blank lines left out.\<close>

fun logical_lines :: "string list \<Rightarrow> string \<Rightarrow> string list" where
  "logical_lines [] pending = []"
| "logical_lines (p # ps) pending =
     (let line = pending @ strip_left blank p in
      if pending = [] \<and> (line = [] \<or> hd line = CHR ''#'' \<or> hd line = CHR ''!'') then logical_lines ps pending
      else if odd (trailing_slashes line) then logical_lines ps (butlast line)
      else line # logical_lines ps [])"

lemma loop_logical:
  "loop properties_line ps (vs, pending) = Inr (ws, p') \<Longrightarrow>
     length ws = length vs + length (filter declares (logical_lines ps pending))"
proof (induction ps arbitrary: vs pending)
  case (Cons p ps)
  then show ?case
    by (auto simp: ok_iff properties_line_def Let_def declares_def split: if_splits)
qed simp

section \<open>Properties\<close>

text \<open>C8. The Android version code orders accepted versions exactly as their components (major,
  minor, patch, then snapshot < alpha < beta < rc < final) do, distinct accepted names never share
  a code, and every code lies in 1..400000000, so it fits a signed 32-bit integer.\<close>

theorem android_code_order:
  assumes "version_fields (PStr s) = Inr v" "version_fields (PStr t) = Inr w"
    "version_key s = Some k" "version_key t = Some l"
  shows "(androidVersionCode v < androidVersionCode w \<longleftrightarrow> k < l)
    \<and> (androidVersionCode v = androidVersionCode w \<longleftrightarrow> s = t)
    \<and> 1 \<le> androidVersionCode v \<and> androidVersionCode v \<le> 400000000"
proof -
  have v: "androidVersionCode v = code_of_key k" and w: "androidVersionCode w = code_of_key l"
    using assms by (auto simp: version_fields_ok)
  have ok: "key_ok k" "key_ok l" using assms version_key_ok by blast+
  have "code_of_key k = code_of_key l \<longleftrightarrow> k = l"
    using code_of_key_less [OF ok] code_of_key_less [OF ok(2,1)] by (cases k l rule: linorder_cases) auto
  moreover have "k = l \<longleftrightarrow> s = t" using assms(3,4) version_key_inj [of s k t] by auto
  ultimately show ?thesis
    using code_of_key_less [OF ok] code_of_key_bounds [OF ok(1)] unfolding v w by blast
qed

theorem android_code_order_witness:
  "\<exists>v w. version_fields (PStr ''0.1.0-rc2'') = Inr v \<and> version_fields (PStr ''0.1.0'') = Inr w
     \<and> androidVersionCode v < androidVersionCode w \<and> androidVersionCode v = 40203"
proof -
  obtain v where v: "version_fields (PStr ''0.1.0-rc2'') = Inr v" "androidVersionCode v = 40203"
    by (simp add: version_fields_def match_version_def match_suffix_def is_num99_def is_pos99_def
        is_digit_def cc_def int_of_digits_def digit_val_def Let_def)
  obtain w where w: "version_fields (PStr ''0.1.0'') = Inr w"
    by (simp add: version_fields_def match_version_def match_suffix_def is_num99_def is_pos99_def
        is_digit_def cc_def int_of_digits_def digit_val_def Let_def)
  have k: "version_key ''0.1.0-rc2'' = Some (0, 1, 0, 202)" "version_key ''0.1.0'' = Some (0, 1, 0, 399)"
    by (simp_all add: version_key_def match_version_def match_suffix_def is_num99_def is_pos99_def
        is_digit_def cc_def int_of_digits_def digit_val_def)
  show ?thesis using android_code_order [OF v(1) w k] v w by auto
qed

text \<open>C9. When a properties file is accepted, exactly one of its logical lines declares
  \<open>VERSION_NAME\<close> in any Java spelling (escaped key, other separators, continuation lines), exactly
  one physical line is the canonical \<open>VERSION_NAME=v\<close>, and the result is the encoding of that \<open>v\<close>,
  which is an accepted version name.\<close>

theorem from_properties_unique:
  assumes "from_properties content = Inr r"
  shows "\<exists>v. physical_lines content \<noteq> [] \<and> count_list (physical_lines content) (''VERSION_NAME='' @ v) = 1
    \<and> length (filter declares (logical_lines (physical_lines content) [])) = 1
    \<and> canonicalVersion r = v \<and> version_fields (PStr v) = Inr r"
proof -
  obtain v pre post where v: "version_fields (PStr v) = Inr r"
    "physical_lines content = pre @ (''VERSION_NAME='' @ v) # post"
    "''VERSION_NAME='' @ v \<notin> set (pre @ post)"
    "loop properties_line (physical_lines content) ([], []) = Inr ([v], [])"
    using assms by (rule from_properties_ok)
  have "count_list (physical_lines content) (''VERSION_NAME='' @ v) = 1"
    using v(2,3) by (simp add: count_notin)
  moreover have "length (filter declares (logical_lines (physical_lines content) [])) = 1"
    using loop_logical [OF v(4)] by simp
  moreover have "canonicalVersion r = v" using v(1) by (auto simp: version_fields_ok)
  ultimately show ?thesis using v by auto
qed

theorem from_properties_unique_witness:
  "\<exists>r. from_properties (''# x'' @ [CHR 0x0A] @ ''a=1'' @ [CHR 0x0A] @ ''VERSION_NAME=1.2.3'' @ [CHR 0x0A]) = Inr r
     \<and> length (filter declares (logical_lines
          (physical_lines (''# x'' @ [CHR 0x0A] @ ''a=1'' @ [CHR 0x0A] @ ''VERSION_NAME=1.2.3'' @ [CHR 0x0A])) [])) = 1"
proof -
  obtain r where r: "from_properties (''# x'' @ [CHR 0x0A] @ ''a=1'' @ [CHR 0x0A] @ ''VERSION_NAME=1.2.3'' @ [CHR 0x0A]) = Inr r"
  proof -
    have "\<not> isl (from_properties (''# x'' @ [CHR 0x0A] @ ''a=1'' @ [CHR 0x0A] @ ''VERSION_NAME=1.2.3'' @ [CHR 0x0A]))"
      by code_simp
    with that show ?thesis by (auto simp only: returns_iff [symmetric])
  qed
  then show ?thesis using from_properties_unique [OF r] by blast
qed

end
