(* ===== verification/PyJson.thy ===== *)
theory PyJson
  imports PyValue "HOL-Library.Char_ord" "HOL-Library.List_Lexorder"
begin

text \<open>
  Python's \<open>json\<close> codec as the scripts call it, and the text codecs below it.

  \<^item> \<open>utf8_points\<close>, \<open>decode_*\<close>: \<open>bytes.decode\<close>; a decoded \<open>str\<close> is again its UTF-8 bytes.
  \<^item> \<open>json_dumps\<close>: \<open>json.dumps(v, sort_keys=True, separators=(",", ":"), ensure_ascii=True,
    allow_nan=False)\<close>, with the 4300-digit limit of integer conversions.
  \<^item> \<open>json_loads\<close>: \<open>json.loads\<close> on a \<open>str\<close>, \<open>json_loads_bytes\<close> on \<open>bytes\<close> with the detection of the
    encoding; the hooks are \<open>object_pairs_hook\<close> and \<open>parse_constant\<close>.  Every syntax or encoding
    error is \<open>ValueError\<close>, the digit limit of \<open>int\<close> is \<open>DigitLimit\<close>.  The interpreter's recursion limit is not modelled: the
    recursion is bounded by twice the length of the input (\<open>jvalue_fuel\<close> shows that this is enough).

  The main facts: what is written is read back (\<open>json_roundtrip\<close>), a document that re-encodes to
  itself determines its value (\<open>json_dumps_inj\<close>), and the reader never runs out of fuel.
\<close>

section \<open>Text codecs\<close>

definition cont :: "char \<Rightarrow> bool" where
  "cont c \<longleftrightarrow> 128 \<le> cc c \<and> cc c < 192"

definition surrogate :: "nat \<Rightarrow> bool" where
  "surrogate n \<longleftrightarrow> 55296 \<le> n \<and> n < 57344"

text \<open>The code points of a UTF-8 string; the flag admits surrogates (\<open>'surrogatepass'\<close>).\<close>

fun utf8_points :: "bool \<Rightarrow> string \<Rightarrow> nat list option" where
  "utf8_points sp [] = Some []"
| "utf8_points sp (a # s) =
     (if cc a < 128 then map_option ((#) (cc a)) (utf8_points sp s)
      else if cc a < 194 then None
      else if cc a < 224 then
        (case s of
           b # t \<Rightarrow>
             if cont b then map_option ((#) ((cc a - 192) * 64 + (cc b - 128))) (utf8_points sp t) else None
         | [] \<Rightarrow> None)
      else if cc a < 240 then
        (case s of
           b # c # t \<Rightarrow>
             if cont b \<and> cont c \<and> 2048 \<le> (cc a - 224) * 4096 + (cc b - 128) * 64 + (cc c - 128)
               \<and> (sp \<or> \<not> surrogate ((cc a - 224) * 4096 + (cc b - 128) * 64 + (cc c - 128)))
             then map_option ((#) ((cc a - 224) * 4096 + (cc b - 128) * 64 + (cc c - 128))) (utf8_points sp t)
             else None
         | _ \<Rightarrow> None)
      else if cc a < 245 then
        (case s of
           b # c # d # t \<Rightarrow>
             if cont b \<and> cont c \<and> cont d
               \<and> 65536 \<le> (cc a - 240) * 262144 + (cc b - 128) * 4096 + (cc c - 128) * 64 + (cc d - 128)
               \<and> (cc a - 240) * 262144 + (cc b - 128) * 4096 + (cc c - 128) * 64 + (cc d - 128) < 1114112
             then map_option ((#) ((cc a - 240) * 262144 + (cc b - 128) * 4096 + (cc c - 128) * 64 + (cc d - 128)))
               (utf8_points sp t)
             else None
         | _ \<Rightarrow> None)
      else None)"

definition utf8_of_points :: "nat list \<Rightarrow> string" where
  "utf8_of_points ns = concat (map utf8_chr ns)"

text \<open>\<open>raw.decode("utf-8")\<close>, \<open>raw.decode("ascii")\<close> and \<open>raw.decode("utf-8-sig")\<close>, strict\<close>

definition decode_utf8 :: "string \<Rightarrow> string res" where
  "decode_utf8 s = (if utf8_points False s = None then Inl ValueError else Inr s)"

definition decode_ascii :: "string \<Rightarrow> string res" where
  "decode_ascii s = (if list_all (\<lambda>c. cc c < 128) s then Inr s else Inl ValueError)"

definition BOM_UTF8 :: string where
  "BOM_UTF8 = [CHR 0xEF, CHR 0xBB, CHR 0xBF]"

definition decode_utf8_sig :: "string \<Rightarrow> string res" where
  "decode_utf8_sig s = decode_utf8 (if take 3 s = BOM_UTF8 then drop 3 s else s)"

text \<open>Code units of two and four bytes, most significant first after \<open>rev\<close> where needed.\<close>

fun units :: "nat \<Rightarrow> bool \<Rightarrow> string \<Rightarrow> nat list option" where
  "units w big s =
     (if s = [] \<or> w = 0 then Some []
      else if length s < w then None
      else map_option ((#) (foldl (\<lambda>a c. 256 * a + cc c) 0 (if big then take w s else rev (take w s))))
        (units w big (drop w s)))"

declare units.simps [simp del]

text \<open>UTF-16 and UTF-32 with \<open>'surrogatepass'\<close>.\<close>

fun utf16_points :: "nat list \<Rightarrow> nat list" where
  "utf16_points (a # b # r) =
     (if 55296 \<le> a \<and> a < 56320 \<and> 56320 \<le> b \<and> b < 57344
      then (65536 + (a - 55296) * 1024 + (b - 56320)) # utf16_points r
      else a # utf16_points (b # r))"
| "utf16_points r = r"

definition decode_utf16 :: "bool \<Rightarrow> string \<Rightarrow> string res" where
  "decode_utf16 big s = (case units 2 big s of None \<Rightarrow> Inl ValueError
     | Some us \<Rightarrow> Inr (utf8_of_points (utf16_points us)))"

definition decode_utf32 :: "bool \<Rightarrow> string \<Rightarrow> string res" where
  "decode_utf32 big s = (case units 4 big s of None \<Rightarrow> Inl ValueError
     | Some us \<Rightarrow> if list_all (\<lambda>n. n < 1114112) us then Inr (utf8_of_points us) else Inl ValueError)"

text \<open>\<open>s.decode(json.detect_encoding(s), 'surrogatepass')\<close>\<close>

definition json_decode :: "string \<Rightarrow> string res" where
  "json_decode b =
     (let byte_at = (\<lambda>i. if i < length b then cc (b ! i) else 0);
          utf8 = (\<lambda>s. if utf8_points True s = None then Inl ValueError else Inr s) in
      if take 4 b = [CHR 0x00, CHR 0x00, CHR 0xFE, CHR 0xFF] then decode_utf32 True (drop 4 b)
      else if take 4 b = [CHR 0xFF, CHR 0xFE, CHR 0x00, CHR 0x00] then decode_utf32 False (drop 4 b)
      else if take 2 b = [CHR 0xFE, CHR 0xFF] then decode_utf16 True (drop 2 b)
      else if take 2 b = [CHR 0xFF, CHR 0xFE] then decode_utf16 False (drop 2 b)
      else if take 3 b = BOM_UTF8 then utf8 (drop 3 b)
      else if 4 \<le> length b \<and> byte_at 0 = 0 then (if byte_at 1 \<noteq> 0 then decode_utf16 True b else decode_utf32 True b)
      else if 4 \<le> length b \<and> byte_at 1 = 0 then
        (if byte_at 2 \<noteq> 0 \<or> byte_at 3 \<noteq> 0 then decode_utf16 False b else decode_utf32 False b)
      else if length b = 2 \<and> byte_at 0 = 0 then decode_utf16 True b
      else if length b = 2 \<and> byte_at 1 = 0 then decode_utf16 False b
      else utf8 b)"

section \<open>Decimal floats\<close>

text \<open>The float nearest to \<open>(-1) ^ neg * m * 10 ^ e\<close>.\<close>

definition decimal_float :: "bool \<Rightarrow> int \<Rightarrow> int \<Rightarrow> pyfloat" where
  "decimal_float neg m e =
     (let x = round53 (m * 10 ^ nat e * float_unit) (10 ^ nat (- e))
      in mk_float (if neg then - x else x))"

text \<open>The number of decimal digits before the point of \<open>n\<close> units (non-positive below 0.1).\<close>

definition decimal_point :: "int \<Rightarrow> int" where
  "decimal_point n = int (length (show_int (n * 10 ^ 400 div float_unit))) - 400"

text \<open>With \<open>p\<close> digits: the readings of the truncation and its successor that give \<open>n\<close> back, the
  nearer first.\<close>

definition decimal_tries :: "int \<Rightarrow> nat \<Rightarrow> int list" where
  "decimal_tries n p =
     (let k = decimal_point n - int p;
          num = n * 10 ^ nat (- k); den = float_unit * 10 ^ nat k;
          lo = num div den;
          order = (if 2 * (num - lo * den) < den \<or> 2 * (num - lo * den) = den \<and> even lo
                   then [lo, lo + 1] else [lo + 1, lo])
      in filter (\<lambda>m. decimal_float False m k = Fin n) order)"

fun shortest :: "int \<Rightarrow> nat list \<Rightarrow> (int \<times> nat) option" where
  "shortest n [] = None"
| "shortest n (p # ps) = (case decimal_tries n p of m # _ \<Rightarrow> Some (m, p) | [] \<Rightarrow> shortest n ps)"

definition pad_exp :: "int \<Rightarrow> string" where
  "pad_exp e = (if e < 0 then ''-'' else ''+'') @ (let d = show_int \<bar>e\<bar> in if length d < 2 then CHR ''0'' # d else d)"

text \<open>\<open>repr(f)\<close> of a finite non-negative float of \<open>n\<close> units: the digits of the shortest decimal that
  reads back, in fixed notation for exponents in \<open>-4..15\<close>.\<close>

definition repr_units :: "int \<Rightarrow> string" where
  "repr_units n =
     (if n = 0 then ''0.0'' else
      case shortest n [1..<18] of
        None \<Rightarrow> []
      | Some (m, p) \<Rightarrow>
          let raw = show_int m;
              decpt = decimal_point n + int (length raw) - int p;
              ds = strip_right (\<lambda>c. c = CHR ''0'') raw in
          if -4 < decpt \<and> decpt \<le> 16
          then if decpt \<le> 0 then ''0.'' @ replicate (nat (- decpt)) (CHR ''0'') @ ds
               else if int (length ds) \<le> decpt then ds @ replicate (nat decpt - length ds) (CHR ''0'') @ ''.0''
               else take (nat decpt) ds @ ''.'' @ drop (nat decpt) ds
          else (case ds of [] \<Rightarrow> [] | d # r \<Rightarrow> d # (if r = [] then [] else CHR ''.'' # r) @ ''e'' @ pad_exp (decpt - 1)))"

definition float_repr :: "pyfloat \<Rightarrow> string res" where
  "float_repr f = (case f of
      Fin n \<Rightarrow> Inr (if n < 0 then CHR ''-'' # repr_units (- n) else repr_units n)
    | _ \<Rightarrow> Inl ValueError)"

section \<open>Writing\<close>

definition hex_digit :: "nat \<Rightarrow> char" where
  "hex_digit n = char_of (if n < 10 then 48 + n else 87 + n)"

definition hex4 :: "nat \<Rightarrow> string" where
  "hex4 n = [hex_digit (n div 4096 mod 16), hex_digit (n div 256 mod 16), hex_digit (n div 16 mod 16), hex_digit (n mod 16)]"

definition u_escape :: "nat \<Rightarrow> string" where
  "u_escape n = CHR 0x5C # CHR ''u'' # hex4 n"

text \<open>\<open>py_encode_basestring_ascii\<close> on one code point\<close>

definition escape_point :: "nat \<Rightarrow> string" where
  "escape_point n =
     (if n = 34 then [CHR 0x5C, CHR 0x22]
      else if n = 92 then [CHR 0x5C, CHR 0x5C]
      else if n = 10 then [CHR 0x5C, CHR ''n'']
      else if n = 13 then [CHR 0x5C, CHR ''r'']
      else if n = 9 then [CHR 0x5C, CHR ''t'']
      else if n = 12 then [CHR 0x5C, CHR ''f'']
      else if n = 8 then [CHR 0x5C, CHR ''b'']
      else if 32 \<le> n \<and> n \<le> 126 then [char_of n]
      else if n < 65536 then u_escape n
      else u_escape (55296 + (n - 65536) div 1024) @ u_escape (56320 + (n - 65536) mod 1024))"

definition jquote :: "string \<Rightarrow> string res" where
  "jquote s = (case utf8_points True s of None \<Rightarrow> Inl ValueError
     | Some ns \<Rightarrow> Inr (CHR 0x22 # concat (map escape_point ns) @ [CHR 0x22]))"

definition int_max_str_digits :: nat where
  "int_max_str_digits = 4300"

definition jint :: "int \<Rightarrow> string res" where
  "jint i = (if int_max_str_digits < length (show_int \<bar>i\<bar>) then Inl ValueError else Inr (show_int i))"

fun join :: "string \<Rightarrow> string list \<Rightarrow> string" where
  "join sep [] = []"
| "join sep [x] = x"
| "join sep (x # y # r) = x @ sep @ join sep (y # r)"

text \<open>\<open>sorted(dct.items())\<close> in every dict.  Code points compare as their UTF-8 bytes do.\<close>

fun canon :: "pyval \<Rightarrow> pyval"
  and canon_pairs :: "(string \<times> pyval) list \<Rightarrow> (string \<times> pyval) list" where
  "canon (PList vs) = PList (map canon vs)"
| "canon (PTuple vs) = PList (map canon vs)"
| "canon (PDict d) = PDict (sort_key fst (canon_pairs d))"
| "canon v = v"
| "canon_pairs [] = []"
| "canon_pairs ((k, v) # d) = (k, canon v) # canon_pairs d"

fun jenc :: "pyval \<Rightarrow> string res"
  and jencs :: "pyval list \<Rightarrow> string list res"
  and jencd :: "(string \<times> pyval) list \<Rightarrow> string list res" where
  "jenc PNone = Inr ''null''"
| "jenc (PBool b) = Inr (if b then ''true'' else ''false'')"
| "jenc (PInt i) = jint i"
| "jenc (PFloat f) = float_repr f"
| "jenc (PStr s) = jquote s"
| "jenc (PBytes s) = Inl TypeError"
| "jenc (PList vs) = andthen (jencs vs) (\<lambda>xs. Inr (''['' @ join '','' xs @ '']''))"
| "jenc (PTuple vs) = andthen (jencs vs) (\<lambda>xs. Inr (''['' @ join '','' xs @ '']''))"
| "jenc (PDict d) = andthen (jencd d) (\<lambda>xs. Inr (''{'' @ join '','' xs @ ''}''))"
| "jencs [] = Inr []"
| "jencs (v # vs) = andthen (jenc v) (\<lambda>x. andthen (jencs vs) (\<lambda>xs. Inr (x # xs)))"
| "jencd [] = Inr []"
| "jencd ((k, v) # d) = andthen (jquote k) (\<lambda>q. andthen (jenc v) (\<lambda>x. andthen (jencd d) (\<lambda>xs. Inr ((q @ '':'' @ x) # xs))))"

definition json_dumps :: "pyval \<Rightarrow> string res" where
  "json_dumps v = jenc (canon v)"

section \<open>Reading\<close>

record json_hooks =
  pairs_hook :: "(string \<times> pyval) list \<Rightarrow> pyval res"
  constant_hook :: "string \<Rightarrow> pyval res"

text \<open>The two hooks of the scripts: refuse a repeated key, refuse \<open>NaN\<close> and the infinities.\<close>

definition unique_hook :: "exn \<Rightarrow> (string \<times> pyval) list \<Rightarrow> pyval res" where
  "unique_hook e pairs = (if distinct (map fst pairs) then Inr (PDict pairs) else Inl e)"

definition strict_hooks :: "exn \<Rightarrow> exn \<Rightarrow> json_hooks" where
  "strict_hooks dup const = \<lparr>pairs_hook = unique_hook dup, constant_hook = (\<lambda>_. Inl const)\<rparr>"

text \<open>Without \<open>parse_constant\<close>.\<close>

definition float_constant :: "string \<Rightarrow> pyval res" where
  "float_constant s = Inr (PFloat (if s = ''NaN'' then NaN else if s = ''Infinity'' then PosInf else NegInf))"

definition unique_hooks :: "exn \<Rightarrow> json_hooks" where
  "unique_hooks dup = \<lparr>pairs_hook = unique_hook dup, constant_hook = float_constant\<rparr>"

text \<open>\<open>dict(pairs)\<close>: the first position, the last value.\<close>

fun dict_insert :: "string \<Rightarrow> 'a \<Rightarrow> (string \<times> 'a) list \<Rightarrow> (string \<times> 'a) list" where
  "dict_insert k v [] = [(k, v)]"
| "dict_insert k v ((l, w) # d) = (if k = l then (k, v) # d else (l, w) # dict_insert k v d)"

definition default_hooks :: json_hooks where
  "default_hooks = \<lparr>pairs_hook = (\<lambda>ps. Inr (PDict (foldl (\<lambda>d (k, v). dict_insert k v d) [] ps))),
     constant_hook = float_constant\<rparr>"

definition json_space :: "char \<Rightarrow> bool" where
  "json_space c \<longleftrightarrow> c = CHR '' '' \<or> c = CHR 0x09 \<or> c = CHR 0x0A \<or> c = CHR 0x0D"

definition ws :: "string \<Rightarrow> string" where
  "ws s = strip_left json_space s"

definition hex4_at :: "string \<Rightarrow> bool" where
  "hex4_at s \<longleftrightarrow> length (take 4 s) = 4 \<and> list_all is_hexx (take 4 s)"

definition simple_escape :: "char \<Rightarrow> char option" where
  "simple_escape d =
     (if d = CHR 0x22 \<or> d = CHR 0x5C \<or> d = CHR ''/'' then Some d
      else if d = CHR ''b'' then Some (CHR 0x08) else if d = CHR ''f'' then Some (CHR 0x0C)
      else if d = CHR ''n'' then Some (CHR 0x0A) else if d = CHR ''r'' then Some (CHR 0x0D)
      else if d = CHR ''t'' then Some (CHR 0x09) else None)"

definition prefix_res :: "string \<Rightarrow> (string \<times> string) res \<Rightarrow> (string \<times> string) res" where
  "prefix_res p r = andthen r (\<lambda>(s, z). Inr (p @ s, z))"

text \<open>\<open>scanstring\<close> after the opening quote, strict\<close>

fun jstring :: "string \<Rightarrow> (string \<times> string) res" where
  "jstring [] = Inl ValueError"
| "jstring (c # s) =
     (if c = CHR 0x22 then Inr ([], s)
      else if c = CHR 0x5C then
        (case s of [] \<Rightarrow> Inl ValueError
         | d # t \<Rightarrow>
             if d = CHR ''u'' then
               (if \<not> hex4_at t then Inl ValueError
                else if 55296 \<le> nat_of_hex (take 4 t) \<and> nat_of_hex (take 4 t) < 56320
                  \<and> take 2 (drop 4 t) = [CHR 0x5C, CHR ''u''] \<and> hex4_at (drop 6 t)
                  \<and> 56320 \<le> nat_of_hex (take 4 (drop 6 t)) \<and> nat_of_hex (take 4 (drop 6 t)) < 57344
                then prefix_res (utf8_chr (65536 + (nat_of_hex (take 4 t) - 55296) * 1024
                       + (nat_of_hex (take 4 (drop 6 t)) - 56320))) (jstring (drop 10 t))
                else prefix_res (utf8_chr (nat_of_hex (take 4 t))) (jstring (drop 4 t)))
             else (case simple_escape d of None \<Rightarrow> Inl ValueError
                   | Some e \<Rightarrow> prefix_res [e] (jstring t)))
      else if cc c < 32 then Inl ValueError
      else prefix_res [c] (jstring s))"

text \<open>\<open>NUMBER_RE\<close>: sign, integer part, fraction, exponent\<close>

definition int_part :: "string \<Rightarrow> string" where
  "int_part s = (case s of [] \<Rightarrow> [] | c # t \<Rightarrow> if c = CHR ''0'' then [c] else takeWhile is_digit s)"

definition frac_part :: "string \<Rightarrow> string" where
  "frac_part s = (case s of [] \<Rightarrow> [] | c # t \<Rightarrow> if c = CHR ''.'' then takeWhile is_digit t else [])"

text \<open>Negative flag, digits and length of an exponent.\<close>

definition exp_part :: "string \<Rightarrow> (bool \<times> string \<times> nat) option" where
  "exp_part s = (case s of [] \<Rightarrow> None | c # t \<Rightarrow>
     if c = CHR ''e'' \<or> c = CHR ''E'' then
       (let sgn = (t \<noteq> [] \<and> (hd t = CHR ''-'' \<or> hd t = CHR ''+''));
            ds = takeWhile is_digit (if sgn then tl t else t)
        in if ds = [] then None else Some (sgn \<and> hd t = CHR ''-'', ds, (if sgn then 2 else 1) + length ds))
     else None)"

definition jnumber :: "string \<Rightarrow> (pyval \<times> string) res" where
  "jnumber s =
     (let neg = (s \<noteq> [] \<and> hd s = CHR ''-'');
          s1 = (if neg then tl s else s);
          ip = int_part s1; s2 = drop (length ip) s1;
          fr = frac_part s2; s3 = (if fr = [] then s2 else drop (1 + length fr) s2) in
      if ip = [] then Inl ValueError
      else case exp_part s3 of
        None \<Rightarrow>
          if fr = [] then
            (if int_max_str_digits < length ip then Inl DigitLimit
             else Inr (PInt (if neg then - int_of_digits ip else int_of_digits ip), s3))
          else Inr (PFloat (decimal_float neg (int_of_digits (ip @ fr)) (- int (length fr))), s3)
      | Some (eneg, ds, l) \<Rightarrow>
          Inr (PFloat (decimal_float neg (int_of_digits (ip @ fr))
                 ((if eneg then - int_of_digits ds else int_of_digits ds) - int (length fr))), drop l s3))"

definition jconstant :: "json_hooks \<Rightarrow> string \<Rightarrow> string \<Rightarrow> (pyval \<times> string) res" where
  "jconstant h name s = andthen (constant_hook h name) (\<lambda>v. Inr (v, drop (length name) s))"

definition starts :: "string \<Rightarrow> string \<Rightarrow> bool" where
  "starts p s \<longleftrightarrow> take (length p) s = p"

text \<open>What \<open>scan_once\<close> does on everything but strings, objects and arrays.\<close>

definition jatom :: "json_hooks \<Rightarrow> string \<Rightarrow> (pyval \<times> string) res" where
  "jatom h s =
     (if starts ''null'' s then Inr (PNone, drop 4 s)
      else if starts ''true'' s then Inr (PBool True, drop 4 s)
      else if starts ''false'' s then Inr (PBool False, drop 5 s)
      else if starts ''NaN'' s then jconstant h ''NaN'' s
      else if starts ''Infinity'' s then jconstant h ''Infinity'' s
      else if starts ''-Infinity'' s then jconstant h ''-Infinity'' s
      else jnumber s)"

fun jvalue :: "json_hooks \<Rightarrow> nat \<Rightarrow> string \<Rightarrow> (pyval \<times> string) res"
  and jelems :: "json_hooks \<Rightarrow> nat \<Rightarrow> string \<Rightarrow> pyval list \<Rightarrow> (pyval \<times> string) res"
  and jpairs :: "json_hooks \<Rightarrow> nat \<Rightarrow> string \<Rightarrow> (string \<times> pyval) list \<Rightarrow> (pyval \<times> string) res" where
  "jvalue h 0 s = Inl ValueError"
| "jvalue h (Suc n) s = (case s of [] \<Rightarrow> Inl ValueError | c # t \<Rightarrow>
     if c = CHR 0x22 then andthen (jstring t) (\<lambda>(r, z). Inr (PStr r, z))
     else if c = CHR ''{'' then
       (case ws t of [] \<Rightarrow> Inl ValueError
        | d # u \<Rightarrow> if d = CHR ''}'' then andthen (pairs_hook h []) (\<lambda>v. Inr (v, u)) else jpairs h n (d # u) [])
     else if c = CHR ''['' then
       (case ws t of [] \<Rightarrow> Inl ValueError
        | d # u \<Rightarrow> if d = CHR '']'' then Inr (PList [], u) else jelems h n (d # u) [])
     else jatom h s)"
| "jelems h 0 s acc = Inl ValueError"
| "jelems h (Suc n) s acc = andthen (jvalue h n s) (\<lambda>(v, y).
     case ws y of [] \<Rightarrow> Inl ValueError
     | d # x \<Rightarrow> if d = CHR '']'' then Inr (PList (acc @ [v]), x)
               else if d = CHR '','' then jelems h n (ws x) (acc @ [v])
               else Inl ValueError)"
| "jpairs h 0 s acc = Inl ValueError"
| "jpairs h (Suc n) s acc = (case s of [] \<Rightarrow> Inl ValueError | c # t \<Rightarrow>
     if c \<noteq> CHR 0x22 then Inl ValueError
     else andthen (jstring t) (\<lambda>(k, z).
       case ws z of [] \<Rightarrow> Inl ValueError
       | e # u \<Rightarrow>
         if e \<noteq> CHR '':'' then Inl ValueError
         else andthen (jvalue h n (ws u)) (\<lambda>(v, y).
           case ws y of [] \<Rightarrow> Inl ValueError
           | d # x \<Rightarrow>
             if d = CHR ''}'' then andthen (pairs_hook h (acc @ [(k, v)])) (\<lambda>r. Inr (r, x))
             else if d = CHR '','' then jpairs h n (ws x) (acc @ [(k, v)])
             else Inl ValueError)))"

definition json_text :: "json_hooks \<Rightarrow> string \<Rightarrow> pyval res" where
  "json_text h s = andthen (jvalue h (2 * length s + 2) (ws s)) (\<lambda>(v, z).
     if ws z = [] then Inr v else Inl ValueError)"

definition json_loads :: "json_hooks \<Rightarrow> string \<Rightarrow> pyval res" where
  "json_loads h s = (if take 3 s = BOM_UTF8 then Inl ValueError else json_text h s)"

definition json_loads_bytes :: "json_hooks \<Rightarrow> string \<Rightarrow> pyval res" where
  "json_loads_bytes h b = andthen (json_decode b) (json_text h)"

section \<open>Characters and code points\<close>

lemma cc_char_of [simp]: "n < 256 \<Longrightarrow> cc (char_of n) = n"
  by (simp add: cc_def)

lemma char_of_cc [simp]: "char_of (cc c) = c"
  by (simp add: cc_def)

lemma char_eq_cc: "c = d \<longleftrightarrow> cc c = cc d"
  by (simp add: cc_def)

lemma decompose64:
  fixes n :: nat
  shows "n = 4096 * (n div 4096) + 64 * (n div 64 mod 64) + n mod 64"
    "n = 262144 * (n div 262144) + 4096 * (n div 4096 mod 64) + 64 * (n div 64 mod 64) + n mod 64"
proof -
  have d: "n div 4096 = n div 64 div 64" "n div 262144 = n div 4096 div 64"
    by (simp_all add: div_mult2_eq [symmetric])
  show a: "n = 4096 * (n div 4096) + 64 * (n div 64 mod 64) + n mod 64"
    using mult_div_mod_eq [of 64 n] mult_div_mod_eq [of 64 "n div 64"] unfolding d(1) by linarith
  show "n = 262144 * (n div 262144) + 4096 * (n div 4096 mod 64) + 64 * (n div 64 mod 64) + n mod 64"
    using a mult_div_mod_eq [of 64 "n div 4096"] unfolding d(2) by linarith
qed

lemma digit64: "c < 64 \<Longrightarrow> (x * 64 + c) div 64 = x" "c < 64 \<Longrightarrow> (x * 64 + c) mod 64 = c" for c x :: nat
  by simp_all

lemma char_lits:
  "char_of (34::nat) = CHR 0x22" "char_of (92::nat) = CHR 0x5C" "char_of (10::nat) = CHR 0x0A"
  "char_of (13::nat) = CHR 0x0D" "char_of (9::nat) = CHR 0x09" "char_of (12::nat) = CHR 0x0C"
  "char_of (8::nat) = CHR 0x08" "char_of (48::nat) = CHR ''0''"
  by code_simp+

lemma utf8_chr_2:
  assumes "2 \<le> a" "a < 32" "b < 64"
  shows "utf8_chr (a * 64 + b) = [char_of (192 + a), char_of (128 + b)]"
  using assms unfolding utf8_chr_def digit64 [OF assms(3)] by simp

lemma utf8_chr_3:
  assumes "2048 \<le> a * 4096 + b * 64 + c" "a < 16" "b < 64" "c < 64"
  shows "utf8_chr (a * 4096 + b * 64 + c) = [char_of (224 + a), char_of (128 + b), char_of (128 + c)]"
proof -
  have e: "a * 4096 + b * 64 + c = (a * 64 + b) * 64 + c" by simp
  have "(a * 4096 + b * 64 + c) div 4096 = a"
    unfolding e using div_mult2_eq [of "(a * 64 + b) * 64 + c" 64 64] assms by (simp only: digit64) simp
  moreover have "(a * 4096 + b * 64 + c) div 64 mod 64 = b" "(a * 4096 + b * 64 + c) mod 64 = c"
    unfolding e using assms by (simp_all only: digit64)
  ultimately show ?thesis using assms unfolding utf8_chr_def by simp
qed

lemma utf8_chr_4:
  assumes "65536 \<le> a * 262144 + b * 4096 + c * 64 + d" "b < 64" "c < 64" "d < 64"
  shows "utf8_chr (a * 262144 + b * 4096 + c * 64 + d) =
    [char_of (240 + a), char_of (128 + b), char_of (128 + c), char_of (128 + d)]"
proof -
  have e: "a * 262144 + b * 4096 + c * 64 + d = ((a * 64 + b) * 64 + c) * 64 + d" by simp
  have "(a * 262144 + b * 4096 + c * 64 + d) div 4096 = a * 64 + b"
    unfolding e using div_mult2_eq [of "((a * 64 + b) * 64 + c) * 64 + d" 64 64] assms by (simp only: digit64) simp
  moreover have "(a * 262144 + b * 4096 + c * 64 + d) div 262144 = a"
    using div_mult2_eq [of "a * 262144 + b * 4096 + c * 64 + d" 4096 64] assms calculation by (simp add: digit64)
  moreover have "(a * 262144 + b * 4096 + c * 64 + d) div 64 mod 64 = c" "(a * 262144 + b * 4096 + c * 64 + d) mod 64 = d"
    unfolding e using assms by (simp_all only: digit64)
  ultimately show ?thesis using assms unfolding utf8_chr_def by simp
qed

lemma utf8_points_chr:
  assumes "n < 1114112"
  shows "utf8_points True (utf8_chr n @ s) = map_option ((#) n) (utf8_points True s)"
proof -
  consider "n < 128" | "128 \<le> n" "n < 2048" | "2048 \<le> n" "n < 65536" | "65536 \<le> n" by linarith
  then show ?thesis
  proof cases
    case 1 then show ?thesis by (simp add: utf8_chr_def)
  next
    case 2
    obtain q r where n: "n = q * 64 + r" "r < 64" using mult_div_mod_eq [of 64 n] by (metis mod_less_divisor mult.commute zero_less_numeral)
    with 2 have q: "2 \<le> q" "q < 32" by linarith+
    show ?thesis unfolding n(1) utf8_chr_2 [OF q n(2)] using q n(2) by (simp add: cont_def)
  next
    case 3
    obtain p q r where n: "n = p * 4096 + q * 64 + r" "r < 64" "q < 64"
      using decompose64(1) [of n] by (metis mod_less_divisor mult.commute zero_less_numeral)
    with 3 have p: "2048 \<le> p * 4096 + q * 64 + r" "p < 16" by linarith+
    show ?thesis unfolding n(1) utf8_chr_3 [OF p n(3,2)] using p n(2,3) by (simp add: cont_def)
  next
    case 4
    obtain t p q r where n: "n = t * 262144 + p * 4096 + q * 64 + r" "r < 64" "q < 64" "p < 64"
      using decompose64(2) [of n] by (metis mod_less_divisor mult.commute zero_less_numeral)
    with 4 assms have t: "65536 \<le> t * 262144 + p * 4096 + q * 64 + r" "t * 262144 + p * 4096 + q * 64 + r < 1114112"
      "t < 5" by linarith+
    show ?thesis unfolding n(1) utf8_chr_4 [OF t(1) n(4,3,2)] using t n(2-4) by (simp add: cont_def)
  qed
qed

lemma cont_val: "cont c \<Longrightarrow> cc c - 128 < 64 \<and> char_of (128 + (cc c - 128)) = c"
  by (auto simp: cont_def)

lemma map_option_Cons_eq: "map_option ((#) n) r = Some ns \<longleftrightarrow> (\<exists>ms. r = Some ms \<and> ns = n # ms)"
  by auto

text \<open>Decoding is inverted by encoding, and yields code points.\<close>

lemma utf8_points_sound:
  "utf8_points sp s = Some ns \<Longrightarrow> utf8_of_points ns = s \<and> list_all (\<lambda>n. n < 1114112 \<and> (sp \<or> \<not> surrogate n)) ns"
proof (induction s arbitrary: ns rule: length_induct)
  case (1 s)
  show ?case
  proof (cases s)
    case Nil
    then show ?thesis using 1 by (simp add: utf8_of_points_def)
  next
    case s: (Cons a u)
    have IH: "utf8_of_points ms = t \<and> list_all (\<lambda>n. n < 1114112 \<and> (sp \<or> \<not> surrogate n)) ms"
      if "utf8_points sp t = Some ms" "length t < length s" for t ms
      using 1 that by blast
    consider "cc a < 128" | "194 \<le> cc a" "cc a < 224" | "224 \<le> cc a" "cc a < 240" | "240 \<le> cc a" "cc a < 245"
      using "1.prems" s by (fastforce split: if_splits)
    then show ?thesis
    proof cases
      case 1
      then show ?thesis using "1.prems" s IH
        by (auto simp: utf8_of_points_def utf8_chr_def surrogate_def)
    next
      case 2
      with "1.prems" s obtain b t ms where m: "u = b # t" "cont b" "utf8_points sp t = Some ms"
        "ns = ((cc a - 192) * 64 + (cc b - 128)) # ms"
        by (auto split: if_splits list.splits)
      have "utf8_chr ((cc a - 192) * 64 + (cc b - 128)) = [a, b]"
        using 2 cont_val [OF m(2)] utf8_chr_2 [of "cc a - 192" "cc b - 128"] by simp
      moreover have "(cc a - 192) * 64 + (cc b - 128) < 2048" using 2 cont_val [OF m(2)] by linarith
      ultimately show ?thesis using IH [OF m(3)] m s by (simp add: utf8_of_points_def surrogate_def)
    next
      case 3
      with "1.prems" s obtain b c t ms where m: "u = b # c # t" "cont b" "cont c" "utf8_points sp t = Some ms"
        "2048 \<le> (cc a - 224) * 4096 + (cc b - 128) * 64 + (cc c - 128)"
        "sp \<or> \<not> surrogate ((cc a - 224) * 4096 + (cc b - 128) * 64 + (cc c - 128))"
        "ns = ((cc a - 224) * 4096 + (cc b - 128) * 64 + (cc c - 128)) # ms"
        by (auto split: if_splits list.splits)
      have "utf8_chr ((cc a - 224) * 4096 + (cc b - 128) * 64 + (cc c - 128)) = [a, b, c]"
        using 3 cont_val [OF m(2)] cont_val [OF m(3)] utf8_chr_3 [OF m(5)] by simp
      moreover have "(cc a - 224) * 4096 + (cc b - 128) * 64 + (cc c - 128) < 65536"
        using 3 cont_val [OF m(2)] cont_val [OF m(3)] by linarith
      ultimately show ?thesis using IH [OF m(4)] m s by (simp add: utf8_of_points_def)
    next
      case 4
      with "1.prems" s obtain b c d t ms where m: "u = b # c # d # t" "cont b" "cont c" "cont d"
        "utf8_points sp t = Some ms"
        "65536 \<le> (cc a - 240) * 262144 + (cc b - 128) * 4096 + (cc c - 128) * 64 + (cc d - 128)"
        "(cc a - 240) * 262144 + (cc b - 128) * 4096 + (cc c - 128) * 64 + (cc d - 128) < 1114112"
        "ns = ((cc a - 240) * 262144 + (cc b - 128) * 4096 + (cc c - 128) * 64 + (cc d - 128)) # ms"
        by (auto split: if_splits list.splits)
      have "utf8_chr ((cc a - 240) * 262144 + (cc b - 128) * 4096 + (cc c - 128) * 64 + (cc d - 128)) = [a, b, c, d]"
        using 4 cont_val [OF m(2)] cont_val [OF m(3)] cont_val [OF m(4)] utf8_chr_4 [OF m(6)] by simp
      then show ?thesis using IH [OF m(5)] m s by (simp add: utf8_of_points_def surrogate_def)
    qed
  qed
qed

section \<open>Strings\<close>

lemma hex_digit_val: "n < 16 \<Longrightarrow> is_hexx (hex_digit n) \<and> hex_val (hex_digit n) = n"
  by (simp add: is_hexx_def is_hex_def is_digit_def is_lower_def hex_val_def hex_digit_def)

lemma hex4_length [simp]: "length (hex4 n) = 4"
  by (simp add: hex4_def)

lemma take_hex4 [simp]: "take 4 (hex4 n @ s) = hex4 n" "drop 4 (hex4 n @ s) = s" "drop 6 (hex4 n @ s) = drop 2 s"
  "drop 10 (hex4 n @ s) = drop 6 s"
  by (simp_all add: hex4_def)

lemma hex4_at_hex4 [simp]: "hex4_at (hex4 n @ s)"
  by (simp add: hex4_at_def) (simp add: hex4_def hex_digit_val)

lemma nat_of_hex_hex4:
  assumes "n < 65536" shows "nat_of_hex (hex4 n) = n"
proof -
  have d: "n div 256 = n div 16 div 16" "n div 4096 = n div 256 div 16" by (simp_all add: div_mult2_eq [symmetric])
  have "n div 4096 < 16" using assms by simp
  then have "nat_of_hex (hex4 n) = 16 * (16 * (16 * (n div 4096) + n div 256 mod 16) + n div 16 mod 16) + n mod 16"
    by (simp add: nat_of_hex_def hex4_def hex_digit_val)
  also have "\<dots> = n"
    using mult_div_mod_eq [of 16 n] mult_div_mod_eq [of 16 "n div 16"] mult_div_mod_eq [of 16 "n div 256"]
    unfolding d(2) by (simp add: d(1))
  finally show ?thesis .
qed

lemma jstring_u_escape:
  assumes "n < 65536" "\<not> surrogate n"
  shows "jstring (u_escape n @ s) = prefix_res (utf8_chr n) (jstring s)"
  using assms by (auto simp: u_escape_def nat_of_hex_hex4 surrogate_def)

lemma jstring_u_pair:
  assumes "a < 1024" "b < 1024"
  shows "jstring (u_escape (55296 + a) @ u_escape (56320 + b) @ s) =
    prefix_res (utf8_chr (65536 + a * 1024 + b)) (jstring s)"
  using assms by (simp add: u_escape_def nat_of_hex_hex4)

lemma jstring_escape_point:
  assumes "n < 1114112" "\<not> surrogate n"
  shows "jstring (escape_point n @ s) = prefix_res (utf8_chr n) (jstring s)"
proof (cases "n < 65536")
  case True
  show ?thesis
  proof (cases "32 \<le> n \<and> n \<le> 126 \<and> n \<noteq> 34 \<and> n \<noteq> 92")
    case True
    then have "cc (char_of n) = n" by simp
    moreover have "(char_of n :: char) \<noteq> CHR 0x22" "(char_of n :: char) \<noteq> CHR 0x5C"
      using True by (auto simp: char_eq_cc cc_def)
    ultimately show ?thesis using True by (simp add: escape_point_def utf8_chr_def)
  next
    case other: False
    consider "n = 34" | "n = 92" | "n = 10" | "n = 13" | "n = 9" | "n = 12" | "n = 8" | "escape_point n = u_escape n"
    proof -
      have "escape_point n = u_escape n"
        if "n \<noteq> 34" "n \<noteq> 92" "n \<noteq> 10" "n \<noteq> 13" "n \<noteq> 9" "n \<noteq> 12" "n \<noteq> 8"
        using True other that by (auto simp: escape_point_def)
      then show thesis using that by blast
    qed
    then show ?thesis
      by cases (simp_all add: escape_point_def utf8_chr_def simple_escape_def char_lits True assms jstring_u_escape)
  qed
next
  case False
  define a b where "a = (n - 65536) div 1024" and "b = (n - 65536) mod 1024"
  have "a * 1024 + b = n - 65536" by (simp add: a_def b_def)
  then have n: "n = 65536 + a * 1024 + b" "b < 1024" "a < 1024"
    using False assms by (simp_all add: b_def)
  have "escape_point n = u_escape (55296 + a) @ u_escape (56320 + b)"
    using False by (simp add: escape_point_def a_def b_def)
  then show ?thesis using jstring_u_pair [OF n(3,2), of s] n(1) by simp
qed

lemma jstring_points:
  "list_all (\<lambda>n. n < 1114112 \<and> \<not> surrogate n) ns \<Longrightarrow>
     jstring (concat (map escape_point ns) @ CHR 0x22 # s) = Inr (utf8_of_points ns, s)"
  by (induction ns) (simp_all add: jstring_escape_point prefix_res_def utf8_of_points_def)

text \<open>A \<open>str\<close> without lone surrogates.\<close>

definition plain_str :: "string \<Rightarrow> bool" where
  "plain_str s \<longleftrightarrow> utf8_points False s \<noteq> None"

lemma utf8_points_weaken: "utf8_points False s = Some ns \<Longrightarrow> utf8_points True s = Some ns"
proof -
  assume a: "utf8_points False s = Some ns"
  have "utf8_points True (utf8_of_points ns) = Some ns"
    if "list_all (\<lambda>n. n < 1114112) ns" for ns using that
    by (induction ns) (simp_all add: utf8_of_points_def utf8_points_chr)
  moreover have "list_all (\<lambda>n. n < 1114112) ns"
    using utf8_points_sound [OF a] by (auto simp: list_all_iff)
  ultimately show ?thesis using utf8_points_sound [OF a] by metis
qed

lemma jquote_read:
  assumes "plain_str s"
  obtains q where "jquote s = Inr (CHR 0x22 # q)" "\<And>rest. jstring (q @ rest) = Inr (s, rest)"
proof -
  obtain ns where ns: "utf8_points False s = Some ns" using assms by (auto simp: plain_str_def)
  have "jstring (concat (map escape_point ns) @ CHR 0x22 # rest) = Inr (s, rest)" for rest
    using jstring_points [of ns rest] utf8_points_sound [OF ns] by simp
  then show ?thesis
    using that [of "concat (map escape_point ns) @ [CHR 0x22]"] utf8_points_weaken [OF ns] by (simp add: jquote_def)
qed

section \<open>Integers\<close>

text \<open>The text after a value: nothing that could extend a number.\<close>

definition stop :: "string \<Rightarrow> bool" where
  "stop s = (case s of [] \<Rightarrow> True
     | c # _ \<Rightarrow> \<not> is_digit c \<and> c \<noteq> CHR ''.'' \<and> c \<noteq> CHR ''e'' \<and> c \<noteq> CHR ''E'')"

lemma hd_show_nat: "0 < n \<Longrightarrow> hd (show_nat n) \<noteq> CHR ''0''"
proof (induction n rule: show_nat.induct)
  case (1 n)
  show ?case
  proof (cases "n < 10")
    case True
    then show ?thesis using 1 by (auto simp: show_nat.simps [of n] char_eq_cc cc_def [of "CHR ''0''"])
  next
    case False
    then show ?thesis using 1 by (simp add: show_nat.simps [of n])
  qed
qed

lemma takeWhile_digits: "list_all is_digit ds \<Longrightarrow> stop s \<Longrightarrow> takeWhile is_digit (ds @ s) = ds"
  by (induction ds) (auto simp: stop_def split: list.splits)

lemma show_nat_Cons: obtains c t where "show_nat n = c # t" "is_digit c" "list_all is_digit t"
  using show_nat_digits [of n] by (cases "show_nat n") auto

lemma int_part_show_nat: "stop s \<Longrightarrow> int_part (show_nat n @ s) = show_nat n"
proof (cases "n = 0")
  case True
  then show ?thesis by (simp add: show_nat.simps [of 0] int_part_def digit_char_def char_lits)
next
  case False
  obtain c t where c: "show_nat n = c # t" "is_digit c" "list_all is_digit t" by (rule show_nat_Cons)
  with False hd_show_nat [of n] have "c \<noteq> CHR ''0''" by simp
  then show "stop s \<Longrightarrow> ?thesis" using takeWhile_digits [of "show_nat n" s] by (simp add: c int_part_def)
qed

lemma frac_exp_stop: "stop s \<Longrightarrow> frac_part s = [] \<and> exp_part s = None"
  by (auto simp: stop_def frac_part_def exp_part_def split: list.splits)

lemma digit_neq: "is_digit c \<Longrightarrow> c \<noteq> CHR ''-'' \<and> c \<noteq> CHR ''n'' \<and> c \<noteq> CHR ''t'' \<and> c \<noteq> CHR ''f'' \<and> c \<noteq> CHR ''N''
  \<and> c \<noteq> CHR ''I'' \<and> c \<noteq> CHR 0x22 \<and> c \<noteq> CHR ''{'' \<and> c \<noteq> CHR ''['' \<and> c \<noteq> CHR ''}'' \<and> c \<noteq> CHR '']'' \<and> \<not> json_space c"
  by (auto simp: is_digit_def cc_def json_space_def)

lemma jnumber_show_int:
  assumes "stop s" "length (show_int \<bar>i\<bar>) \<le> int_max_str_digits"
  shows "jnumber (show_int i @ s) = Inr (PInt i, s)"
proof -
  define n where "n = nat \<bar>i\<bar>"
  obtain c t where c: "show_nat n = c # t" "is_digit c" by (rule show_nat_Cons)
  have l: "\<not> int_max_str_digits < length (show_nat n)" using assms(2) by (simp add: show_int_def n_def)
  show ?thesis
  proof (cases "i < 0")
    case True
    then have "show_int i = CHR ''-'' # show_nat n" "i = - int n" by (simp_all add: show_int_def n_def)
    then show ?thesis using assms l int_part_show_nat [OF assms(1), of n] frac_exp_stop [OF assms(1)]
      by (simp add: jnumber_def)
  next
    case False
    then have "show_int i = show_nat n" "i = int n" by (simp_all add: show_int_def n_def)
    then show ?thesis using assms l int_part_show_nat [OF assms(1), of n] frac_exp_stop [OF assms(1)]
      digit_neq [OF c(2)] int_of_digits_show_nat [of n]
      by (simp add: jnumber_def c)
  qed
qed

lemma starts_simps [simp]: "starts [] s" "starts (a # p) [] = False" "starts (a # p) (c # s) \<longleftrightarrow> c = a \<and> starts p s"
  by (simp_all add: starts_def)

lemma jatom_show_int:
  assumes "stop s" "length (show_int \<bar>i\<bar>) \<le> int_max_str_digits"
  shows "jatom h (show_int i @ s) = Inr (PInt i, s)"
proof -
  obtain c t where c: "show_nat (nat \<bar>i\<bar>) = c # t" "is_digit c" by (rule show_nat_Cons)
  then have "show_int i = (if i < 0 then CHR ''-'' # c # t else c # t)"
    by (cases "i < 0") (simp_all add: show_int_def)
  then have "jatom h (show_int i @ s) = jnumber (show_int i @ s)"
    using digit_neq [OF c(2)] unfolding jatom_def by (cases "i < 0") simp_all
  then show ?thesis using jnumber_show_int assms by simp
qed

lemma show_int_start: "\<exists>c t. show_int i = c # t \<and> (is_digit c \<or> c = CHR ''-'')"
  by (cases "i < 0") (auto simp: show_int_def intro: show_nat_Cons [of "nat i"])

section \<open>What is written is read back\<close>

fun jok :: "pyval \<Rightarrow> bool"
  and joks :: "pyval list \<Rightarrow> bool"
  and jokd :: "(string \<times> pyval) list \<Rightarrow> bool" where
  "jok PNone = True"
| "jok (PBool b) = True"
| "jok (PInt i) = (length (show_int \<bar>i\<bar>) \<le> int_max_str_digits)"
| "jok (PFloat f) = False"
| "jok (PStr s) = plain_str s"
| "jok (PBytes s) = False"
| "jok (PList vs) = joks vs"
| "jok (PTuple vs) = False"
| "jok (PDict d) = (distinct (map fst d) \<and> jokd d)"
| "joks [] = True"
| "joks (v # vs) = (jok v \<and> joks vs)"
| "jokd [] = True"
| "jokd ((k, v) # d) = (plain_str k \<and> jok v \<and> jokd d)"

definition good_hooks :: "json_hooks \<Rightarrow> bool" where
  "good_hooks h \<longleftrightarrow> (\<forall>ps. distinct (map fst ps) \<longrightarrow> pairs_hook h ps = Inr (PDict ps))"

lemma strict_hooks_good [simp]: "good_hooks (strict_hooks a b)" "good_hooks (unique_hooks a)"
  by (simp_all add: good_hooks_def strict_hooks_def unique_hooks_def unique_hook_def)

text \<open>\<open>reads h x v\<close>: the text \<open>x\<close> of a value is read as \<open>v\<close>, whatever follows it.\<close>

definition reads :: "json_hooks \<Rightarrow> string \<Rightarrow> pyval \<Rightarrow> bool" where
  "reads h x v \<longleftrightarrow> x \<noteq> [] \<and> \<not> json_space (hd x) \<and> hd x \<noteq> CHR '']'' \<and>
     (\<forall>n rest. length x < n \<longrightarrow> stop rest \<longrightarrow> jvalue h n (x @ rest) = Inr (v, rest))"

lemma ws_id: "x \<noteq> [] \<Longrightarrow> \<not> json_space (hd x) \<Longrightarrow> ws x = x"
  by (cases x) (simp_all add: ws_def)

lemma ws_punct [simp]:
  "ws (CHR '','' # s) = CHR '','' # s" "ws (CHR '']'' # s) = CHR '']'' # s" "ws (CHR ''}'' # s) = CHR ''}'' # s"
  "ws (CHR '':'' # s) = CHR '':'' # s" "ws (CHR 0x22 # s) = CHR 0x22 # s" "ws [] = []"
  by (simp_all add: ws_def json_space_def)

lemma stop_punct [simp]:
  "stop (CHR '','' # s)" "stop (CHR '']'' # s)" "stop (CHR ''}'' # s)" "stop (CHR 0x0A # s)" "stop []"
  by (simp_all add: stop_def is_digit_def cc_def)

lemma reads_ws: "reads h x v \<Longrightarrow> ws (x @ r) = x @ r"
  by (rule ws_id) (auto simp: reads_def)

lemma reads_use: "reads h x v \<Longrightarrow> length x < n \<Longrightarrow> stop rest \<Longrightarrow> jvalue h n (x @ rest) = Inr (v, rest)"
  by (simp add: reads_def)

lemma jelems_read:
  assumes "list_all2 (reads h) xs vs" "xs \<noteq> []" "length (join '','' xs) + 1 < n"
  shows "jelems h n (join '','' xs @ CHR '']'' # rest) acc = Inr (PList (acc @ vs), rest)"
  using assms
proof (induction xs arbitrary: vs n acc)
  case (Cons x xs)
  then obtain v ws' where vs: "vs = v # ws'" and r: "reads h x v" and rs: "list_all2 (reads h) xs ws'"
    by (auto simp: list_all2_Cons1)
  from Cons.prems obtain m where n: "n = Suc m" by (cases n) auto
  show ?case
  proof (cases xs)
    case Nil
    then show ?thesis using rs r Cons.prems reads_use [OF r, of m "CHR '']'' # rest"] by (simp add: n vs)
  next
    case (Cons y ys)
    have "length x < m" "length (join '','' xs) + 1 < m" using Cons.prems Cons by (simp_all add: n)
    moreover have "ws (join '','' xs @ CHR '']'' # rest) = join '','' xs @ CHR '']'' # rest"
      using rs Cons by (cases ys) (auto simp: list_all2_Cons1 intro: reads_ws)
    ultimately show ?thesis
      using Cons.IH [OF rs, of m "acc @ [v]"] Cons reads_use [OF r, of m "CHR '','' # join '','' xs @ CHR '']'' # rest"]
      by (simp add: n vs)
  qed
qed simp

text \<open>The text of a pair: quoted key, colon, value.\<close>

definition reads_pair :: "json_hooks \<Rightarrow> string \<Rightarrow> string \<times> pyval \<Rightarrow> bool" where
  "reads_pair h x kv \<longleftrightarrow> (\<exists>q y. x = CHR 0x22 # q @ '':'' @ y \<and> reads h y (snd kv)
     \<and> (\<forall>rest. jstring (q @ rest) = Inr (fst kv, rest)))"

lemma jpairs_read:
  assumes "list_all2 (reads_pair h) xs d" "xs \<noteq> []" "length (join '','' xs) + 1 < n"
    and "pairs_hook h (acc @ d) = Inr r"
  shows "jpairs h n (join '','' xs @ CHR ''}'' # rest) acc = Inr (r, rest)"
  using assms
proof (induction xs arbitrary: d n acc)
  case (Cons x xs)
  then obtain k v d' where d: "d = (k, v) # d'" and rp: "reads_pair h x (k, v)" and rs: "list_all2 (reads_pair h) xs d'"
    by (auto simp: list_all2_Cons1)
  from rp obtain q y where x: "x = CHR 0x22 # q @ '':'' @ y" and r: "reads h y v"
    and q: "\<And>rest. jstring (q @ rest) = Inr (k, rest)" by (auto simp: reads_pair_def)
  from Cons.prems obtain m where n: "n = Suc m" by (cases n) auto
  show ?case
  proof (cases xs)
    case Nil
    then show ?thesis using rs r Cons.prems reads_use [OF r, of m "CHR ''}'' # rest"] reads_ws [OF r]
      by (simp add: n d x q)
  next
    case (Cons z zs)
    have l: "length y < m" "length (join '','' xs) + 1 < m" using Cons.prems Cons by (simp_all add: n x)
    have w: "ws (join '','' xs @ CHR ''}'' # rest) = join '','' xs @ CHR ''}'' # rest"
      using rs Cons by (cases zs) (auto simp: list_all2_Cons1 reads_pair_def)
    have "jpairs h m (join '','' xs @ CHR ''}'' # rest) (acc @ [(k, v)]) = Inr (r, rest)"
      using Cons.IH [OF rs, of m "acc @ [(k, v)]"] Cons l Cons.prems(4) d by simp
    then show ?thesis
      using Cons Cons.prems l w reads_use [OF r, of m "CHR '','' # join '','' xs @ CHR ''}'' # rest"] reads_ws [OF r]
      by (simp add: n d x q)
  qed
qed simp

lemma reads_str:
  assumes "plain_str s" shows "\<exists>x. jquote s = Inr x \<and> reads h x (PStr s)"
proof -
  obtain q where q: "jquote s = Inr (CHR 0x22 # q)" "\<And>rest. jstring (q @ rest) = Inr (s, rest)"
    using assms by (rule jquote_read) blast
  have "jvalue h n (CHR 0x22 # q @ rest) = Inr (PStr s, rest)" if "length q < n" for n rest
    using that q(2) by (cases n) simp_all
  then show ?thesis using q(1) by (auto simp: reads_def json_space_def)
qed

lemma reads_int:
  assumes "length (show_int \<bar>i\<bar>) \<le> int_max_str_digits" shows "reads h (show_int i) (PInt i)"
proof -
  obtain c t where c: "show_int i = c # t" "is_digit c \<or> c = CHR ''-''" using show_int_start by blast
  have "jvalue h n (show_int i @ rest) = Inr (PInt i, rest)" if "length (show_int i) < n" "stop rest" for n rest
  proof (cases n)
    case (Suc m)
    have "c \<noteq> CHR 0x22 \<and> c \<noteq> CHR ''{'' \<and> c \<noteq> CHR ''[''"
      using c(2) by (rule disjE) (simp_all add: digit_neq)
    then have "jvalue h (Suc m) (c # t @ rest) = jatom h (c # t @ rest)" by simp
    then show ?thesis using jatom_show_int [OF that(2) assms, of h] Suc by (simp add: c)
  qed (use that in simp)
  moreover have "\<not> json_space c \<and> c \<noteq> CHR '']''"
    using c(2)
  proof
    assume "c = CHR ''-''"
    then show ?thesis by (simp add: json_space_def)
  qed (simp add: digit_neq)
  ultimately show ?thesis using c(1) unfolding reads_def by simp
qed

lemma reads_const:
  "reads h ''null'' PNone" "reads h (if b then ''true'' else ''false'') (PBool b)"
proof -
  have "jvalue h n (''null'' @ rest) = Inr (PNone, rest)" if "4 < n" for n rest
    using that by (cases n) (simp_all add: jatom_def)
  then show "reads h ''null'' PNone" by (simp add: reads_def json_space_def)
  have "jvalue h n (''true'' @ rest) = Inr (PBool True, rest)" if "4 < n" for n rest
    using that by (cases n) (simp_all add: jatom_def)
  moreover have "jvalue h n (''false'' @ rest) = Inr (PBool False, rest)" if "5 < n" for n rest
    using that by (cases n) (simp_all add: jatom_def)
  ultimately show "reads h (if b then ''true'' else ''false'') (PBool b)" by (simp add: reads_def json_space_def)
qed

lemma reads_list:
  assumes "list_all2 (reads h) xs vs"
  shows "reads h (''['' @ join '','' xs @ '']'') (PList vs)"
proof -
  have "jvalue h n (''['' @ join '','' xs @ '']'' @ rest) = Inr (PList vs, rest)"
    if n: "length (''['' @ join '','' xs @ '']'') < n" for n rest
  proof (cases xs)
    case Nil
    then show ?thesis using assms n by (cases n) simp_all
  next
    case (Cons x ys)
    obtain m where m: "n = Suc m" using n by (cases n) auto
    obtain v where v: "reads h x v" using assms Cons by (auto simp: list_all2_Cons1)
    then obtain c t where c: "x = c # t" "c \<noteq> CHR '']''" by (cases x) (auto simp: reads_def)
    obtain j where j: "join '','' xs = x @ j" using Cons by (cases ys) auto
    have "ws (join '','' xs @ CHR '']'' # rest) = c # t @ j @ CHR '']'' # rest"
      using reads_ws [OF v, of "j @ CHR '']'' # rest"] by (simp add: j c)
    then show ?thesis
      using jelems_read [OF assms, of m rest "[]"] n Cons c j by (simp add: m)
  qed
  then show ?thesis by (auto simp: reads_def json_space_def)
qed

lemma reads_dict:
  assumes "list_all2 (reads_pair h) xs d" "pairs_hook h d = Inr v"
  shows "reads h (''{'' @ join '','' xs @ ''}'') v"
proof -
  have "jvalue h n (''{'' @ join '','' xs @ ''}'' @ rest) = Inr (v, rest)"
    if n: "length (''{'' @ join '','' xs @ ''}'') < n" for n rest
  proof (cases xs)
    case Nil
    then show ?thesis using assms n by (cases n) simp_all
  next
    case (Cons x ys)
    obtain m where m: "n = Suc m" using n by (cases n) auto
    obtain t where c: "x = CHR 0x22 # t" using assms Cons by (auto simp: list_all2_Cons1 reads_pair_def)
    obtain j where j: "join '','' xs = x @ j" using Cons by (cases ys) auto
    show ?thesis
      using jpairs_read [OF assms(1), of m "[]" v rest] n assms Cons c j by (simp add: m)
  qed
  then show ?thesis by (auto simp: reads_def json_space_def)
qed

lemma jenc_reads:
  assumes "good_hooks h"
  shows "jok v \<Longrightarrow> \<exists>x. jenc v = Inr x \<and> reads h x v"
    and "joks vs \<Longrightarrow> \<exists>xs. jencs vs = Inr xs \<and> list_all2 (reads h) xs vs"
    and "jokd d \<Longrightarrow> \<exists>xs. jencd d = Inr xs \<and> list_all2 (reads_pair h) xs d"
proof (induction v and vs and d rule: jenc_jencs_jencd.induct)
  case (13 k v d)
  then obtain x xs where x: "jenc v = Inr x" "reads h x v" "jencd d = Inr xs" "list_all2 (reads_pair h) xs d"
    by auto
  obtain q where q: "jquote k = Inr (CHR 0x22 # q)" "\<And>rest. jstring (q @ rest) = Inr (k, rest)"
    using 13 by (auto elim: jquote_read)
  then have "reads_pair h (CHR 0x22 # q @ '':'' @ x) (k, v)" using x by (auto simp: reads_pair_def)
  then show ?case using x q by simp
qed (use assms reads_const reads_int reads_str reads_list reads_dict
  in \<open>auto simp: jint_def good_hooks_def\<close>)

section \<open>Canonical documents\<close>

lemma jokd_iff: "jokd d \<longleftrightarrow> (\<forall>(k, v) \<in> set d. plain_str k \<and> jok v)"
  by (induction d) auto

lemma canon_pairs_map: "canon_pairs d = map (\<lambda>(k, v). (k, canon v)) d"
  by (induction d) auto

lemma fst_canon_pairs [simp]: "map fst (canon_pairs d) = map fst d"
  by (simp add: canon_pairs_map case_prod_beta comp_def)

lemma distinct_sort_fst: "distinct (map fst (sort_key fst d)) \<longleftrightarrow> distinct (map fst d)"
  by (induction d) (simp_all add: distinct_insort_key)

lemma jok_canon:
  "jok v \<Longrightarrow> jok (canon v)" "joks vs \<Longrightarrow> joks (map canon vs)" "jokd d \<Longrightarrow> jokd (canon_pairs d)"
  by (induction v and vs and d rule: jok_joks_jokd.induct) (auto simp: distinct_sort_fst jokd_iff)

definition plain_ascii :: "string \<Rightarrow> bool" where
  "plain_ascii s \<longleftrightarrow> list_all (\<lambda>c. 0 < cc c \<and> cc c < 128) s"

lemma plain_ascii_simps [simp]:
  "plain_ascii []" "plain_ascii (c # s) \<longleftrightarrow> 0 < cc c \<and> cc c < 128 \<and> plain_ascii s"
  "plain_ascii (s @ t) \<longleftrightarrow> plain_ascii s \<and> plain_ascii t"
  by (simp_all add: plain_ascii_def)

lemma plain_ascii_points: "plain_ascii s \<Longrightarrow> utf8_points sp s = Some (map cc s)"
  by (induction s) simp_all

lemma plain_ascii_decode: "plain_ascii s \<Longrightarrow> json_decode s = Inr s"
proof -
  assume a: "plain_ascii s"
  have n: "cc (s ! i) \<noteq> 0 \<and> cc (s ! i) < 128" if "i < length s" for i
    using a that by (auto simp: plain_ascii_def list_all_length)
  have h: "take (Suc k) s \<noteq> c # p" if "cc c = 0 \<or> 128 \<le> cc c" for c p k
    using a that by (cases s) auto
  have t: "take 4 s \<noteq> c # p" "take 3 s \<noteq> c # p" "take 2 s \<noteq> c # p" if "cc c = 0 \<or> 128 \<le> cc c" for c p
    using h [OF that, of 3 p] h [OF that, of 2 p] h [OF that, of 1 p] by (simp_all add: eval_nat_numeral)
  have c: "cc (CHR 0x00) = 0" "cc (CHR 0xFF) = 255" "cc (CHR 0xFE) = 254" "cc (CHR 0xEF) = 239"
    by (simp_all add: cc_def)
  have l: "0 < length s \<and> 1 < length s \<and> 2 < length s \<and> 3 < length s" if "4 \<le> length s" using that by linarith
  show ?thesis
    using n [of 0] n [of 1] l a by (auto simp: json_decode_def BOM_UTF8_def t c plain_ascii_points)
qed

lemma digit_plain: "is_digit c \<Longrightarrow> 0 < cc c \<and> cc c < 128"
  by (simp add: is_digit_def)

lemma show_int_plain: "plain_ascii (show_int i)"
  using show_nat_digits digit_plain by (auto simp: show_int_def plain_ascii_def list_all_iff cc_def)

lemma hex_digit_plain: "n < 16 \<Longrightarrow> 0 < cc (hex_digit n) \<and> cc (hex_digit n) < 128"
  by (simp add: hex_digit_def)

lemma u_escape_plain: "plain_ascii (u_escape n)"
  by (simp add: u_escape_def hex4_def hex_digit_plain) (simp add: cc_def)

lemma escape_point_plain: "plain_ascii (escape_point n)"
  by (simp add: escape_point_def u_escape_plain) (simp add: cc_def)

lemma jquote_plain: "jquote s = Inr x \<Longrightarrow> plain_ascii x"
proof -
  have "plain_ascii (concat (map escape_point ns))" for ns by (induction ns) (simp_all add: escape_point_plain)
  then show "jquote s = Inr x \<Longrightarrow> ?thesis" by (auto simp: jquote_def cc_def split: option.splits)
qed

lemma join_plain: "list_all plain_ascii xs \<Longrightarrow> plain_ascii (join '','' xs)"
  by (induction "'',''" xs rule: join.induct) (simp_all add: cc_def)

lemma jenc_plain:
  "jok v \<Longrightarrow> jenc v = Inr x \<Longrightarrow> plain_ascii x"
  "joks vs \<Longrightarrow> jencs vs = Inr xs \<Longrightarrow> list_all plain_ascii xs"
  "jokd d \<Longrightarrow> jencd d = Inr xs \<Longrightarrow> list_all plain_ascii xs"
proof (induction v and vs and d arbitrary: x and xs and xs rule: jenc_jencs_jencd.induct)
  case (13 k v d)
  then show ?case using jquote_plain by (fastforce simp: ok_iff cc_def)
qed (auto simp: ok_iff jint_def cc_def join_plain show_int_plain jquote_plain split: if_splits)

section \<open>The round trip\<close>

lemma ws_append: "list_all json_space t \<Longrightarrow> ws t = []"
  by (induction t) (auto simp: ws_def)

lemma stop_space: "list_all json_space t \<Longrightarrow> stop t"
  by (cases t) (auto simp: stop_def json_space_def is_digit_def cc_def)

lemma json_text_reads:
  assumes "reads h x v" "list_all json_space t" shows "json_text h (x @ t) = Inr v"
  using assms reads_ws [OF assms(1), of t] reads_use [OF assms(1), of "2 * length (x @ t) + 2" t]
  by (simp add: json_text_def stop_space ws_append)

lemma json_roundtrip:
  assumes "jok v" "good_hooks h"
  obtains x where "json_dumps v = Inr x" "plain_ascii x" "x \<noteq> []"
    "\<And>t. list_all json_space t \<Longrightarrow> json_loads h (x @ t) = Inr (canon v)"
    "\<And>t. list_all json_space t \<Longrightarrow> json_loads_bytes h (x @ t) = Inr (canon v)"
proof -
  obtain x where x: "jenc (canon v) = Inr x" "reads h x (canon v)"
    using jenc_reads(1) [OF assms(2) jok_canon(1) [OF assms(1)]] by blast
  have a: "plain_ascii x" by (rule jenc_plain(1) [OF jok_canon(1) [OF assms(1)] x(1)])
  have "plain_ascii t" if "list_all json_space t" for t
    using that by (induction t) (auto simp: json_space_def cc_def)
  then have b: "plain_ascii (x @ t)" if "list_all json_space t" for t using a that by simp
  have "take 3 (x @ t) \<noteq> BOM_UTF8" if "list_all json_space t" for t
    using b [OF that] by (cases "x @ t") (auto simp: BOM_UTF8_def eval_nat_numeral cc_def)
  then show ?thesis using that [of x] x a b json_text_reads [OF x(2)]
    by (auto simp: json_dumps_def json_loads_def json_loads_bytes_def plain_ascii_decode reads_def)
qed

lemma json_dumps_inj:
  assumes "jok v" "jok w" "json_dumps v = json_dumps w" shows "canon v = canon w"
proof -
  have g: "good_hooks (unique_hooks ValueError)" by simp
  show ?thesis
    using json_roundtrip [OF assms(1) g] json_roundtrip [OF assms(2) g] assms(3)
    by (metis append_Nil2 list.pred_inject(1) sum.inject(2))
qed

section \<open>The reader consumes its input\<close>

lemma ws_length: "length (ws s) \<le> length s"
  by (induction s) (simp_all add: ws_def)

lemma ws_Cons_length: "ws s = c # t \<Longrightarrow> length t < length s"
  using ws_length [of s] by simp

lemma prefix_res_ok: "prefix_res p r = Inr (x, z) \<Longrightarrow> \<exists>y. r = Inr (y, z)"
  by (auto simp: prefix_res_def ok_iff)

lemma jstring_step:
  assumes "jstring (c # s) = Inr (r, z)"
  shows "z = s \<or> (\<exists>k y. jstring (drop k s) = Inr (y, z))"
proof (cases "c = CHR 0x22")
  case False
  note c = this
  show ?thesis
  proof (cases "c = CHR 0x5C")
    case True
    then obtain d t where s: "s = d # t" using assms by (cases s) simp_all
    have "jstring (drop (Suc k) s) = jstring (drop k t)" for k by (simp add: s)
    moreover have "\<exists>k y. jstring (drop k t) = Inr (y, z)"
    proof (cases "d = CHR ''u''")
      case True
      then have "\<exists>y. jstring (drop 10 t) = Inr (y, z) \<or> jstring (drop 4 t) = Inr (y, z)"
        using assms prefix_res_ok unfolding s \<open>c = CHR 0x5C\<close> by (simp split: if_splits) blast+
      then show ?thesis by blast
    next
      case False
      then obtain e where "prefix_res [e] (jstring t) = Inr (r, z)"
        using assms unfolding s \<open>c = CHR 0x5C\<close> by (simp split: option.splits)
      then show ?thesis using prefix_res_ok by (metis drop0)
    qed
    ultimately show ?thesis by metis
  next
    case False
    then have "prefix_res [c] (jstring s) = Inr (r, z)" using assms c by (simp split: if_splits)
    then show ?thesis using prefix_res_ok by (metis drop0)
  qed
qed (use assms in simp)

lemma jstring_length: "jstring s = Inr (r, z) \<Longrightarrow> length z < length s"
proof (induction s arbitrary: r rule: length_induct)
  case (1 s)
  then obtain c u where s: "s = c # u" by (cases s) simp_all
  from jstring_step [OF "1.prems" [unfolded s]] show ?case
  proof
    assume "\<exists>k y. jstring (drop k u) = Inr (y, z)"
    then obtain k y where "jstring (drop k u) = Inr (y, z)" by blast
    moreover have "length (drop k u) < length s" by (simp add: s)
    ultimately have "length z < length (drop k u)" using "1.IH" by blast
    then show ?thesis by (simp add: s)
  qed (simp add: s)
qed

lemma int_part_length: "length (int_part s) \<le> length s"
  by (auto simp: int_part_def length_takeWhile_le split: list.splits)

lemma jnumber_length: "jnumber s = Inr (v, z) \<Longrightarrow> length z < length s"
proof -
  assume a: "jnumber s = Inr (v, z)"
  define s1 where "s1 = (if s \<noteq> [] \<and> hd s = CHR ''-'' then tl s else s)"
  define s2 where "s2 = drop (length (int_part s1)) s1"
  have "int_part s1 \<noteq> []" using a by (auto simp: jnumber_def s1_def Let_def split: if_splits)
  then have "length s2 < length s1" using int_part_length [of s1] by (cases s1) (auto simp: s2_def)
  moreover have "length s1 \<le> length s" by (simp add: s1_def)
  moreover have "\<exists>k. z = drop k s2"
  proof -
    obtain j where j: "(if frac_part s2 = [] then s2 else drop (1 + length (frac_part s2)) s2) = drop j s2"
      by (metis drop0)
    then show ?thesis using a unfolding jnumber_def Let_def s1_def [symmetric] s2_def [symmetric] j
      by (auto split: if_splits option.splits)
  qed
  ultimately show ?thesis by auto
qed

lemma jatom_length:
  assumes "jatom h s = Inr (v, z)" shows "length z < length s"
proof -
  have d: "length (drop (Suc k) s) < length s" if "starts p s" "p \<noteq> []" for k p
    using that by (cases s; cases p) auto
  from d [of "''null''" 3] d [of "''true''" 3] d [of "''false''" 4] d [of "''NaN''" 2]
    d [of "''Infinity''" 7] d [of "''-Infinity''" 8] jnumber_length [of s v z] assms
  show ?thesis
    unfolding jatom_def jconstant_def by (simp only: eval_nat_numeral list.size) (auto simp: ok_iff split: if_splits)
qed

lemma jvalue_length:
  "(\<forall>s v z. jvalue h n s = Inr (v, z) \<longrightarrow> length z < length s)
   \<and> (\<forall>s acc v z. jelems h n s acc = Inr (v, z) \<longrightarrow> length z < length s)
   \<and> (\<forall>s acc v z. jpairs h n s acc = Inr (v, z) \<longrightarrow> length z < length s)"
proof (induction n)
  case (Suc n)
  then have V: "jvalue h n s = Inr (v, z) \<Longrightarrow> length z < length s"
    and E: "jelems h n s acc = Inr (v, z) \<Longrightarrow> length z < length s"
    and P: "jpairs h n s pcc = Inr (v, z) \<Longrightarrow> length z < length s" for s acc pcc v z by blast+
  have 1: "length z < length s" if j: "jvalue h (Suc n) s = Inr (v, z)" for s v z
  proof -
    obtain c t where s: "s = c # t" using j by (cases s) simp_all
    show ?thesis
    proof (cases "ws t")
      case Nil
      then show ?thesis using j jatom_length [of h s v z]
        by (auto simp: s ok_iff dest: jstring_length split: if_splits)
    next
      case (Cons d u)
      then show ?thesis using j jatom_length [of h s v z] ws_length [of t] E [of "d # u" "[]" v z] P [of "d # u" "[]" v z]
        by (auto simp: s ok_iff dest: jstring_length split: if_splits)
    qed
  qed
  have 2: "length z < length s" if j: "jelems h (Suc n) s acc = Inr (v, z)" for s acc v z
  proof -
    obtain w y where w: "jvalue h n s = Inr (w, y)" using j by (auto simp: ok_iff)
    then obtain d x where d: "ws y = d # x" using j by (cases "ws y") simp_all
    show ?thesis using j V [OF w] ws_Cons_length [OF d] E [of "ws x" "acc @ [w]" v z] ws_length [of x]
      by (auto simp: w d split: if_splits)
  qed
  have 3: "length z < length s" if j: "jpairs h (Suc n) s acc = Inr (v, z)" for s acc v z
  proof -
    obtain t where s: "s = CHR 0x22 # t" using j by (cases s) (simp_all split: if_splits)
    obtain k a where k: "jstring t = Inr (k, a)" using j by (auto simp: s ok_iff)
    then obtain e u where e: "ws a = e # u" "e = CHR '':''" using j by (cases "ws a") (simp_all add: s split: if_splits)
    then obtain w y where w: "jvalue h n (ws u) = Inr (w, y)" using j by (auto simp: s k ok_iff)
    then obtain d x where d: "ws y = d # x" using j by (cases "ws y") (simp_all add: s k e)
    have "length x < length s"
      using jstring_length [OF k] ws_Cons_length [OF e(1)] ws_length [of u] V [OF w] ws_Cons_length [OF d] by (simp add: s)
    then show ?thesis using j P [of "ws x" "acc @ [(k, w)]" v z] ws_length [of x]
      by (auto simp: s k e w d ok_iff split: if_splits)
  qed
  show ?case using 1 2 3 by blast
qed simp

lemma jvalue_fuel_step:
  "(\<forall>s. 2 * length s + 1 \<le> n \<longrightarrow> jvalue h n s = jvalue h (Suc n) s)
   \<and> (\<forall>s acc. 2 * length s + 2 \<le> n \<longrightarrow> jelems h n s acc = jelems h (Suc n) s acc)
   \<and> (\<forall>s acc. 2 * length s + 2 \<le> n \<longrightarrow> jpairs h n s acc = jpairs h (Suc n) s acc)"
proof (induction n)
  case (Suc n)
  note [simp del] = jvalue.simps(2) jelems.simps(2) jpairs.simps(2)
  from Suc have V: "2 * length s + 1 \<le> n \<Longrightarrow> jvalue h n s = jvalue h (Suc n) s"
    and E: "2 * length s + 2 \<le> n \<Longrightarrow> jelems h n s acc = jelems h (Suc n) s acc"
    and P: "2 * length s + 2 \<le> n \<Longrightarrow> jpairs h n s pcc = jpairs h (Suc n) s pcc" for s acc pcc by blast+
  have 1: "jvalue h (Suc n) s = jvalue h (Suc (Suc n)) s" if l: "2 * length s + 1 \<le> Suc n" for s
  proof (cases s)
    case (Cons c t)
    show ?thesis
    proof (cases "ws t")
      case (Cons d u)
      then have "2 * length (d # u) + 2 \<le> n" using l ws_length [of t] \<open>s = c # t\<close> by simp
      from E [OF this] P [OF this] show ?thesis unfolding jvalue.simps(2) [of h n s] jvalue.simps(2) [of h "Suc n" s] using \<open>s = c # t\<close> Cons by simp
    qed (simp add: Cons jvalue.simps(2) [of h n "c # t"] jvalue.simps(2) [of h "Suc n" "c # t"])
  qed (simp add: jvalue.simps(2))
  have 2: "jelems h (Suc n) s acc = jelems h (Suc (Suc n)) s acc" if l: "2 * length s + 2 \<le> Suc n" for s acc
  proof (cases "jvalue h n s")
    case (Inr p)
    obtain w y where p: "p = (w, y)" by (cases p)
    have V': "jvalue h (Suc n) s = Inr (w, y)" using V [of s] l Inr p by simp
    show ?thesis
    proof (cases "ws y")
      case Nil
      then show ?thesis unfolding jelems.simps(2) [of h n s acc] jelems.simps(2) [of h "Suc n" s acc] using Inr V' p by simp
    next
      case (Cons d x)
      have "length y < length s" using jvalue_length [of h n] Inr p by blast
      then have "2 * length (ws x) + 2 \<le> n" using l ws_Cons_length [OF Cons] ws_length [of x] by simp
      from E [OF this] show ?thesis unfolding jelems.simps(2) [of h n s acc] jelems.simps(2) [of h "Suc n" s acc] using Inr V' p Cons by simp
    qed
  qed (use V [of s] l in \<open>simp add: jelems.simps(2) [of h n s acc] jelems.simps(2) [of h "Suc n" s acc]\<close>)
  have 3: "jpairs h (Suc n) s acc = jpairs h (Suc (Suc n)) s acc" if l: "2 * length s + 2 \<le> Suc n" for s acc
  proof (cases s)
    case (Cons c t)
    show ?thesis
    proof (cases "jstring t")
      case k: (Inr q)
      obtain k a where q: "q = (k, a)" by (cases q)
      show ?thesis
      proof (cases "ws a")
        case e: (Cons e u)
        have u: "2 * length (ws u) + 1 \<le> n"
          using l jstring_length [of t k a] k q ws_Cons_length [OF e] ws_length [of u] Cons by simp
        show ?thesis
        proof (cases "jvalue h n (ws u)")
          case (Inl e')
          then show ?thesis unfolding jpairs.simps(2) [of h n s acc] jpairs.simps(2) [of h "Suc n" s acc] using V [OF u] Cons k q e by simp
        next
          case (Inr p)
          obtain w y where p: "p = (w, y)" by (cases p)
          show ?thesis
          proof (cases "ws y")
            case Nil
            then show ?thesis unfolding jpairs.simps(2) [of h n s acc] jpairs.simps(2) [of h "Suc n" s acc] using Inr V [OF u, symmetric] p Cons k q e by simp
          next
            case d: (Cons d x)
            have "length y < length (ws u)" using jvalue_length [of h n] Inr p by blast
            then have "2 * length (ws x) + 2 \<le> n" using u ws_Cons_length [OF d] ws_length [of x] by simp
            from P [OF this] show ?thesis unfolding jpairs.simps(2) [of h n s acc] jpairs.simps(2) [of h "Suc n" s acc] using Inr V [OF u, symmetric] p Cons k q e d by simp
          qed
        qed
      qed (simp add: jpairs.simps(2) [of h n "c # t" acc] jpairs.simps(2) [of h "Suc n" "c # t" acc] Cons k q)
    qed (simp add: jpairs.simps(2) [of h n "c # t" acc] jpairs.simps(2) [of h "Suc n" "c # t" acc] Cons)
  qed (simp add: jpairs.simps(2))
  show ?case using 1 2 3 by blast
qed simp

text \<open>The fuel of \<open>json_text\<close> is enough: more fuel never changes the result.\<close>

lemma jvalue_fuel:
  assumes "2 * length s + 1 \<le> n" "n \<le> m" shows "jvalue h m s = jvalue h n s"
  using assms(2)
proof (induction m rule: dec_induct)
  case (step k)
  then show ?case using jvalue_fuel_step [of k h] assms(1) by auto
qed simp

end
