(* ===== verification/PyText.thy ===== *)
theory PyText
  imports PyJson
begin

text \<open>
  The operations on strings, bytes and validated dictionaries that the evidence validators share:
  \<open>bytes.count\<close>, \<open>re.findall\<close> for a matcher, truth values, and typed access to dictionary fields.
\<close>

section \<open>Substrings\<close>

definition endswith :: "string \<Rightarrow> string \<Rightarrow> bool" where
  "endswith p s \<longleftrightarrow> starts (rev p) (rev s)"

text \<open>\<open>needle in haystack\<close>\<close>

fun contains :: "string \<Rightarrow> string \<Rightarrow> bool" where
  "contains p [] = (p = [])"
| "contains p (c # s) = (starts p (c # s) \<or> contains p s)"

text \<open>\<open>re.findall\<close> for a matcher that returns the group and the text after the match.\<close>

fun find_all :: "(string \<Rightarrow> ('a \<times> string) option) \<Rightarrow> string \<Rightarrow> 'a list" where
  "find_all m [] = []"
| "find_all m (c # s) =
     (case m (c # s) of
        Some (v, r) \<Rightarrow> if length r \<le> length s then v # find_all m r else find_all m s
      | None \<Rightarrow> find_all m s)"

declare find_all.simps(2) [simp del]

text \<open>\<open>haystack.count(needle)\<close>, non-overlapping, for a non-empty needle\<close>

definition count_sub :: "string \<Rightarrow> string \<Rightarrow> nat" where
  "count_sub p s = length (find_all (\<lambda>t. if starts p t then Some ((), drop (length p) t) else None) s)"

lemma starts_append [simp]: "starts p (p @ s)"
  by (simp add: starts_def)

lemma starts_iff: "starts p s \<longleftrightarrow> (\<exists>t. s = p @ t)"
  by (metis append_eq_conv_conj append_take_drop_id starts_def)

lemma contains_iff: "contains p s \<longleftrightarrow> (\<exists>a b. s = a @ p @ b)"
proof (induction s)
  case (Cons c s)
  have "contains p (c # s) \<longleftrightarrow> (\<exists>t. c # s = p @ t) \<or> (\<exists>a b. s = a @ p @ b)"
    by (simp add: starts_iff Cons.IH)
  also have "\<dots> \<longleftrightarrow> (\<exists>a b. c # s = a @ p @ b)"
    by (metis append_Cons append_Nil list.inject neq_Nil_conv)
  finally show ?case .
qed simp

lemma find_all_hit: "m s = Some (v, r) \<Longrightarrow> length r < length s \<Longrightarrow> find_all m s = v # find_all m r"
  by (cases s) (auto simp: find_all.simps)

lemma find_all_miss: "m (c # s) = None \<Longrightarrow> find_all m (c # s) = find_all m s"
  by (simp add: find_all.simps)

text \<open>A needle occurs at all exactly when its count is positive.\<close>

lemma count_sub_pos: "p \<noteq> [] \<Longrightarrow> 0 < count_sub p s \<longleftrightarrow> contains p s"
proof (induction s)
  case (Cons c s)
  show ?case
  proof (cases "starts p (c # s)")
    case True
    then have "length (drop (length p) (c # s)) < length (c # s)" using Cons.prems by (cases p) auto
    then show ?thesis using True by (simp add: count_sub_def find_all_hit)
  next
    case False
    then show ?thesis using Cons by (simp add: count_sub_def find_all_miss)
  qed
qed (simp add: count_sub_def)

section \<open>Values\<close>

text \<open>\<open>type(v)\<close>, as a number per constructor\<close>

fun py_type :: "pyval \<Rightarrow> nat" where
  "py_type PNone = 0"
| "py_type (PBool _) = 1"
| "py_type (PInt _) = 2"
| "py_type (PFloat _) = 3"
| "py_type (PStr _) = 4"
| "py_type (PBytes _) = 5"
| "py_type (PList _) = 6"
| "py_type (PTuple _) = 7"
| "py_type (PDict _) = 8"

text \<open>\<open>bool(v)\<close>\<close>

definition truth :: "pyval \<Rightarrow> bool" where
  "truth v = (case v of PNone \<Rightarrow> False | PBool b \<Rightarrow> b | PInt i \<Rightarrow> i \<noteq> 0 | PFloat f \<Rightarrow> \<not> feq f (Fin 0)
     | PStr s \<Rightarrow> s \<noteq> [] | PBytes s \<Rightarrow> s \<noteq> [] | PList vs \<Rightarrow> vs \<noteq> [] | PTuple vs \<Rightarrow> vs \<noteq> [] | PDict d \<Rightarrow> d \<noteq> [])"

text \<open>\<open>v is True\<close>, \<open>v is False\<close>\<close>

definition py_is :: "pyval \<Rightarrow> bool \<Rightarrow> bool" where
  "py_is v b \<longleftrightarrow> v = PBool b"

text \<open>An integer used in arithmetic.\<close>

definition as_int :: "pyval \<Rightarrow> int res" where
  "as_int v = (case v of PInt i \<Rightarrow> Inr i | PBool b \<Rightarrow> Inr (if b then 1 else 0) | _ \<Rightarrow> Inl TypeError)"

definition int_item :: "pyval \<Rightarrow> string \<Rightarrow> int res" where
  "int_item v k = andthen (py_item v k) as_int"

definition has_key :: "string \<Rightarrow> pyval \<Rightarrow> bool" where
  "has_key k v \<longleftrightarrow> k \<in> set (map fst (items v))"

text \<open>\<open>v.get(k)\<close> of a value that may not be a dict\<close>

definition get :: "pyval \<Rightarrow> string \<Rightarrow> pyval res" where
  "get v k = py_get v k PNone"

text \<open>A loop whose body only raises or passes.\<close>

definition check_each :: "('a \<Rightarrow> unit res) \<Rightarrow> 'a list \<Rightarrow> unit res" where
  "check_each f xs = andthen (each f xs) (\<lambda>_. Inr ())"

definition ensure :: "bool res \<Rightarrow> string \<Rightarrow> unit res" where
  "ensure r code = reqr r code (Inr ())"

definition then_do :: "unit res \<Rightarrow> 'a res \<Rightarrow> 'a res" where
  "then_do r k = andthen r (\<lambda>_. k)"

text \<open>Apply a test to a field.\<close>

definition item_is :: "(pyval \<Rightarrow> bool) \<Rightarrow> pyval \<Rightarrow> string \<Rightarrow> bool res" where
  "item_is p v k = andthen (py_item v k) (\<lambda>x. Inr (p x))"

definition get_is :: "(pyval \<Rightarrow> bool) \<Rightarrow> pyval \<Rightarrow> string \<Rightarrow> bool res" where
  "get_is p v k = andthen (get v k) (\<lambda>x. Inr (p x))"

lemma check_each_ok [ok_iff]: "check_each f xs = Inr u \<longleftrightarrow> list_all (\<lambda>x. f x = Inr ()) xs"
  by (auto simp: check_each_def ok_iff list_all2_conv_all_nth list_all_length intro: exI [of _ "replicate (length xs) ()"])

lemma ensure_ok [ok_iff]: "ensure r code = Inr u \<longleftrightarrow> r = Inr True"
  by (auto simp: ensure_def ok_iff)

lemma then_do_ok [ok_iff]: "then_do r k = Inr y \<longleftrightarrow> r = Inr () \<and> k = Inr y"
  by (auto simp: then_do_def ok_iff)

lemma item_is_ok [ok_iff]: "item_is p v k = Inr b \<longleftrightarrow> (\<exists>x. py_item v k = Inr x \<and> b = p x)"
  by (auto simp: item_is_def ok_iff)

lemma get_PDict [simp]: "get (PDict d) k = Inr (case map_of d k of None \<Rightarrow> PNone | Some y \<Rightarrow> y)"
  by (simp add: get_def py_get_def)

lemma get_ok [ok_iff]: "get v k = Inr x \<longleftrightarrow> (\<exists>d. v = PDict d \<and> x = (case map_of d k of None \<Rightarrow> PNone | Some y \<Rightarrow> y))"
  by (cases v) (auto simp: get_def py_get_def)

lemma get_is_ok [ok_iff]: "get_is p v k = Inr b \<longleftrightarrow> (\<exists>x. get v k = Inr x \<and> b = p x)"
  by (auto simp: get_is_def andthen_ok)

end
