(* ===== verification/PyHash.thy ===== *)
theory PyHash
  imports P2p_Prelude "HOL-Library.Word"
begin

unbundle bit_operations_syntax

text \<open>
  \<open>hashlib.sha256(raw).hexdigest()\<close> and \<open>hashlib.sha1(raw).hexdigest()\<close>, as FIPS 180-4 defines
  them, on 32-bit words.  The components use that a digest is 64 (40) lower-case hexadecimal
  digits; nothing is assumed about collisions.
\<close>

type_synonym w32 = "32 word"

definition rotr :: "nat \<Rightarrow> w32 \<Rightarrow> w32" where
  "rotr n x = word_rotr n x"

definition rotl :: "nat \<Rightarrow> w32 \<Rightarrow> w32" where
  "rotl n x = word_rotl n x"

text \<open>The padded message as bytes: 0x80, zeros, the bit length in eight bytes.\<close>

definition be_bytes :: "nat \<Rightarrow> nat \<Rightarrow> nat list" where
  "be_bytes k n = map (\<lambda>i. n div 256 ^ i mod 256) (rev [0..<k])"

definition padded :: "string \<Rightarrow> nat list" where
  "padded s = map cc s @ [128] @ replicate ((119 - length s mod 64) mod 64) 0 @ be_bytes 8 (8 * length s)"

fun chunks :: "nat \<Rightarrow> 'a list \<Rightarrow> 'a list list" where
  "chunks n xs = (if xs = [] \<or> n = 0 then [] else take n xs # chunks n (drop n xs))"

declare chunks.simps [simp del]

definition word_of_bytes :: "nat list \<Rightarrow> w32" where
  "word_of_bytes bs = word_of_nat (foldl (\<lambda>a b. 256 * a + b) 0 bs)"

definition blocks :: "string \<Rightarrow> w32 list list" where
  "blocks s = map (\<lambda>b. map word_of_bytes (chunks 4 b)) (chunks 64 (padded s))"

definition hex_char :: "nat \<Rightarrow> char" where
  "hex_char n = char_of (if n < 10 then 48 + n else 87 + n)"

definition hex_word :: "w32 \<Rightarrow> string" where
  "hex_word w = map (\<lambda>i. hex_char (unat w div 16 ^ i mod 16)) (rev [0..<8])"

section \<open>SHA-256\<close>

text \<open>The constants are the first 32 bits of the fractional parts of the square and cube roots of the
  first primes; \<open>root_bits k b n\<close> is the \<open>k\<close>-th root of \<open>n\<close> rounded down, found bit by bit.\<close>

definition root_bits :: "nat \<Rightarrow> nat \<Rightarrow> nat \<Rightarrow> nat" where
  "root_bits k b n = foldl (\<lambda>r i. if (r + 2 ^ i) ^ k \<le> n then r + 2 ^ i else r) 0 (rev [0..<b])"

definition primes :: "nat list" where
  "primes = filter (\<lambda>n. list_all (\<lambda>d. n mod d \<noteq> 0) [2..<n]) [2..<312]"

definition k256 :: "w32 list" where
  "k256 = map (\<lambda>p. word_of_nat (root_bits 3 40 (p * 2 ^ 96))) primes"

definition h256 :: "w32 list" where
  "h256 = map (\<lambda>p. word_of_nat (root_bits 2 40 (p * 2 ^ 64))) [2, 3, 5, 7, 11, 13, 17, 19]"

text \<open>The message schedule grows to the right; the newest word is the last.\<close>

fun schedule256 :: "nat \<Rightarrow> w32 list \<Rightarrow> w32 list" where
  "schedule256 0 ws = ws"
| "schedule256 (Suc n) ws =
     (let t = length ws; a = ws ! (t - 15); b = ws ! (t - 2);
          s0 = rotr 7 a XOR rotr 18 a XOR drop_bit 3 a;
          s1 = rotr 17 b XOR rotr 19 b XOR drop_bit 10 b
      in schedule256 n (ws @ [ws ! (t - 16) + s0 + ws ! (t - 7) + s1]))"

fun round256 :: "w32 \<times> w32 \<Rightarrow> w32 list \<Rightarrow> w32 list" where
  "round256 (k, w) [a, b, c, d, e, f, g, h] =
     (let t1 = h + (rotr 6 e XOR rotr 11 e XOR rotr 25 e) + ((e AND f) XOR (NOT e AND g)) + k + w;
          t2 = (rotr 2 a XOR rotr 13 a XOR rotr 22 a) + ((a AND b) XOR (a AND c) XOR (b AND c))
      in [t1 + t2, a, b, c, d + t1, e, f, g])"
| "round256 _ st = st"

definition block256 :: "w32 list \<Rightarrow> w32 list \<Rightarrow> w32 list" where
  "block256 st b = map2 (+) st (fold round256 (zip k256 (schedule256 48 b)) st)"

definition sha256 :: "string \<Rightarrow> string" where
  "sha256 s = concat (map hex_word (foldl block256 h256 (blocks s)))"

section \<open>SHA-1\<close>

definition h1 :: "w32 list" where
  "h1 = [0x67452301, 0xefcdab89, 0x98badcfe, 0x10325476, 0xc3d2e1f0]"

fun schedule1 :: "nat \<Rightarrow> w32 list \<Rightarrow> w32 list" where
  "schedule1 0 ws = ws"
| "schedule1 (Suc n) ws =
     (let t = length ws in
      schedule1 n (ws @ [rotl 1 (ws ! (t - 3) XOR ws ! (t - 8) XOR ws ! (t - 14) XOR ws ! (t - 16))]))"

fun round1 :: "nat \<times> w32 \<Rightarrow> w32 list \<Rightarrow> w32 list" where
  "round1 (t, w) [a, b, c, d, e] =
     (let f = (if t < 20 then (b AND c) XOR (NOT b AND d)
               else if 40 \<le> t \<and> t < 60 then (b AND c) XOR (b AND d) XOR (c AND d)
               else b XOR c XOR d);
          k = word_of_nat (root_bits 2 40 ((if t < 20 then 2 else if t < 40 then 3 else if t < 60 then 5 else 10) * 2 ^ 60))
      in [rotl 5 a + f + e + k + w, a, rotl 30 b, c, d])"
| "round1 _ st = st"

definition block1 :: "w32 list \<Rightarrow> w32 list \<Rightarrow> w32 list" where
  "block1 st b = map2 (+) st (fold round1 (zip [0..<80] (schedule1 64 b)) st)"

definition sha1 :: "string \<Rightarrow> string" where
  "sha1 s = concat (map hex_word (foldl block1 h1 (blocks s)))"

section \<open>Digests are hexadecimal\<close>

lemma hex_char_hex: "n < 16 \<Longrightarrow> is_hex (hex_char n)"
  by (simp add: hex_char_def is_hex_def is_digit_def cc_def)

lemma hex_word_hex: "hexn 8 (hex_word w)"
  by (simp add: hexn_def hex_word_def list_all_iff hex_char_hex)

lemma round256_length: "length (round256 kw st) = length st"
  by (induction kw st rule: round256.induct) (simp_all add: Let_def)

lemma fold_round256_length: "length (fold round256 kws st) = length st"
  by (induction kws arbitrary: st) (simp_all add: round256_length)

lemma block256_length: "length (block256 st b) = length st"
  by (simp add: block256_def fold_round256_length)

lemma round1_length: "length (round1 tw st) = length st"
  by (induction tw st rule: round1.induct) (simp_all add: Let_def)

lemma fold_round1_length: "length (fold round1 tws st) = length st"
  by (induction tws arbitrary: st) (simp_all add: round1_length)

lemma block1_length: "length (block1 st b) = length st"
  by (simp add: block1_def fold_round1_length)

lemma concat_hex: "hexn (8 * length ws) (concat (map hex_word ws))"
  using hex_word_hex by (induction ws) (auto simp: hexn_def)

lemma foldl_length: "(\<And>st b. length (f st b) = length st) \<Longrightarrow> length (foldl f st bs) = length st"
  by (induction bs arbitrary: st) auto

lemma sha256_hex: "hexn 64 (sha256 s)"
  using concat_hex [of "foldl block256 h256 (blocks s)"] foldl_length [of block256 h256 "blocks s"] block256_length
  by (simp add: sha256_def h256_def)

lemma sha1_hex: "hexn 40 (sha1 s)"
  using concat_hex [of "foldl block1 h1 (blocks s)"] foldl_length [of block1 h1 "blocks s"] block1_length
  by (simp add: sha1_def h1_def)

end
