(* ===== verification/PyCheck.thy ===== *)
theory PyCheck
  imports PyText PyHash
begin

text \<open>
  The vocabulary of the record validators: comparisons of fields, membership in literal tuples and
  dicts (a membership test of an unhashable value raises), dict merging, fixed-shape regular
  expressions, and the canonical record codec that most of the scripts define again for themselves.
\<close>

section \<open>Fields\<close>

text \<open>\<open>v[k] == w\<close> and \<open>v.get(k) == w\<close>\<close>

definition item_eq :: "pyval \<Rightarrow> string \<Rightarrow> pyval \<Rightarrow> bool res" where
  "item_eq v k w = item_is (\<lambda>x. py_eq x w) v k"

definition get_eq :: "pyval \<Rightarrow> string \<Rightarrow> pyval \<Rightarrow> bool res" where
  "get_eq v k w = get_is (\<lambda>x. py_eq x w) v k"

text \<open>\<open>a == b\<close> for two expressions that may raise, evaluated from the left\<close>

definition eq_res :: "pyval res \<Rightarrow> pyval res \<Rightarrow> bool res" where
  "eq_res a b = andthen a (\<lambda>x. andthen b (\<lambda>y. Inr (py_eq x y)))"

text \<open>\<open>require(a and b and ..., code)\<close>, then the rest\<close>

definition check :: "bool res list \<Rightarrow> string \<Rightarrow> 'a res \<Rightarrow> 'a res" where
  "check cs code k = reqr (allof cs) code k"

text \<open>\<open>type(v[k]) is int and v[k] == 1\<close>, the schema field of the records\<close>

definition int_is :: "int \<Rightarrow> pyval \<Rightarrow> bool" where
  "int_is i v = int_and (\<lambda>j. j = i) v"

text \<open>\<open>type(v) is str and re.fullmatch("[0-9a-f]{n}", v)\<close>\<close>

definition hexs :: "nat \<Rightarrow> pyval \<Rightarrow> bool" where
  "hexs n v = str_and (hexn n) v"

definition str_is :: "string \<Rightarrow> pyval \<Rightarrow> bool" where
  "str_is s v \<longleftrightarrow> v = PStr s"

text \<open>\<open>v[k1][k2]...\<close> and a string field used with \<open>+\<close>\<close>

fun path :: "pyval \<Rightarrow> string list \<Rightarrow> pyval res" where
  "path v [] = Inr v"
| "path v (k # ks) = andthen (py_item v k) (\<lambda>x. path x ks)"

definition as_str :: "pyval \<Rightarrow> string res" where
  "as_str v = (case v of PStr s \<Rightarrow> Inr s | _ \<Rightarrow> Inl TypeError)"

definition str_item :: "pyval \<Rightarrow> string \<Rightarrow> string res" where
  "str_item v k = andthen (py_item v k) as_str"

definition strs :: "string list \<Rightarrow> pyval" where
  "strs xs = PList (map PStr xs)"

text \<open>\<open>v.values()\<close>\<close>

definition dict_values :: "pyval \<Rightarrow> pyval list res" where
  "dict_values v = (case v of PDict d \<Rightarrow> Inr (map snd d) | _ \<Rightarrow> Inl AttributeError)"

definition dict_items :: "pyval \<Rightarrow> (string \<times> pyval) list res" where
  "dict_items v = (case v of PDict d \<Rightarrow> Inr d | _ \<Rightarrow> Inl AttributeError)"

text \<open>\<open>{**v, k: w, ...}\<close> of a dict\<close>

definition dict_with :: "pyval \<Rightarrow> (string \<times> pyval) list \<Rightarrow> pyval res" where
  "dict_with v kws = (case v of
      PDict d \<Rightarrow> Inr (PDict (foldl (\<lambda>d (k, w). dict_insert k w d) d kws))
    | _ \<Rightarrow> Inl TypeError)"

section \<open>Hashing\<close>

fun hashable :: "pyval \<Rightarrow> bool" where
  "hashable (PList _) = False"
| "hashable (PDict _) = False"
| "hashable (PTuple vs) = list_all hashable vs"
| "hashable _ = True"

text \<open>\<open>v in d\<close> for a dict or set of strings\<close>

definition in_keys :: "pyval \<Rightarrow> string list \<Rightarrow> bool res" where
  "in_keys v ks = (if hashable v then Inr (str_and (\<lambda>s. s \<in> set ks) v) else Inl TypeError)"

text \<open>\<open>d.get(k, x)\<close> for a key that need not be a string\<close>

definition get_by :: "pyval \<Rightarrow> pyval \<Rightarrow> pyval \<Rightarrow> pyval res" where
  "get_by d k x = (case k of
      PStr s \<Rightarrow> py_get d s x
    | _ \<Rightarrow> if \<not> is_dict d then Inl AttributeError else if hashable k then Inr x else Inl TypeError)"

fun distinct_eq :: "pyval list \<Rightarrow> bool" where
  "distinct_eq [] = True"
| "distinct_eq (v # vs) = (\<not> py_in v vs \<and> distinct_eq vs)"

text \<open>\<open>len(set(vs)) == len(vs)\<close>\<close>

definition distinct_vals :: "pyval list \<Rightarrow> bool res" where
  "distinct_vals vs = (if list_all hashable vs then Inr (distinct_eq vs) else Inl TypeError)"

section \<open>Text\<close>

text \<open>Python's blank ASCII characters, and \<open>str.strip()\<close> of ASCII text.\<close>

definition py_space :: "char \<Rightarrow> bool" where
  "py_space c \<longleftrightarrow> cc c = 32 \<or> 9 \<le> cc c \<and> cc c \<le> 13 \<or> 28 \<le> cc c \<and> cc c \<le> 31"

definition strip :: "string \<Rightarrow> string" where
  "strip s = strip_right py_space (strip_left py_space s)"

text \<open>A fixed-width pattern: \<open>#\<close> is a decimal digit, \<open>X\<close> one of \<open>0-9A-F\<close>, everything else itself.\<close>

definition fits :: "char \<Rightarrow> char \<Rightarrow> bool" where
  "fits p c = (if p = CHR ''#'' then is_digit c
     else if p = CHR ''X'' then is_digit c \<or> 65 \<le> cc c \<and> cc c \<le> 70
     else c = p)"

definition shape :: "string \<Rightarrow> string \<Rightarrow> bool" where
  "shape p s = list_all2 fits p s"

section \<open>Canonical records\<close>

text \<open>\<open>json.dumps(value, sort_keys=True, separators=(",", ":"), ensure_ascii=True, allow_nan=False) + "\n"\<close>\<close>

definition record_text :: "pyval \<Rightarrow> string res" where
  "record_text v = andthen (json_dumps v) (\<lambda>x. Inr (x @ [CHR 0x0A]))"

text \<open>A record written by the codec is read back in canonical order by every strict reader.\<close>

lemma record_read_back:
  assumes "jok v" "record_text v = Inr raw" "good_hooks h"
  shows "json_loads_bytes h raw = Inr (canon v)"
proof -
  obtain x where "json_dumps v = Inr x" "raw = x @ [CHR 0x0A]"
    using assms(2) by (auto simp: record_text_def ok_iff)
  moreover obtain y where "json_dumps v = Inr y"
    "\<And>t. list_all json_space t \<Longrightarrow> json_loads_bytes h (y @ t) = Inr (canon v)"
    using json_roundtrip [OF assms(1,3)] by blast
  ultimately show ?thesis by (simp add: json_space_def)
qed

section \<open>When the tests succeed\<close>

lemma item_eq_ok [ok_iff]: "item_eq v k w = Inr b \<longleftrightarrow> (\<exists>x. py_item v k = Inr x \<and> b = py_eq x w)"
  by (auto simp: item_eq_def item_is_ok)

lemma get_eq_ok [ok_iff]: "get_eq v k w = Inr b \<longleftrightarrow> (\<exists>x. get v k = Inr x \<and> b = py_eq x w)"
  by (auto simp: get_eq_def get_is_ok)

lemma eq_res_ok [ok_iff]: "eq_res a b = Inr c \<longleftrightarrow> (\<exists>x y. a = Inr x \<and> b = Inr y \<and> c = py_eq x y)"
  by (auto simp: eq_res_def andthen_ok)

lemma as_str_ok [ok_iff]: "as_str v = Inr s \<longleftrightarrow> v = PStr s"
  by (cases v) (auto simp: as_str_def)

lemma check_ok [ok_iff]: "check cs code k = Inr y \<longleftrightarrow> list_all (\<lambda>c. c = Inr True) cs \<and> k = Inr y"
  by (simp add: check_def reqr_ok allof_ok)

lemma in_keys_ok: "in_keys v ks = Inr True \<longleftrightarrow> (\<exists>s. v = PStr s \<and> s \<in> set ks)"
  by (auto simp: in_keys_def str_and_iff)

lemma int_is_iff [simp]: "int_is i v \<longleftrightarrow> v = PInt i"
  by (auto simp: int_is_def int_and_iff)

lemma py_eq_PStr [simp]: "py_eq v (PStr s) \<longleftrightarrow> v = PStr s"
  by (cases v) (auto simp: num_eq_def num_val_def)

lemma py_eq_PNone [simp]: "py_eq v PNone \<longleftrightarrow> v = PNone"
  by (cases v) (auto simp: num_eq_def num_val_def)

lemma py_eq_PBool: "is_bool v \<Longrightarrow> py_eq v (PBool b) \<longleftrightarrow> v = PBool b"
  by (auto simp: type_iff num_eq_def num_val_def float_unit_def split: if_splits)

end
