(* ===== verification/Win_Evidence.thy ===== *)
theory Win_Evidence
  imports PyCheck
begin

text \<open>
  The Windows experiment readback checks, \<^verbatim>\<open>src/scripts/rpc_windows_environment_evidence.py\<close>: the strict
  JSON loader and comparison, the contracts read out of the verified wrapper bytes, and the
  validators of the controller-death, atomic-logon, profile and known-handle evidence.

  A loop over a frozenset is a loop over a list of its elements: every check of such a loop has the
  same message, so the order cannot be observed.  Receipts and observations are arbitrary values.

  The lemmas show that the comparison accepts exactly the float-free values with the same canonical
  JSON text, that the diagnostic reader with its three regular expressions reads line by line, that a
  contract never mixes the two observer generations, and what a receipt must contain before a \<open>PASS\<close> is
  accepted.
\<close>

section \<open>Constants\<close>

definition SNAPSHOT_SCOPE :: string where
  "SNAPSHOT_SCOPE = ''ONE_PARENT_ENUMERATION_NOT_STABILIZED_ABSENCE_OR_ACCEPTANCE''"

definition DIAGNOSTIC_RETIRE_MARKER :: string where
  "DIAGNOSTIC_RETIRE_MARKER = ''$diagnosticRetireOnMiss = $true''"

definition EXACT_LOOKUP_METHOD :: string where
  "EXACT_LOOKUP_METHOD = ''EXACT_RELATIVE_SID_LOOKUP_POINT_IN_TIME''"

definition EXACT_LOOKUP_MARKER :: string where
  "EXACT_LOOKUP_MARKER = ''hiveObserverMethod = '' @ [CHR 0x27] @ EXACT_LOOKUP_METHOD @ [CHR 0x27]"

definition EXACT_LOOKUP_CONTROL_SUFFIX :: string where
  "EXACT_LOOKUP_CONTROL_SUFFIX = '' inert exact-SID lookup/ownership controls; NOT Windows runtime evidence''"

definition EXACT_LOOKUP_CONTROL_COUNTS :: "int list" where
  "EXACT_LOOKUP_CONTROL_COUNTS = [31]"

definition EXACT_LOOKUP_BOOLEANS :: "string list" where
  "EXACT_LOOKUP_BOOLEANS =
     [''hiveAbsentBefore'', ''hiveLoadedBeforeResume'', ''hiveAbsentAfterExit'', ''hiveObserverRetired'']"

definition EXACT_LOOKUP_NUMBERS :: "string list" where
  "EXACT_LOOKUP_NUMBERS =
     [''hiveBeforeStatus'', ''hiveLoadedStatus'', ''hiveAfterStatus'', ''hiveParentOpenStatus'', ''hiveLastLookupStatus'',
      ''hiveParentCloseStatus'', ''hiveChildCloseStatus'', ''hiveObserverSystemError'', ''hiveLookups'', ''hivePresences'',
      ''hiveAbsences'', ''hiveChildCloses'']"

definition EXACT_LOOKUP_ONLY_FIELDS :: "string list" where
  "EXACT_LOOKUP_ONLY_FIELDS =
     filter (\<lambda>f. f \<noteq> ''hiveAbsentBefore'' \<and> f \<noteq> ''hiveLoadedBeforeResume'') EXACT_LOOKUP_BOOLEANS
     @ EXACT_LOOKUP_NUMBERS @ [''hiveObserverMethod'']"

definition HISTORICAL_HIVE_FIELDS :: "string list" where
  "HISTORICAL_HIVE_FIELDS = [''hiveUnloadedAfterExit'', ''hiveQueryError'', ''hiveCloseError'', ''hiveObservations'']"

definition STATUS_OBJECT_NAME_NOT_FOUND :: int where
  "STATUS_OBJECT_NAME_NOT_FOUND = 0xc0000034"

definition HANDLE_SCOPE :: string where
  "HANDLE_SCOPE = ''THREE_BROKER_VALUES_ONLY_NOT_EXHAUSTIVE''"

definition CONTROL_SUFFIX :: string where
  "CONTROL_SUFFIX = '' inert parent-namespace/notification ownership controls; NOT Windows runtime evidence''"

definition HANDLE_KEYS :: "string list" where
  "HANDLE_KEYS =
     [''knownHandleAuditScope'', ''knownHandleAuditPassed'', ''knownHandleChecked'', ''knownHandleAbsent'',
      ''knownHandleReused'', ''knownHandleLeaked'', ''knownHandleError'', ''knownHandleHelperControlsPassed'']"

definition CONTROLLER_DEATH_SCOPE :: string where
  "CONTROLLER_DEATH_SCOPE = ''CONTROLLER_DEATH_POST_RETURN_GATE_NOT_INFLIGHT_OR_PROTECTED_SUPERVISION''"

definition CONTROLLER_DEATH_MARKER :: string where
  "CONTROLLER_DEATH_MARKER = ''$result.controllerDeathControl = $null''"

definition CONTROLLER_DEATH_TRUE :: "string list" where
  "CONTROLLER_DEATH_TRUE =
     [''accountAcknowledged'', ''accountDisabledObserved'', ''controllerCreated'', ''controllerAtomicOuterAdmission'',
      ''auditedGateObserved'', ''brokerHandlePulled'', ''childHandlePulled'', ''controllerDeathInjected'',
      ''controllerExitObserved'', ''brokerExitObserved'', ''childExitObserved'', ''outerJobOpenDuringObservation'',
      ''outerJobEmptyObserved'', ''cleanupObserved'']"

definition CONTROLLER_DEATH_FALSE :: "string list" where
  "CONTROLLER_DEATH_FALSE =
     [''explicitFailureTermination'', ''privateJobDuplicated'', ''profileRequested'', ''nativeStorageExecuted'',
      ''inFlightCreationQualified'', ''protectedSupervisorQualified'']"

definition CONTROLLER_DEATH_NUMBERS :: "string list" where
  "CONTROLLER_DEATH_NUMBERS =
     [''mode'', ''result'', ''stage'', ''systemCode'', ''controllerExit'', ''brokerExit'', ''childExit'',
      ''knownHandleChecked'', ''knownHandleAbsent'', ''knownHandleReused'']"

definition ATOMIC_LOGON_SCOPE :: string where
  "ATOMIC_LOGON_SCOPE = ''ATOMIC_LOGON_JOB_LIST_API_PROBE_NOT_PROTECTED_SUPERVISION''"

definition ATOMIC_LOGON_TRUE :: "string list" where
  "ATOMIC_LOGON_TRUE =
     [''accountCreated'', ''accountEnabled'', ''accountDisabledObserved'', ''creationAttempted'', ''startupInfoExRequested'',
      ''jobListRequested'', ''created'', ''memberBeforeResume'', ''tokenMatched'', ''resumed'', ''childExecuted'',
      ''childExitObserved'', ''jobEmptyObserved'', ''cleanupObserved'']"

definition ATOMIC_LOGON_FALSE :: "string list" where
  "ATOMIC_LOGON_FALSE =
     [''explicitFailureCleanup'', ''profileRequested'', ''nativeStorageExecuted'', ''inFlightCreationQualified'',
      ''protectedSupervisorQualified'']"

definition ATOMIC_LOGON_NUMBERS :: "string list" where
  "ATOMIC_LOGON_NUMBERS =
     [''result'', ''stage'', ''systemCode'', ''childExit'', ''finalJobActiveProcesses'', ''jobObservations'']"

section \<open>JSON\<close>

definition load_json :: "string \<Rightarrow> pyval res" where
  "load_json raw =
     json_loads_bytes (strict_hooks (Refused ''Duplicate JSON field'') (Refused ''Non-JSON numeric value'')) raw"

fun require_same_json :: "pyval \<Rightarrow> pyval \<Rightarrow> unit res"
  and same_list :: "pyval list \<Rightarrow> pyval list \<Rightarrow> unit res"
  and same_dict :: "(string \<times> pyval) list \<Rightarrow> (string \<times> pyval) list \<Rightarrow> unit res" where
  "require_same_json (PDict d) c =
     req (py_type (PDict d) = py_type c) ''Evidence JSON type mismatch'' (
     req (set (map fst d) = set (map fst (items c))) ''Evidence JSON fields differ'' (same_dict d (items c)))"
| "require_same_json (PList vs) c =
     req (py_type (PList vs) = py_type c) ''Evidence JSON type mismatch'' (
     req (length vs = length (elems c)) ''Evidence JSON list size differs'' (same_list vs (elems c)))"
| "require_same_json a c =
     req (py_type a = py_type c) ''Evidence JSON type mismatch'' (
     req (py_eq a c) ''Evidence JSON value differs'' (Inr ()))"
| "same_list [] cs = Inr ()"
| "same_list (v # vs) cs = (case cs of [] \<Rightarrow> Inr ()
     | c # cs' \<Rightarrow> then_do (require_same_json v c) (same_list vs cs'))"
| "same_dict [] e = Inr ()"
| "same_dict ((k, v) # d) e = (case map_of e k of None \<Rightarrow> Inl KeyError
     | Some w \<Rightarrow> then_do (require_same_json v w) (same_dict d e))"

definition unsigned_max :: "int \<Rightarrow> pyval \<Rightarrow> bool" where
  "unsigned_max m v = int_and (\<lambda>i. 0 \<le> i \<and> i \<le> m) v"

definition unsigned :: "pyval \<Rightarrow> bool" where
  "unsigned v = unsigned_max 0xffffffff v"

section \<open>Contracts\<close>

record ProfileContract =
  observer_controls :: "int option"
  phases :: bool
  snapshot :: bool
  diagnostic_retire_on_miss :: bool
  exact_lookup :: bool

text \<open>\<open>PASS ([0-9]{1,3})\<close> followed by a suffix that starts with a blank\<close>

definition pass_count :: "string \<Rightarrow> string \<Rightarrow> (int \<times> string) option" where
  "pass_count suffix s =
     (if starts ''PASS '' s then
        let ds = takeWhile is_digit (drop 5 s) in
        if 1 \<le> length ds \<and> length ds \<le> 3 \<and> starts suffix (drop (5 + length ds) s)
        then Some (int_of_digits ds, drop (5 + length ds + length suffix) s) else None
      else None)"

definition wrapper_bytes :: "pyval \<Rightarrow> (string \<Rightarrow> 'a res) \<Rightarrow> 'a res" where
  "wrapper_bytes w k = (case w of
      PBytes raw \<Rightarrow> req (len raw \<le> 65536) ''Invalid wrapper bytes'' (k raw)
    | _ \<Rightarrow> Inl (Refused ''Invalid wrapper bytes''))"

definition exact_contract :: "string \<Rightarrow> int list \<Rightarrow> int list \<Rightarrow> nat \<Rightarrow> ProfileContract res" where
  "exact_contract raw counts exact_counts exact_markers =
     req (exact_markers = 1 \<and> length exact_counts = 1 \<and> counts = []) ''Missing/ambiguous exact lookup contract'' (
     req (hd exact_counts \<in> set EXACT_LOOKUP_CONTROL_COUNTS) ''Unreviewed exact lookup control inventory'' (
     then_do (check_each (\<lambda>obsolete. ensure (Inr (\<not> contains obsolete raw))
                ''Mixed exact lookup and historical observer contract'')
              [''hiveObserverPhases'', ''hiveObserverSnapshot'', ''diagnosticRetireOnMiss''])
       (Inr \<lparr>observer_controls = Some (hd exact_counts), phases = False, snapshot = False,
             diagnostic_retire_on_miss = False, exact_lookup = True\<rparr>)))"

definition historical_contract :: "string \<Rightarrow> int list \<Rightarrow> ProfileContract res" where
  "historical_contract raw counts =
     req (length counts \<le> 1) ''Ambiguous observer control count'' (
     let count = (case counts of [] \<Rightarrow> None | c # _ \<Rightarrow> Some c) in
     req (count \<in> set [None, Some 18, Some 32, Some 33, Some 42]) ''Unreviewed observer control inventory'' (
     let ph = count_sub ''$result.hiveObserverPhases ='' raw;
         sn = count_sub ''$result.hiveObserverSnapshot = $null'' raw in
     req (ph \<le> 1 \<and> sn \<le> 1 \<and> sn \<le> ph) ''Ambiguous diagnostic contract'' (
     let diagnostic = count_sub DIAGNOSTIC_RETIRE_MARKER raw in
     req (diagnostic \<le> 1 \<and> ((diagnostic \<noteq> 0) = (count = Some 42))) ''Unreviewed diagnostic retirement contract'' (
     req (diagnostic = 0 \<or> sn \<noteq> 0) ''Diagnostic retirement requires snapshot evidence'' (
     Inr \<lparr>observer_controls = count, phases = (ph \<noteq> 0), snapshot = (sn \<noteq> 0),
          diagnostic_retire_on_miss = (diagnostic \<noteq> 0), exact_lookup = False\<rparr>)))))"

definition profile_contract :: "pyval \<Rightarrow> ProfileContract res" where
  "profile_contract verified_wrapper = wrapper_bytes verified_wrapper (\<lambda>raw.
     let counts = find_all (pass_count CONTROL_SUFFIX) raw;
         exact_counts = find_all (pass_count EXACT_LOOKUP_CONTROL_SUFFIX) raw in
     if exact_counts \<noteq> [] \<or> contains ''hiveObserverMethod'' raw \<or> contains EXACT_LOOKUP_CONTROL_SUFFIX raw
     then exact_contract raw counts exact_counts (count_sub EXACT_LOOKUP_MARKER raw)
     else historical_contract raw counts)"

definition known_handles_required :: "pyval \<Rightarrow> bool res" where
  "known_handles_required verified_wrapper = wrapper_bytes verified_wrapper (\<lambda>raw.
     let checks = count_sub (''$record.knownHandleAuditScope -cne '' @ [CHR 0x27] @ HANDLE_SCOPE @ [CHR 0x27]) raw in
     req (checks \<le> 1) ''Ambiguous known-handle contract'' (
     req (contains ''knownHandleAuditScope'' raw = (checks = 1)) ''Partial known-handle contract'' (
     Inr (checks = 1))))"

definition controller_death_required :: "pyval \<Rightarrow> bool res" where
  "controller_death_required verified_wrapper = wrapper_bytes verified_wrapper (\<lambda>raw.
     let markers = count_sub CONTROLLER_DEATH_MARKER raw;
         scopes = count_sub CONTROLLER_DEATH_SCOPE raw;
         invocation = count_sub ([CHR 0x27] @ ''--disposable-inheritance-controller-death-probe'' @ [CHR 0x27]) raw in
     req (markers \<le> 1 \<and> scopes = markers \<and> invocation = markers) ''Partial/ambiguous controller-death source contract'' (
     req (contains ''controllerDeathControl'' raw = (markers \<noteq> 0)) ''Incomplete controller-death source contract'' (
     Inr (markers = 1))))"

section \<open>Controller death\<close>

text \<open>The checks of the boolean and numeric fields of an observation.\<close>

definition bool_fields :: "pyval \<Rightarrow> string list \<Rightarrow> string \<Rightarrow> unit res" where
  "bool_fields ob fs code = check_each (\<lambda>f. ensure (item_is is_bool ob f) code) fs"

definition number_fields :: "pyval \<Rightarrow> string list \<Rightarrow> string \<Rightarrow> unit res" where
  "number_fields ob fs code = check_each (\<lambda>f. ensure (item_is unsigned ob f) code) fs"

definition equal_fields :: "pyval \<Rightarrow> (string \<times> int) list \<Rightarrow> string \<Rightarrow> unit res" where
  "equal_fields ob fvs code = check_each (\<lambda>(f, i). ensure (item_is (\<lambda>x. py_eq x (PInt i)) ob f) code) fvs"

definition death_passed :: "pyval \<Rightarrow> unit res" where
  "death_passed ob =
     then_do (ensure (allof (map (item_is truth ob) CONTROLLER_DEATH_TRUE)) ''Incomplete automatic death retirement'') (
     then_do (ensure (allof (map (item_is (\<lambda>x. \<not> truth x) ob) CONTROLLER_DEATH_FALSE))
       ''Explicit containment or unrelated qualification cannot pass'') (
     then_do (equal_fields ob [(''result'', 0), (''stage'', 6), (''systemCode'', 0), (''controllerExit'', 126),
       (''knownHandleChecked'', 3)] ''Controller-death completion mismatch'') (
     then_do (ensure (allof
         [item_is (\<lambda>x. \<not> py_in x (map PInt [124, 125, 259, 0xc0000409])) ob ''brokerExit'',
          item_is (\<lambda>x. \<not> py_in x (map PInt [42, 259])) ob ''childExit''])
       ''Controller-death descendants remained live or payload ran'')
     (ensure (andthen (int_item ob ''knownHandleAbsent'') (\<lambda>a. andthen (int_item ob ''knownHandleReused'') (\<lambda>r. Inr (a + r = 3))))
       ''Controller-death known-handle accounting''))))"

definition validate_controller_death_observation :: "pyval \<Rightarrow> bool \<Rightarrow> unit res" where
  "validate_controller_death_observation ob require_pass =
     req (closed_dict ob (CONTROLLER_DEATH_TRUE @ CONTROLLER_DEATH_FALSE @ CONTROLLER_DEATH_NUMBERS @ [''scope'']))
       ''Controller-death observation fields'' (
     then_do (ensure (item_is (str_and (\<lambda>s. s = CONTROLLER_DEATH_SCOPE)) ob ''scope'') ''Controller-death scope escalation'') (
     then_do (bool_fields ob (CONTROLLER_DEATH_TRUE @ CONTROLLER_DEATH_FALSE) ''Controller-death boolean type'') (
     then_do (number_fields ob CONTROLLER_DEATH_NUMBERS ''Controller-death number type/range'') (
     then_do (ensure (item_is (\<lambda>x. py_eq x (PInt 2)) ob ''mode'') ''Wrong controller-death mode'') (
     if \<not> require_pass then Inr () else death_passed ob)))))"

text \<open>The process record shared by the completions: five exact booleans, exit code 0, elapsed time.\<close>

definition execution_passed :: "pyval \<Rightarrow> int \<Rightarrow> string \<Rightarrow> string \<Rightarrow> string \<Rightarrow> unit res" where
  "execution_passed execution limit failed exit_code deadline =
     then_do (check_each (\<lambda>(k, b). ensure (get_is (\<lambda>x. py_is x b) execution k) failed)
       [(''passed'', True), (''processExitObserved'', True), (''finalizationCompleted'', True),
        (''timedOut'', False), (''outputExceeded'', False)]) (
     then_do (ensure (allof [get_is is_int execution ''exitCode'', item_is (\<lambda>x. py_eq x (PInt 0)) execution ''exitCode'']) exit_code)
     (ensure (get_is (unsigned_max limit) execution ''elapsedMs'') deadline))"

definition validate_controller_death_completion :: "pyval \<Rightarrow> bool \<Rightarrow> pyval res" where
  "validate_controller_death_completion receipt required =
     req (is_dict receipt) ''Invalid inheritance receipt'' (
     if \<not> required then
       req (\<not> has_key ''controllerDeathControl'' receipt) ''Historical receipt cannot claim controller death'' (Inr PNone)
     else
     andthen (get_is (\<lambda>x. py_eq x (PStr ''PASS'')) receipt ''result'') (\<lambda>require_pass.
     andthen (get receipt ''controllerDeathControl'') (\<lambda>control.
     if control = PNone then
       req (\<not> require_pass) ''Missing mandatory controller-death control'' (Inr PNone)
     else
     req (is_dict control) ''Invalid controller-death control'' (
     andthen (get control ''observation'') (\<lambda>observation.
     then_do (if observation = PNone then Inr () else validate_controller_death_observation observation require_pass) (
     if \<not> require_pass then Inr observation
     else
       req (closed_dict control [''execution'', ''observation''] \<and> is_dict observation)
         ''Incomplete controller-death receipt'' (
       andthen (py_item control ''execution'') (\<lambda>execution.
       req (is_dict execution) ''Invalid controller-death execution'' (
       then_do (execution_passed execution 69999 ''Controller-death execution failed'' ''Controller-death exit mismatch''
         ''Controller-death deadline exceeded'') (Inr observation))))))))))"

section \<open>Atomic logon\<close>

definition logon_passed :: "pyval \<Rightarrow> unit res" where
  "logon_passed ob =
     then_do (ensure (allof (map (item_is truth ob) ATOMIC_LOGON_TRUE)) ''Incomplete atomic logon observation'') (
     then_do (ensure (allof (map (item_is (\<lambda>x. \<not> truth x) ob) ATOMIC_LOGON_FALSE)) ''Forbidden atomic logon substitute'') (
     then_do (equal_fields ob [(''result'', 0), (''stage'', 10), (''systemCode'', 0), (''childExit'', 42),
       (''finalJobActiveProcesses'', 0)] ''Atomic logon completion mismatch'')
     (ensure (andthen (int_item ob ''jobObservations'') (\<lambda>n. Inr (1 \<le> n \<and> n \<le> 65536)))
       ''Atomic logon empty-job observation bound'')))"

definition validate_atomic_logon_observation :: "pyval \<Rightarrow> bool \<Rightarrow> unit res" where
  "validate_atomic_logon_observation ob require_pass =
     req (closed_dict ob (ATOMIC_LOGON_TRUE @ ATOMIC_LOGON_FALSE @ ATOMIC_LOGON_NUMBERS @ [''scope'', ''launchApi'']))
       ''Atomic logon observation fields'' (
     then_do (ensure (allof [item_is (str_and (\<lambda>s. s = ATOMIC_LOGON_SCOPE)) ob ''scope'',
         item_is (str_and (\<lambda>s. s = ''CreateProcessWithLogonW'')) ob ''launchApi''])
       ''Atomic logon API/scope mismatch'') (
     then_do (bool_fields ob (ATOMIC_LOGON_TRUE @ ATOMIC_LOGON_FALSE) ''Atomic logon boolean type'') (
     then_do (number_fields ob ATOMIC_LOGON_NUMBERS ''Atomic logon number type/range'') (
     if \<not> require_pass then Inr () else logon_passed ob))))"

definition validate_atomic_logon_completion :: "pyval \<Rightarrow> pyval \<Rightarrow> unit res" where
  "validate_atomic_logon_completion receipt ob =
     then_do (ensure (allof [Inr (is_dict receipt), get_is (\<lambda>x. py_eq x (PStr ATOMIC_LOGON_SCOPE)) receipt ''scope''])
       ''Atomic logon receipt scope'') (
     andthen (get_is (\<lambda>x. py_eq x (PStr ''PASS'')) receipt ''result'') (\<lambda>require_pass.
     if ob = PNone then req (\<not> require_pass) ''Missing mandatory atomic logon observation'' (Inr ())
     else
     then_do (validate_atomic_logon_observation ob require_pass) (
     if \<not> require_pass then Inr ()
     else
     andthen (get receipt ''execution'') (\<lambda>execution.
     req (is_dict execution) ''Missing atomic logon execution'' (
     execution_passed execution 69999 ''Atomic logon execution failed'' ''Atomic logon exit mismatch''
       ''Atomic logon execution deadline'')))))"

section \<open>Hive diagnostics\<close>

definition HIVE_PHASE :: string where
  "HIVE_PHASE = ''P2PKIT_HIVE_PHASE ''"

definition HIVE_SNAPSHOT :: string where
  "HIVE_SNAPSHOT = ''P2PKIT_HIVE_SNAPSHOT ''"

definition digit_in :: "nat \<Rightarrow> nat \<Rightarrow> char \<Rightarrow> bool" where
  "digit_in a b c \<longleftrightarrow> 48 + a \<le> cc c \<and> cc c \<le> 48 + b"

text \<open>\<open>P2PKIT_HIVE_PHASE ([1-8])\<close>\<close>

definition match_phase :: "string \<Rightarrow> (int \<times> string) option" where
  "match_phase s =
     (if starts HIVE_PHASE s then
        (case drop (length HIVE_PHASE) s of
           c # t \<Rightarrow> if digit_in 1 8 c then Some (digit_val c, t) else None
         | [] \<Rightarrow> None)
      else None)"

text \<open>\<open>P2PKIT_HIVE_SNAPSHOT ([1-3]) ([0-9]{1,10})\<close>, the digits greedily\<close>

definition match_snapshot :: "string \<Rightarrow> ((int \<times> int) \<times> string) option" where
  "match_snapshot s =
     (if starts HIVE_SNAPSHOT s then
        (case drop (length HIVE_SNAPSHOT) s of
           c # d # t \<Rightarrow>
             let ds = take 10 (takeWhile is_digit t) in
             if digit_in 1 3 c \<and> d = CHR '' '' \<and> ds \<noteq> []
             then Some ((digit_val c, int_of_digits ds), drop (length ds) t) else None
         | _ \<Rightarrow> None)
      else None)"

text \<open>\<open>\r?\n\<close>\<close>

definition line_end :: "string \<Rightarrow> string option" where
  "line_end s = (case s of [] \<Rightarrow> None
     | c # t \<Rightarrow> if c = CHR 0x0A then Some t
       else if c = CHR 0x0D \<and> t \<noteq> [] \<and> hd t = CHR 0x0A then Some (tl t) else None)"

definition hive_line :: "string \<Rightarrow> string option" where
  "hive_line s = (case match_phase s of
      Some (_, r) \<Rightarrow> line_end r
    | None \<Rightarrow> (case match_snapshot s of Some (_, r) \<Rightarrow> line_end r | None \<Rightarrow> None))"

text \<open>The repeated group with its bound, over the whole text.\<close>

fun hive_lines :: "nat \<Rightarrow> string \<Rightarrow> bool" where
  "hive_lines 0 s = (s = [])"
| "hive_lines (Suc n) s = (s = [] \<or> (case hive_line s of None \<Rightarrow> False | Some r \<Rightarrow> hive_lines n r))"

record hive_snapshot =
  state :: int
  status :: int

definition snapshot_value :: "hive_snapshot option \<Rightarrow> pyval" where
  "snapshot_value sn = (case sn of None \<Rightarrow> PNone
     | Some x \<Rightarrow> PDict [(''state'', PInt (state x)), (''status'', PInt (status x)), (''scope'', PStr SNAPSHOT_SCOPE)])"

definition consistent_snapshot :: "int \<Rightarrow> int \<Rightarrow> bool" where
  "consistent_snapshot st code \<longleftrightarrow>
     st = 1 \<and> code = 0 \<or> st = 2 \<and> code = 259 \<or> st = 3 \<and> code \<noteq> 0 \<and> code \<noteq> 259"

definition parse_hive_diagnostics :: "pyval \<Rightarrow> (int list \<times> hive_snapshot option) res" where
  "parse_hive_diagnostics stderr = (case stderr of
      PBytes raw \<Rightarrow>
        req (len raw \<le> 256) ''Unbounded diagnostic output'' (
        req (hive_lines 9 raw) ''Unexpected diagnostic output'' (
        let found = find_all match_phase raw in
        req (distinct found) ''Repeated phase diagnostic'' (
        let snapshots = find_all match_snapshot raw in
        req (length snapshots \<le> 1) ''Repeated snapshot diagnostic'' (
        case snapshots of
          [] \<Rightarrow> Inr (found, None)
        | (st, code) # _ \<Rightarrow>
            req (0 \<le> code \<and> code \<le> 0xffffffff) ''Snapshot status exceeds DWORD'' (
            req (consistent_snapshot st code) ''Inconsistent snapshot diagnostic'' (
            Inr (found, Some \<lparr>state = st, status = code\<rparr>)))))))
    | _ \<Rightarrow> Inl (Refused ''Unbounded diagnostic output''))"

datatype diagnostics = Method string | Observed "int list" "hive_snapshot option"

definition diagnostics_exact :: "pyval \<Rightarrow> pyval \<Rightarrow> diagnostics res" where
  "diagnostics_exact receipt stderr =
     then_do (ensure (get_is (\<lambda>x. py_eq x (PStr EXACT_LOOKUP_METHOD)) receipt ''hiveObserverMethod'') ''Missing/wrong exact lookup method'') (
     req (stderr = PBytes []) ''Unexpected exact lookup diagnostic output'' (
     req (\<not> has_key ''hiveObserverPhases'' receipt \<and> \<not> has_key ''hiveObserverSnapshot'' receipt)
       ''Historical diagnostic fields cannot describe exact lookup'' (
     Inr (Method EXACT_LOOKUP_METHOD))))"

text \<open>The phase and the snapshot part of the historical branch.\<close>

definition claimed_phases :: "pyval \<Rightarrow> pyval \<Rightarrow> int list \<Rightarrow> bool \<Rightarrow> unit res" where
  "claimed_phases receipt stderr found has_phases =
     (if has_phases then
        andthen (get receipt ''hiveObserverPhases'') (\<lambda>claimed.
        req (is_list claimed \<and> list_all is_int (elems claimed)) ''Missing/invalid phases'' (
        req (py_eq claimed (PList (map PInt found))) ''Phase receipt differs from retained output'' (Inr ())))
      else req (\<not> truth stderr \<and> \<not> has_key ''hiveObserverPhases'' receipt) ''Unexpected historical diagnostic'' (Inr ()))"

definition claimed_snapshot :: "pyval \<Rightarrow> hive_snapshot option \<Rightarrow> bool \<Rightarrow> unit res" where
  "claimed_snapshot receipt sn has_snapshot =
     (if has_snapshot then
        req (has_key ''hiveObserverSnapshot'' receipt) ''Missing snapshot receipt field'' (
        andthen (py_item receipt ''hiveObserverSnapshot'') (\<lambda>claimed.
        then_do (if claimed = PNone then Inr ()
                 else req (closed_dict claimed [''state'', ''status'', ''scope'']) ''Snapshot shape''
                   (ensure (allof [item_is unsigned claimed ''state'', item_is unsigned claimed ''status'']) ''Snapshot numeric types'')) (
        req (py_eq claimed (snapshot_value sn)) ''Snapshot receipt differs from retained output'' (Inr ()))))
      else req (sn = None \<and> \<not> has_key ''hiveObserverSnapshot'' receipt) ''Unexpected historical snapshot'' (Inr ()))"

definition validate_profile_diagnostics :: "pyval \<Rightarrow> pyval \<Rightarrow> ProfileContract \<Rightarrow> diagnostics res" where
  "validate_profile_diagnostics receipt stderr contract =
     (if exact_lookup contract then diagnostics_exact receipt stderr
      else
      req (\<not> has_key ''hiveObserverMethod'' receipt) ''Unexpected historical observer method'' (
      andthen (parse_hive_diagnostics stderr) (\<lambda>(found, sn).
      then_do (claimed_phases receipt stderr found (phases contract)) (
      then_do (claimed_snapshot receipt sn (snapshot contract)) (
      andthen (get_is (\<lambda>x. py_eq x (PStr ''PASS'')) receipt ''result'') (\<lambda>passed.
      then_do (if \<not> passed then Inr () else
        req (case sn of None \<Rightarrow> True | Some x \<Rightarrow> state x \<noteq> 3) ''Failed snapshot cannot qualify a passing run'' (
        req (\<not> diagnostic_retire_on_miss contract \<or> (case sn of None \<Rightarrow> True | Some x \<Rightarrow> state x \<noteq> 2))
          ''Diagnostic retirement cannot qualify profile absence'' (Inr ())))
      (Inr (Observed found sn))))))))"

definition validate_observer_controls :: "pyval \<Rightarrow> pyval \<Rightarrow> ProfileContract \<Rightarrow> unit res" where
  "validate_observer_controls stdout stderr contract =
     (case observer_controls contract of
        None \<Rightarrow> Inl (Refused ''Unexpected observer control executable'')
      | Some n \<Rightarrow>
          let expected = ''PASS '' @ show_int n
            @ (if exact_lookup contract then EXACT_LOOKUP_CONTROL_SUFFIX else CONTROL_SUFFIX) in
          req (stdout = PBytes (expected @ [CHR 0x0A]) \<or> stdout = PBytes (expected @ [CHR 0x0D, CHR 0x0A]))
            ''Control output does not match verified source inventory'' (
          req (stderr = PBytes []) ''Unexpected observer control stderr'' (Inr ())))"

section \<open>Exact lookup\<close>

definition exact_passed :: "pyval \<Rightarrow> unit res" where
  "exact_passed ob =
     then_do (check_each (\<lambda>f. ensure (item_is truth ob f) ''Exact lookup condition or retirement did not pass'') EXACT_LOOKUP_BOOLEANS) (
     then_do (equal_fields ob (map (\<lambda>f. (f, STATUS_OBJECT_NAME_NOT_FOUND))
       [''hiveBeforeStatus'', ''hiveAfterStatus'', ''hiveLastLookupStatus'']) ''Exact absence status did not pass'') (
     then_do (equal_fields ob (map (\<lambda>f. (f, 0)) [''hiveLoadedStatus'', ''hiveParentOpenStatus'', ''hiveParentCloseStatus'',
       ''hiveChildCloseStatus'', ''hiveObserverSystemError'']) ''Exact lookup operation/retirement failed'')
     (andthen (int_item ob ''hiveLookups'') (\<lambda>lookups. andthen (int_item ob ''hiveAbsences'') (\<lambda>absences.
      andthen (int_item ob ''hivePresences'') (\<lambda>presences. andthen (int_item ob ''hiveChildCloses'') (\<lambda>closes.
      req (3 \<le> lookups \<and> lookups \<le> 65536 \<and> absences = 2 \<and> presences \<ge> 1 \<and> closes = presences
           \<and> lookups = presences + absences) ''Exact lookup accounting did not pass'' (Inr ()))))))))"

definition validate_exact_lookup_observation :: "pyval \<Rightarrow> bool \<Rightarrow> unit res" where
  "validate_exact_lookup_observation ob require_pass =
     then_do (ensure (get_is (\<lambda>x. py_eq x (PStr EXACT_LOOKUP_METHOD)) ob ''hiveObserverMethod'') ''Missing/wrong native lookup method'') (
     then_do (check_each (\<lambda>f. ensure (get_is is_bool ob f) ''Missing/invalid exact lookup boolean'') EXACT_LOOKUP_BOOLEANS) (
     then_do (check_each (\<lambda>f. ensure (get_is unsigned ob f) ''Missing/invalid exact lookup number'') EXACT_LOOKUP_NUMBERS) (
     if \<not> require_pass then Inr () else exact_passed ob)))"

section \<open>Profile completion\<close>

text \<open>The observer generation decides which fields the receipt and the observation may have.\<close>

definition completion_generation :: "pyval \<Rightarrow> pyval \<Rightarrow> ProfileContract \<Rightarrow> bool \<Rightarrow> unit res" where
  "completion_generation receipt ob contract require_pass =
     (if exact_lookup contract then
        then_do (ensure (get_is (\<lambda>x. py_eq x (PStr EXACT_LOOKUP_METHOD)) receipt ''hiveObserverMethod'')
          ''Missing/wrong receipt lookup method'') (
        if ob = PNone then Inr ()
        else
        req (is_dict ob) ''Invalid exact lookup observation'' (
        req (\<not> list_ex (\<lambda>f. has_key f ob) HISTORICAL_HIVE_FIELDS \<and> \<not> list_ex (\<lambda>(f, _). starts ''namespace'' f) (items ob))
          ''Historical namespace evidence cannot describe exact lookup'' (
        validate_exact_lookup_observation ob require_pass)))
      else
        req (\<not> has_key ''hiveObserverMethod'' receipt) ''Unexpected historical observer method'' (
        if is_dict ob
        then req (\<not> list_ex (\<lambda>f. has_key f ob) EXACT_LOOKUP_ONLY_FIELDS) ''Unexpected historical exact lookup fields'' (Inr ())
        else Inr ()))"

definition hexx64 :: "string \<Rightarrow> bool" where
  "hexx64 s \<longleftrightarrow> length s = 64 \<and> list_all is_hexx s"

definition namespace_retired :: "pyval \<Rightarrow> unit res" where
  "namespace_retired ob =
     then_do (check_each (\<lambda>k. ensure (get_is (\<lambda>x. py_is x True) ob k) ''Missing/invalid namespace retirement'')
       [''namespaceAbsenceObserved'', ''namespaceRetired'']) (
     then_do (check_each (\<lambda>(k, i). ensure (allof [get_is is_int ob k, item_is (\<lambda>x. py_eq x (PInt i)) ob k])
         ''Namespace status/type mismatch'')
       [(''namespaceOpenStatus'', 0), (''namespaceEnumerationStatus'', 259), (''namespaceNotificationStatus'', 0),
        (''namespaceCloseStatus'', 0), (''namespaceSystemError'', 0), (''hiveQueryError'', 0), (''hiveCloseError'', 0)])
     (ensure (allof [get_is (unsigned_max 65536) ob ''namespaceScans'',
        andthen (int_item ob ''namespaceScans'') (\<lambda>n. Inr (0 < n))]) ''Missing/invalid namespace scan count''))"

definition validate_profile_completion :: "pyval \<Rightarrow> pyval \<Rightarrow> ProfileContract \<Rightarrow> unit res" where
  "validate_profile_completion receipt ob contract =
     andthen (get_is (\<lambda>x. py_eq x (PStr ''PASS'')) receipt ''result'') (\<lambda>require_pass.
     then_do (completion_generation receipt ob contract require_pass) (
     if \<not> require_pass \<or> observer_controls contract = None then Inr ()
     else
     andthen (get receipt ''controlExecutable'') (\<lambda>binary.
     req (closed_dict binary [''sha256'', ''bytes'']) ''Missing observer control image'' (
     then_do (ensure (item_is (str_and hexx64) binary ''sha256'') ''Invalid observer control digest'') (
     then_do (ensure (allof [item_is (unsigned_max (32 * 1024 * 1024)) binary ''bytes'',
         andthen (int_item binary ''bytes'') (\<lambda>n. Inr (0 < n))]) ''Invalid observer control size'') (
     andthen (get receipt ''controlExecution'') (\<lambda>execution.
     req (is_dict execution) ''Missing observer control execution'' (
     then_do (execution_passed execution 9999 ''Observer control execution was not successful'' ''Observer control exit''
       ''Observer control deadline'') (
     req (is_dict ob) ''Missing profile observation'' (
     if exact_lookup contract then Inr () else namespace_retired ob))))))))))"

section \<open>Known handles\<close>

text \<open>\<open>HANDLE_KEYS.intersection(observation)\<close>: every iterable is accepted there, and an unhashable
  element or a value that cannot be iterated raises.\<close>

definition handle_keys_in :: "pyval \<Rightarrow> string list res" where
  "handle_keys_in ob = (case ob of
      PDict d \<Rightarrow> Inr (filter (\<lambda>k. has_key k ob) HANDLE_KEYS)
    | PList vs \<Rightarrow> if list_all hashable vs then Inr (filter (\<lambda>k. PStr k \<in> set vs) HANDLE_KEYS) else Inl TypeError
    | PTuple vs \<Rightarrow> if list_all hashable vs then Inr (filter (\<lambda>k. PStr k \<in> set vs) HANDLE_KEYS) else Inl TypeError
    | PStr s \<Rightarrow> Inr (filter (\<lambda>k. k \<in> set (map (\<lambda>c. [c]) s)) HANDLE_KEYS)
    | PBytes s \<Rightarrow> Inr []
    | _ \<Rightarrow> Inl TypeError)"

definition validate_known_handles :: "pyval \<Rightarrow> bool \<Rightarrow> bool \<Rightarrow> pyval res" where
  "validate_known_handles ob required require_pass =
     andthen (handle_keys_in ob) (\<lambda>present.
      if \<not> required then req (present = []) ''Unexpected historical known-handle observation'' (Inr PNone)
      else
      req (present = HANDLE_KEYS) ''Incomplete known-handle observation'' (
      then_do (ensure (item_is (\<lambda>x. py_eq x (PStr HANDLE_SCOPE)) ob ''knownHandleAuditScope'') ''Known-handle scope escalation'') (
      andthen (py_item ob ''knownHandleAuditPassed'') (\<lambda>passed.
      req (is_bool passed) ''Known-handle result type'' (
      then_do (number_fields ob (filter (\<lambda>k. k \<noteq> ''knownHandleAuditScope'' \<and> k \<noteq> ''knownHandleAuditPassed'') HANDLE_KEYS)
        ''Known-handle numeric type/range'') (
      andthen (int_item ob ''knownHandleChecked'') (\<lambda>checked. andthen (int_item ob ''knownHandleAbsent'') (\<lambda>absent.
      andthen (int_item ob ''knownHandleReused'') (\<lambda>reused. andthen (int_item ob ''knownHandleLeaked'') (\<lambda>leaked.
      andthen (int_item ob ''knownHandleError'') (\<lambda>error. andthen (int_item ob ''knownHandleHelperControlsPassed'') (\<lambda>controls.
      req (checked \<le> 3 \<and> absent + reused + leaked = checked \<and> controls \<le> 6) ''Inconsistent known-handle accounting'' (
      then_do (if truth passed \<or> require_pass
               then req (truth passed \<and> checked = 3 \<and> absent + reused = 3 \<and> leaked = 0 \<and> error = 0 \<and> controls = 6)
                 ''Known-handle admission did not pass'' (Inr ())
               else Inr ()) (
      andthen (each (\<lambda>k. andthen (py_item ob k) (\<lambda>x. Inr (k, x))) (sort HANDLE_KEYS)) (\<lambda>d. Inr (PDict d))))))))))))))))"

section \<open>The comparison\<close>

lemma map_of_self: "distinct (map fst y) \<Longrightarrow> y = map (\<lambda>k. (k, the (map_of y k))) (map fst y)"
  by (auto simp: comp_def intro!: map_idI [symmetric])

lemma pointwise_canon:
  assumes "distinct (map fst d)"
  shows "set (map fst d) = set (map fst e) \<and> (\<forall>(k, v) \<in> set d. \<exists>w. map_of e k = Some w \<and> canon v = canon w)
    \<longleftrightarrow> (\<forall>k. map_option canon (map_of d k) = map_option canon (map_of e k))" (is "?l \<longleftrightarrow> ?r")
proof
  assume l: ?l
  show ?r
  proof
    fix k
    show "map_option canon (map_of d k) = map_option canon (map_of e k)"
    proof (cases "map_of d k")
      case None
      then have "map_of e k = None" using l by (simp add: map_of_eq_None_iff)
      with None show ?thesis by simp
    next
      case (Some v)
      then show ?thesis using l by (fastforce dest: map_of_SomeD)
    qed
  qed
next
  assume r: ?r
  have "map_of d k = None \<longleftrightarrow> map_of e k = None" for k using r by (metis option.map_disc_iff)
  then have "set (map fst d) = set (map fst e)" by (auto simp: map_of_eq_None_iff)
  moreover have "\<exists>w. map_of e k = Some w \<and> canon v = canon w" if "(k, v) \<in> set d" for k v
    using r [rule_format, of k] assms that by (cases "map_of e k") auto
  ultimately show ?l by blast
qed

lemma sorted_pairs_unique:
  fixes d e :: "(string \<times> pyval) list"
  assumes "distinct (map fst d)" "distinct (map fst e)" "set d = set e"
  shows "sort_key fst d = sort_key fst e"
proof -
  have k: "map fst (sort_key fst d) = map fst (sort_key fst e)"
    by (rule sorted_distinct_set_unique) (use assms in \<open>auto simp: distinct_sort_fst\<close>)
  have "map_of (sort_key fst d) = map_of (sort_key fst e)"
    by (rule map_of_inject_set [THEN iffD2]) (use assms in \<open>auto simp: distinct_sort_fst\<close>)
  moreover have "sort_key fst x = map (\<lambda>k. (k, the (map_of (sort_key fst x) k))) (map fst (sort_key fst x))"
    if "distinct (map fst x)" for x :: "(string \<times> pyval) list"
    using that by (intro map_of_self) (simp add: distinct_sort_fst)
  from this [OF assms(1)] this [OF assms(2)] show ?thesis using k calculation by simp
qed

lemma set_canon_pairs: "set (canon_pairs d) = (\<lambda>(k, v). (k, canon v)) ` set d"
  by (simp add: canon_pairs_map)

lemma map_of_canon_pairs: "map_of (canon_pairs d) k = map_option canon (map_of d k)"
  by (induction d) auto

lemma canon_dict_eq:
  assumes "distinct (map fst d)" "distinct (map fst e)"
  shows "canon (PDict d) = canon (PDict e) \<longleftrightarrow> (\<forall>k. map_option canon (map_of d k) = map_option canon (map_of e k))"
proof -
  have "canon (PDict d) = canon (PDict e) \<longleftrightarrow> set (canon_pairs d) = set (canon_pairs e)"
  proof
    assume "canon (PDict d) = canon (PDict e)"
    then have "set (sort_key fst (canon_pairs d)) = set (sort_key fst (canon_pairs e))" by simp
    then show "set (canon_pairs d) = set (canon_pairs e)" by simp
  qed (use sorted_pairs_unique [of "canon_pairs d" "canon_pairs e"] assms in simp)
  also have "\<dots> \<longleftrightarrow> map_of (canon_pairs d) = map_of (canon_pairs e)"
    using assms by (intro map_of_inject_set [symmetric]) auto
  finally show ?thesis by (auto simp: map_of_canon_pairs fun_eq_iff)
qed

lemma same_json_canon:
  "jok a \<Longrightarrow> jok c \<Longrightarrow> require_same_json a c = Inr () \<longleftrightarrow> canon a = canon c"
  "joks vs \<Longrightarrow> joks cs \<Longrightarrow> length vs = length cs \<Longrightarrow> same_list vs cs = Inr () \<longleftrightarrow> map canon vs = map canon cs"
  "jokd d \<Longrightarrow> jokd e \<Longrightarrow> distinct (map fst e) \<Longrightarrow> same_dict d e = Inr () \<longleftrightarrow>
     (\<forall>(k, v) \<in> set d. \<exists>w. map_of e k = Some w \<and> canon v = canon w)"
proof (induction a c and vs cs and d e rule: require_same_json_same_list_same_dict.induct
    [case_names Dict List None_ Bool Int Float Str Bytes Tuple LNil LCons DNil DCons])
  case (Dict d c)
  show ?case
  proof (cases c)
    case (PDict e)
    have dist: "distinct (map fst d)" "distinct (map fst e)" using Dict PDict by auto
    have "require_same_json (PDict d) c = Inr () \<longleftrightarrow> set (map fst d) = set (map fst e)
      \<and> (\<forall>(k, v) \<in> set d. \<exists>w. map_of e k = Some w \<and> canon v = canon w)"
      using Dict PDict by (auto simp: ok_iff)
    also have "\<dots> \<longleftrightarrow> (\<forall>k. map_option canon (map_of d k) = map_option canon (map_of e k))"
      by (rule pointwise_canon [OF dist(1)])
    finally show ?thesis using canon_dict_eq [OF dist] PDict by simp
  qed (use Dict in \<open>auto simp: ok_iff\<close>)
next
  case (List vs c)
  then show ?case by (cases c) (auto simp: ok_iff dest: map_eq_imp_length_eq)
next
  case (LCons v vs cs)
  then show ?case by (cases cs) (auto simp: ok_iff)
next
  case (DCons k v d e)
  show ?case
  proof (cases "map_of e k")
    case None
    then show ?thesis by auto
  next
    case (Some w)
    then have "jok w" using DCons by (auto simp: jokd_iff dest: map_of_SomeD)
    have r: "require_same_json v w = Inr () \<longleftrightarrow> canon v = canon w"
      using DCons.IH(1) [OF Some] DCons.prems \<open>jok w\<close> by simp
    have t: "same_dict d e = Inr () \<longleftrightarrow> (\<forall>(k, v) \<in> set d. \<exists>w. map_of e k = Some w \<and> canon v = canon w)"
      using DCons.IH(2) [OF Some] DCons.prems by simp
    have e: "(\<exists>x. map_of e k = Some x \<and> canon v = canon x) \<longleftrightarrow> canon v = canon w" using Some by simp
    show ?thesis using Some by (simp add: then_do_ok r t e del: map_of_eq_Some_iff)
  qed
next
  case (None_ c)
  then show ?case by (cases c) (auto simp: ok_iff)
next
  case (Bool v c)
  then show ?case by (cases c) (auto simp: ok_iff num_eq_def num_val_def split: if_splits)
next
  case (Int v c)
  then show ?case by (cases c) (auto simp: ok_iff num_eq_def num_val_def)
next
  case (Str v c)
  then show ?case by (cases c) (auto simp: ok_iff)
qed simp_all

text \<open>C10. On JSON values without floats (\<open>null\<close>, booleans, integers of at most 4300 digits, well-formed
  text, lists of such values and objects of such values with distinct keys) \<open>require_same_json\<close> accepts two
  values exactly when their canonical encodings are the same text: key order is ignored, and \<open>true\<close>
  is never taken for \<open>1\<close> at any depth.  Floats are outside the statement: \<open>0.0\<close> and \<open>-0.0\<close> compare equal
  and print differently.\<close>

theorem require_same_json_exact:
  assumes "jok a" "jok c"
  shows "require_same_json a c = Inr () \<longleftrightarrow> json_dumps a = json_dumps c"
  using same_json_canon(1) [OF assms] json_dumps_inj [OF assms] by (auto simp: json_dumps_def)

theorem require_same_json_exact_witness:
  "require_same_json (PDict [(''a'', PInt 1), (''b'', PList [PBool True])]) (PDict [(''b'', PList [PBool True]), (''a'', PInt 1)]) = Inr ()
   \<and> require_same_json (PList [PBool True]) (PList [PInt 1]) \<noteq> Inr ()
   \<and> json_dumps (PDict [(''a'', PInt 1), (''b'', PList [PBool True])]) = json_dumps (PDict [(''b'', PList [PBool True]), (''a'', PInt 1)])"
proof -
  have s: "require_same_json (PDict [(''a'', PInt 1), (''b'', PList [PBool True])])
      (PDict [(''b'', PList [PBool True]), (''a'', PInt 1)]) = Inr ()"
    by (simp add: num_eq_def then_do_def num_val_def insert_commute)
  have "jok (PDict [(''a'', PInt 1), (''b'', PList [PBool True])])" "jok (PDict [(''b'', PList [PBool True]), (''a'', PInt 1)])"
    by code_simp+
  from require_same_json_exact [OF this] s show ?thesis by (simp add: then_do_def)
qed

section \<open>Contracts\<close>

lemma wrapper_bytes_ok [ok_iff]: "wrapper_bytes w k = Inr x \<longleftrightarrow> (\<exists>raw. w = PBytes raw \<and> len raw \<le> 65536 \<and> k raw = Inr x)"
  by (cases w) (auto simp: wrapper_bytes_def ok_iff)

lemma exact_contract_ok:
  assumes "exact_contract raw counts exact_counts n = Inr c"
  shows "exact_lookup c \<and> observer_controls c = Some 31 \<and> \<not> phases c \<and> \<not> snapshot c \<and> \<not> diagnostic_retire_on_miss c
    \<and> n = 1 \<and> \<not> contains ''hiveObserverPhases'' raw \<and> \<not> contains ''hiveObserverSnapshot'' raw
    \<and> \<not> contains ''diagnosticRetireOnMiss'' raw"
  using assms by (auto simp: exact_contract_def ok_iff EXACT_LOOKUP_CONTROL_COUNTS_def)

lemma historical_contract_ok:
  assumes "historical_contract raw counts = Inr c"
  shows "\<not> exact_lookup c \<and> observer_controls c \<in> {None, Some 18, Some 32, Some 33, Some 42}
    \<and> (diagnostic_retire_on_miss c \<longleftrightarrow> observer_controls c = Some 42)
    \<and> (diagnostic_retire_on_miss c \<longrightarrow> snapshot c) \<and> (snapshot c \<longrightarrow> phases c)
    \<and> (diagnostic_retire_on_miss c \<longleftrightarrow> contains DIAGNOSTIC_RETIRE_MARKER raw)"
proof -
  have "DIAGNOSTIC_RETIRE_MARKER \<noteq> []" by (simp add: DIAGNOSTIC_RETIRE_MARKER_def)
  from count_sub_pos [OF this, of raw] show ?thesis
    using assms by (auto simp: historical_contract_def ok_iff Let_def)
qed

text \<open>C11. A contract read out of the wrapper never mixes the two observer generations: an exact-lookup
  contract has the one reviewed inventory, no historical capability, and a wrapper free of every
  historical marker; a historical one has a reviewed inventory, diagnostic retirement exactly with
  inventory 42 and exactly when its marker occurs, and only with snapshot and phase evidence.\<close>

theorem profile_contract_generations:
  assumes "profile_contract (PBytes raw) = Inr c"
  shows "if exact_lookup c
    then observer_controls c = Some 31 \<and> \<not> phases c \<and> \<not> snapshot c \<and> \<not> diagnostic_retire_on_miss c
      \<and> count_sub EXACT_LOOKUP_MARKER raw = 1 \<and> \<not> contains ''hiveObserverPhases'' raw
      \<and> \<not> contains ''hiveObserverSnapshot'' raw \<and> \<not> contains ''diagnosticRetireOnMiss'' raw
    else observer_controls c \<in> {None, Some 18, Some 32, Some 33, Some 42}
      \<and> (diagnostic_retire_on_miss c \<longleftrightarrow> observer_controls c = Some 42)
      \<and> (diagnostic_retire_on_miss c \<longleftrightarrow> contains DIAGNOSTIC_RETIRE_MARKER raw)
      \<and> (diagnostic_retire_on_miss c \<longrightarrow> snapshot c) \<and> (snapshot c \<longrightarrow> phases c)
      \<and> \<not> contains ''hiveObserverMethod'' raw"
  using assms exact_contract_ok [of raw _ _ _ c] historical_contract_ok [of raw _ c]
  by (auto simp: profile_contract_def ok_iff Let_def split: if_splits)

theorem profile_contract_generations_witness:
  "\<exists>c. profile_contract (PBytes ''$result.hiveObserverPhases ='') = Inr c
     \<and> \<not> exact_lookup c \<and> phases c \<and> \<not> diagnostic_retire_on_miss c"
proof -
  have e: "profile_contract (PBytes ''$result.hiveObserverPhases ='') =
    Inr \<lparr>observer_controls = None, phases = True, snapshot = False, diagnostic_retire_on_miss = False, exact_lookup = False\<rparr>"
    by code_simp
  from profile_contract_generations [OF e] e show ?thesis by auto
qed

section \<open>Passing receipts\<close>

lemma item_py_item [ok_iff]: "int_item v k = Inr i \<longleftrightarrow> (\<exists>x. py_item v k = Inr x \<and> as_int x = Inr i)"
  by (auto simp: int_item_def andthen_ok)

lemma as_int_PInt [simp]: "as_int (PInt i) = Inr i"
  by (simp add: as_int_def)

lemma unsigned_iff: "unsigned v \<longleftrightarrow> (\<exists>i. v = PInt i \<and> 0 \<le> i \<and> i \<le> 0xffffffff)"
  by (simp add: unsigned_def unsigned_max_def int_and_iff)

lemma bool_fields_ok [ok_iff]:
  "bool_fields (PDict d) fs code = Inr () \<longleftrightarrow> (\<forall>f \<in> set fs. \<exists>b. map_of d f = Some (PBool b))"
  by (auto simp: bool_fields_def ok_iff list_all_iff type_iff)

lemma number_fields_ok [ok_iff]:
  "number_fields (PDict d) fs code = Inr () \<longleftrightarrow>
     (\<forall>f \<in> set fs. \<exists>i. map_of d f = Some (PInt i) \<and> 0 \<le> i \<and> i \<le> 0xffffffff)"
  by (auto simp: number_fields_def ok_iff list_all_iff unsigned_iff)

lemma equal_fields_ok:
  "equal_fields (PDict d) fvs code = Inr () \<Longrightarrow> (f, i) \<in> set fvs \<Longrightarrow> map_of d f = Some (PInt j) \<Longrightarrow> j = i"
  by (auto simp: equal_fields_def ok_iff list_all_iff)

lemma truth_fields: "allof (map (item_is p (PDict d)) fs) = Inr True \<Longrightarrow> f \<in> set fs \<Longrightarrow> map_of d f = Some x \<Longrightarrow> p x"
  by (auto simp: ok_iff list_all_iff)

text \<open>What a passing controller-death observation says.\<close>

definition death_evidence :: "(string \<times> pyval) list \<Rightarrow> bool" where
  "death_evidence d \<longleftrightarrow>
     set (map fst d) = set (CONTROLLER_DEATH_TRUE @ CONTROLLER_DEATH_FALSE @ CONTROLLER_DEATH_NUMBERS @ [''scope''])
     \<and> list_all (\<lambda>f. map_of d f = Some (PBool True)) CONTROLLER_DEATH_TRUE
     \<and> list_all (\<lambda>f. map_of d f = Some (PBool False)) CONTROLLER_DEATH_FALSE
     \<and> map_of d ''scope'' = Some (PStr CONTROLLER_DEATH_SCOPE)
     \<and> map_of d ''controllerExit'' = Some (PInt 126) \<and> map_of d ''result'' = Some (PInt 0)"

lemma death_observation_ok:
  assumes "validate_controller_death_observation ob True = Inr ()"
  shows "\<exists>d. ob = PDict d \<and> death_evidence d"
proof -
  obtain d where ob: "ob = PDict d" using assms by (auto simp: validate_controller_death_observation_def ok_iff closed_dict_iff)
  have k: "set (map fst d) = set (CONTROLLER_DEATH_TRUE @ CONTROLLER_DEATH_FALSE @ CONTROLLER_DEATH_NUMBERS @ [''scope''])"
    using assms by (simp add: validate_controller_death_observation_def req_ok ob closed_dict_def keys_eq_def)
  have b: "bool_fields (PDict d) (CONTROLLER_DEATH_TRUE @ CONTROLLER_DEATH_FALSE) ''Controller-death boolean type'' = Inr ()"
    and n: "number_fields (PDict d) CONTROLLER_DEATH_NUMBERS ''Controller-death number type/range'' = Inr ()"
    and p: "death_passed (PDict d) = Inr ()" and s: "map_of d ''scope'' = Some (PStr CONTROLLER_DEATH_SCOPE)"
    using assms by (auto simp: validate_controller_death_observation_def req_ok then_do_ok ensure_ok item_is_ok py_item_ok ob str_and_iff)
  have T: "map_of d f = Some (PBool True)" if f: "f \<in> set CONTROLLER_DEATH_TRUE" for f
  proof -
    obtain v where v: "map_of d f = Some (PBool v)" using b f by (auto simp: bool_fields_ok)
    have "allof (map (item_is truth (PDict d)) CONTROLLER_DEATH_TRUE) = Inr True"
      using p by (simp add: death_passed_def then_do_ok ensure_ok)
    from truth_fields [OF this f v] show ?thesis using v by (simp add: truth_def)
  qed
  have F: "map_of d f = Some (PBool False)" if f: "f \<in> set CONTROLLER_DEATH_FALSE" for f
  proof -
    obtain v where v: "map_of d f = Some (PBool v)" using b f by (auto simp: bool_fields_ok)
    have "allof (map (item_is (\<lambda>x. \<not> truth x) (PDict d)) CONTROLLER_DEATH_FALSE) = Inr True"
      using p by (simp add: death_passed_def then_do_ok ensure_ok)
    from truth_fields [OF this f v] show ?thesis using v by (simp add: truth_def)
  qed
  have e: "equal_fields (PDict d) [(''result'', 0), (''stage'', 6), (''systemCode'', 0), (''controllerExit'', 126),
       (''knownHandleChecked'', 3)] ''Controller-death completion mismatch'' = Inr ()"
    using p by (simp add: death_passed_def then_do_ok)
  obtain i j where ij: "map_of d ''controllerExit'' = Some (PInt i)" "map_of d ''result'' = Some (PInt j)"
    using n by (auto simp: number_fields_ok CONTROLLER_DEATH_NUMBERS_def)
  have "i = 126" "j = 0" using equal_fields_ok [OF e _ ij(1)] equal_fields_ok [OF e _ ij(2)] by simp_all
  then show ?thesis using ob k T F s ij by (auto simp: death_evidence_def list_all_iff)
qed

text \<open>C12. When the controller-death control is mandatory, a \<open>PASS\<close> receipt is accepted only with an
  observation in which every automatic-retirement condition is true, every substitute is false and
  the controller died with code 126; without the control the receipt is refused.\<close>

theorem controller_death_pass:
  assumes "validate_controller_death_completion (PDict r) True = Inr ob" "map_of r ''result'' = Some (PStr ''PASS'')"
  shows "\<exists>d. ob = PDict d \<and> death_evidence d"
proof -
  have pass: "get_is (\<lambda>x. py_eq x (PStr ''PASS'')) (PDict r) ''result'' = Inr True"
    using assms(2) by (simp add: get_is_def)
  obtain control where c: "get (PDict r) ''controllerDeathControl'' = Inr control" by simp
  have "control \<noteq> PNone" "is_dict control"
    using assms(1) pass c by (auto simp: validate_controller_death_completion_def req_ok split: if_splits)
  then obtain ctl where ctl: "control = PDict ctl" by (auto simp: type_iff)
  obtain o' where o': "get control ''observation'' = Inr o'" by (simp add: ctl)
  have acc: "then_do (if o' = PNone then Inr () else validate_controller_death_observation o' True)
      (req (closed_dict control [''execution'', ''observation''] \<and> is_dict o') ''Incomplete controller-death receipt'' (
       andthen (py_item control ''execution'') (\<lambda>execution.
       req (is_dict execution) ''Invalid controller-death execution'' (
       then_do (execution_passed execution 69999 ''Controller-death execution failed'' ''Controller-death exit mismatch''
         ''Controller-death deadline exceeded'') (Inr o'))))) = Inr ob"
    using assms(1) pass c o' \<open>control \<noteq> PNone\<close> \<open>is_dict control\<close> by (simp add: validate_controller_death_completion_def)
  then have "is_dict o'" "ob = o'" by (auto simp: ok_iff)
  moreover from this have "o' \<noteq> PNone" by (auto simp: type_iff)
  ultimately show ?thesis using acc death_observation_ok by (auto simp: then_do_ok)
qed

definition death_sample :: "(string \<times> pyval) list" where
  "death_sample =
     map (\<lambda>f. (f, PBool True)) CONTROLLER_DEATH_TRUE @ map (\<lambda>f. (f, PBool False)) CONTROLLER_DEATH_FALSE
     @ [(''mode'', PInt 2), (''result'', PInt 0), (''stage'', PInt 6), (''systemCode'', PInt 0), (''controllerExit'', PInt 126),
        (''brokerExit'', PInt 1), (''childExit'', PInt 1), (''knownHandleChecked'', PInt 3), (''knownHandleAbsent'', PInt 2),
        (''knownHandleReused'', PInt 1), (''scope'', PStr CONTROLLER_DEATH_SCOPE)]"

definition passed_execution :: pyval where
  "passed_execution = PDict [(''passed'', PBool True), (''processExitObserved'', PBool True), (''finalizationCompleted'', PBool True),
     (''timedOut'', PBool False), (''outputExceeded'', PBool False), (''exitCode'', PInt 0), (''elapsedMs'', PInt 5)]"

theorem controller_death_pass_witness:
  "\<exists>d. validate_controller_death_completion (PDict [(''result'', PStr ''PASS''), (''controllerDeathControl'',
      PDict [(''execution'', passed_execution), (''observation'', PDict death_sample)])]) True = Inr (PDict d) \<and> death_evidence d"
proof -
  have e: "validate_controller_death_completion (PDict [(''result'', PStr ''PASS''), (''controllerDeathControl'',
      PDict [(''execution'', passed_execution), (''observation'', PDict death_sample)])]) True = Inr (PDict death_sample)"
    by code_simp
  then show ?thesis using controller_death_pass [OF e] by simp
qed

section \<open>The diagnostic grammar line by line\<close>

text \<open>
  A reading of the regular expressions of \<open>parse_hive_diagnostics\<close> as a grammar of lines: an item is
  one alternative of the repeated group with the digits it matched, and \<open>hive_text\<close> is the text of a
  list of items, each with its line ending.
\<close>

datatype hive_item = Phase nat | Snap nat string

fun item_text :: "hive_item \<Rightarrow> string" where
  "item_text (Phase p) = HIVE_PHASE @ [digit_char p]"
| "item_text (Snap st ds) = HIVE_SNAPSHOT @ [digit_char st, CHR '' ''] @ ds"

definition eol :: "bool \<Rightarrow> string" where
  "eol crlf = (if crlf then [CHR 0x0D, CHR 0x0A] else [CHR 0x0A])"

fun item_ok :: "hive_item \<Rightarrow> bool" where
  "item_ok (Phase p) = (1 \<le> p \<and> p \<le> 8)"
| "item_ok (Snap st ds) = (1 \<le> st \<and> st \<le> 3 \<and> list_all is_digit ds \<and> 1 \<le> length ds \<and> length ds \<le> 10)"

definition hive_text :: "(hive_item \<times> bool) list \<Rightarrow> string" where
  "hive_text ls = concat (map (\<lambda>(i, crlf). item_text i @ eol crlf) ls)"

fun phase_of :: "hive_item \<Rightarrow> int list" where
  "phase_of (Phase p) = [int p]"
| "phase_of (Snap _ _) = []"

fun snap_of :: "hive_item \<Rightarrow> (int \<times> int) list" where
  "snap_of (Phase _) = []"
| "snap_of (Snap st ds) = [(int st, int_of_digits ds)]"

lemma match_other: "c \<noteq> CHR ''P'' \<Longrightarrow> match_phase (c # s) = None" "c \<noteq> CHR ''P'' \<Longrightarrow> match_snapshot (c # s) = None"
  by (simp_all add: match_phase_def match_snapshot_def HIVE_PHASE_def HIVE_SNAPSHOT_def)

lemma find_other:
  "c \<noteq> CHR ''P'' \<Longrightarrow> find_all match_phase (c # s) = find_all match_phase s"
  "c \<noteq> CHR ''P'' \<Longrightarrow> find_all match_snapshot (c # s) = find_all match_snapshot s"
  by (simp_all add: match_other find_all_miss)

lemma find_eol [simp]:
  "find_all match_phase (eol b @ s) = find_all match_phase s" "find_all match_snapshot (eol b @ s) = find_all match_snapshot s"
  by (simp_all add: eol_def find_other)

lemma digit_not_P: "is_digit c \<Longrightarrow> c \<noteq> CHR ''P''"
  by (auto simp: is_digit_def cc_def)

lemma find_digits:
  "list_all is_digit ds \<Longrightarrow> find_all match_phase (ds @ s) = find_all match_phase s"
  "list_all is_digit ds \<Longrightarrow> find_all match_snapshot (ds @ s) = find_all match_snapshot s"
  by (induction ds) (simp_all add: find_other digit_not_P)

lemma find_headers:
  "find_all match_phase (HIVE_SNAPSHOT @ s) = find_all match_phase s"
  "find_all match_snapshot (HIVE_PHASE @ s) = find_all match_snapshot s"
  by (simp_all add: HIVE_SNAPSHOT_def HIVE_PHASE_def find_all_miss match_phase_def match_snapshot_def)

lemma match_phase_item: "1 \<le> p \<Longrightarrow> p \<le> 8 \<Longrightarrow> match_phase (HIVE_PHASE @ digit_char p # s) = Some (int p, s)"
  by (simp add: match_phase_def starts_append digit_in_def)

lemma eol_stop: "stop (eol b @ s)"
  by (simp add: eol_def stop_def is_digit_def cc_def)

lemma match_snapshot_item:
  assumes "1 \<le> st" "st \<le> 3" "list_all is_digit ds" "1 \<le> length ds" "length ds \<le> 10" "stop s"
  shows "match_snapshot (HIVE_SNAPSHOT @ digit_char st # CHR '' '' # ds @ s) = Some ((int st, int_of_digits ds), s)"
  using assms takeWhile_digits [OF assms(3,6)]
  by (auto simp: match_snapshot_def starts_append digit_in_def)

lemma line_end_eol [simp]: "line_end (eol b @ s) = Some s"
  by (simp add: line_end_def eol_def)

lemma hive_line_item: "item_ok i \<Longrightarrow> hive_line (item_text i @ eol b @ s) = Some s"
proof (cases i)
  case (Snap st ds)
  have "match_phase (HIVE_SNAPSHOT @ t) = None" for t
    by (simp add: match_phase_def HIVE_PHASE_def HIVE_SNAPSHOT_def)
  then show "item_ok i \<Longrightarrow> ?thesis" using Snap match_snapshot_item [OF _ _ _ _ _ eol_stop, of st ds b s]
    by (simp add: hive_line_def)
qed (simp add: hive_line_def match_phase_item)

lemma find_item:
  assumes "item_ok i"
  shows "find_all match_phase (item_text i @ eol b @ s) = phase_of i @ find_all match_phase s"
    and "find_all match_snapshot (item_text i @ eol b @ s) = snap_of i @ find_all match_snapshot s"
proof -
  show "find_all match_phase (item_text i @ eol b @ s) = phase_of i @ find_all match_phase s"
    using assms by (cases i) (simp_all add: find_all_hit match_phase_item find_headers find_other find_digits digit_not_P)
  show "find_all match_snapshot (item_text i @ eol b @ s) = snap_of i @ find_all match_snapshot s"
    using assms match_snapshot_item [OF _ _ _ _ _ eol_stop]
    by (cases i) (simp_all add: find_all_hit find_headers find_other find_digits digit_not_P)
qed

lemma hive_lines_text: "length ls \<le> n \<Longrightarrow> list_all (item_ok \<circ> fst) ls \<Longrightarrow> hive_lines n (hive_text ls)"
proof (induction ls arbitrary: n)
  case Nil
  then show ?case by (cases n) (simp_all add: hive_text_def)
next
  case (Cons l ls)
  then obtain m where "n = Suc m" by (cases n) auto
  then show ?case using Cons hive_line_item [of "fst l" "snd l" "hive_text ls"]
    by (simp add: hive_text_def case_prod_beta)
qed

lemma find_text:
  "list_all (item_ok \<circ> fst) ls \<Longrightarrow> find_all match_phase (hive_text ls) = concat (map (phase_of \<circ> fst) ls)"
  "list_all (item_ok \<circ> fst) ls \<Longrightarrow> find_all match_snapshot (hive_text ls) = concat (map (snap_of \<circ> fst) ls)"
  by (induction ls) (simp_all add: hive_text_def case_prod_beta find_item)

text \<open>Conversely, whatever the matchers accept is the text of an item.\<close>

lemma digit_in_char: "digit_in a b c \<Longrightarrow> b < 10 \<Longrightarrow> \<exists>n. a \<le> n \<and> n \<le> b \<and> c = digit_char n"
  by (rule exI [of _ "cc c - 48"]) (auto simp: digit_in_def digit_char_def cc_def)

lemma line_end_text: "line_end s = Some r \<Longrightarrow> \<exists>b. s = eol b @ r"
  by (cases s) (auto simp: line_end_def eol_def neq_Nil_conv split: if_splits)

lemma match_phase_text: "match_phase s = Some (v, r) \<Longrightarrow> \<exists>p. item_ok (Phase p) \<and> s = item_text (Phase p) @ r"
  using digit_in_char [of 1 8]
  by (fastforce simp: match_phase_def starts_iff split: if_splits list.splits)

lemma match_snapshot_text:
  assumes "match_snapshot s = Some (v, r)"
  shows "\<exists>st ds. item_ok (Snap st ds) \<and> s = item_text (Snap st ds) @ r"
proof -
  obtain c t where s: "s = HIVE_SNAPSHOT @ c # CHR '' '' # t" "digit_in 1 3 c"
    and ds: "take 10 (takeWhile is_digit t) \<noteq> []" "r = drop (length (take 10 (takeWhile is_digit t))) t"
    using assms by (auto simp: match_snapshot_def starts_iff Let_def split: if_splits list.splits)
  have "t = take 10 (takeWhile is_digit t) @ r"
    by (metis append_eq_conv_conj append_take_drop_id ds(2) takeWhile_eq_take take_take length_take min.commute)
  moreover have "list_all is_digit (take 10 (takeWhile is_digit t))"
    by (auto simp: list_all_iff dest: in_set_takeD set_takeWhileD)
  moreover obtain st where "1 \<le> st" "st \<le> 3" "c = digit_char st" using digit_in_char [OF s(2)] by auto
  ultimately show ?thesis using s(1) ds(1)
    by (intro exI [of _ st] exI [of _ "take 10 (takeWhile is_digit t)"]) (simp add: Suc_le_eq)
qed

lemma hive_line_text: "hive_line s = Some r \<Longrightarrow> \<exists>i b. item_ok i \<and> s = item_text i @ eol b @ r"
  by (auto simp: hive_line_def simp del: item_ok.simps item_text.simps split: option.splits
      dest!: match_phase_text match_snapshot_text line_end_text)

lemma hive_lines_items:
  "hive_lines n s \<Longrightarrow> \<exists>ls. s = hive_text ls \<and> list_all (item_ok \<circ> fst) ls \<and> length ls \<le> n"
proof (induction n s rule: hive_lines.induct)
  case (2 n s)
  show ?case
  proof (cases "s = []")
    case True
    then show ?thesis by (intro exI [of _ "[]"]) (simp add: hive_text_def)
  next
    case False
    then obtain r where r: "hive_line s = Some r" "hive_lines n r" using "2.prems" by (auto split: option.splits)
    obtain i b where "item_ok i" "s = item_text i @ eol b @ r" using hive_line_text [OF r(1)] by auto
    moreover obtain ls where "r = hive_text ls" "list_all (item_ok \<circ> fst) ls" "length ls \<le> n"
      using "2.IH" [OF r] by blast
    ultimately show ?thesis by (intro exI [of _ "(i, b) # ls"]) (simp add: hive_text_def comp_def)
  qed
qed (simp add: hive_text_def)

lemma digits_nonneg: "list_all is_digit ds \<Longrightarrow> 0 \<le> int_of_digits ds"
  by (induction ds rule: rev_induct) (auto simp: int_of_digits_def digit_val_def is_digit_def)

lemma hive_text_read:
  assumes "list_all (item_ok \<circ> fst) ls" "length ls \<le> 9" "len (hive_text ls) \<le> 256"
  shows "parse_hive_diagnostics (PBytes (hive_text ls)) = Inr (ps, sn) \<longleftrightarrow>
    ps = concat (map (phase_of \<circ> fst) ls) \<and> distinct ps
    \<and> concat (map (snap_of \<circ> fst) ls) = (case sn of None \<Rightarrow> [] | Some x \<Rightarrow> [(state x, status x)])
    \<and> (case sn of None \<Rightarrow> True | Some x \<Rightarrow> status x \<le> 0xffffffff \<and> consistent_snapshot (state x) (status x))"
proof -
  define pp ss where "pp = concat (map (phase_of \<circ> fst) ls)" and "ss = concat (map (snap_of \<circ> fst) ls)"
  have "item_ok i \<Longrightarrow> list_all (\<lambda>p. 0 \<le> snd p) (snap_of i)" for i by (cases i) (simp_all add: digits_nonneg)
  then have n: "list_all (\<lambda>p. 0 \<le> snd p) ss" using assms(1) unfolding ss_def by (induction ls) simp_all
  have f: "find_all match_phase (hive_text ls) = pp" "find_all match_snapshot (hive_text ls) = ss"
    using find_text [OF assms(1)] by (simp_all add: pp_def ss_def)
  consider "ss = []" | st code where "ss = [(st, code)]" | "1 < length ss"
    by (metis One_nat_def length_Cons length_greater_0_conv less_Suc_eq_le list.size(4) neq_Nil_conv not_less old.prod.exhaust)
  then show ?thesis using assms(3) hive_lines_text [OF assms(2,1)] n
  proof cases
    case 3
    then have "ss \<noteq> (case sn of None \<Rightarrow> [] | Some x \<Rightarrow> [(state x, status x)])" by (auto split: option.splits)
    with 3 show ?thesis by (auto simp: parse_hive_diagnostics_def f req_ok Let_def simp flip: pp_def ss_def)
  qed (cases sn; auto simp: parse_hive_diagnostics_def f req_ok Let_def simp flip: pp_def ss_def)+
qed

text \<open>C13. The diagnostic reader with its bounded full match and its two separate searches is a reading
  line by line.  Bytes are accepted exactly when there are at most 256 of them and they are at most
  nine lines, each a phase 1 to 8 or a snapshot state 1 to 3 with one to ten digits, with either line
  ending, in which no phase is repeated and at most one snapshot occurs, with a 32-bit status that
  fits its state; the result is the phases of the lines in order and that snapshot.\<close>

theorem hive_diagnostics_by_line:
  "parse_hive_diagnostics (PBytes raw) = Inr (ps, sn) \<longleftrightarrow> len raw \<le> 256 \<and>
     (\<exists>ls. raw = hive_text ls \<and> list_all (item_ok \<circ> fst) ls \<and> length ls \<le> 9
       \<and> ps = concat (map (phase_of \<circ> fst) ls) \<and> distinct ps
       \<and> concat (map (snap_of \<circ> fst) ls) = (case sn of None \<Rightarrow> [] | Some x \<Rightarrow> [(state x, status x)])
       \<and> (case sn of None \<Rightarrow> True | Some x \<Rightarrow> status x \<le> 0xffffffff \<and> consistent_snapshot (state x) (status x)))"
    (is "?read \<longleftrightarrow> ?lines")
proof
  assume p: ?read
  then have l: "len raw \<le> 256" and "hive_lines 9 raw" by (simp_all add: parse_hive_diagnostics_def ok_iff)
  then obtain ls where "raw = hive_text ls" "list_all (item_ok \<circ> fst) ls" "length ls \<le> 9"
    using hive_lines_items by blast
  then show ?lines using p l by (auto simp: hive_text_read)
next
  assume ?lines
  then show ?read by (auto simp: hive_text_read)
qed

section \<open>Known handles\<close>

lemma known_handles_shape:
  assumes "validate_known_handles (PDict d) True rp = Inr v"
  shows "\<exists>b c a r l e n. map_of d ''knownHandleAuditPassed'' = Some (PBool b)
    \<and> map_of d ''knownHandleChecked'' = Some (PInt c) \<and> map_of d ''knownHandleAbsent'' = Some (PInt a)
    \<and> map_of d ''knownHandleReused'' = Some (PInt r) \<and> map_of d ''knownHandleLeaked'' = Some (PInt l)
    \<and> map_of d ''knownHandleError'' = Some (PInt e) \<and> map_of d ''knownHandleHelperControlsPassed'' = Some (PInt n)
    \<and> c \<le> 3 \<and> a + r + l = c \<and> (b \<or> rp \<longrightarrow> b \<and> c = 3 \<and> a + r = 3 \<and> l = 0 \<and> e = 0 \<and> n = 6)
    \<and> each (\<lambda>k. andthen (py_item (PDict d) k) (\<lambda>x. Inr (k, x))) (sort HANDLE_KEYS) = Inr (items v)"
proof -
  define num where "num = filter (\<lambda>k. k \<noteq> ''knownHandleAuditScope'' \<and> k \<noteq> ''knownHandleAuditPassed'') HANDLE_KEYS"
  have numbers: "number_fields (PDict d) num ''Known-handle numeric type/range'' = Inr ()"
    and scope: "ensure (item_is (\<lambda>x. py_eq x (PStr HANDLE_SCOPE)) (PDict d) ''knownHandleAuditScope'') ''Known-handle scope escalation'' = Inr ()"
    using assms unfolding num_def by (auto simp: validate_known_handles_def handle_keys_in_def andthen_ok req_ok then_do_ok split: if_splits)
  obtain p where p: "map_of d ''knownHandleAuditPassed'' = Some p" "is_bool p"
    using assms by (auto simp: validate_known_handles_def handle_keys_in_def andthen_ok req_ok then_do_ok py_item_ok split: if_splits)
  then obtain b where b: "map_of d ''knownHandleAuditPassed'' = Some (PBool b)" by (auto simp: type_iff)
  have f: "\<exists>i. map_of d k = Some (PInt i) \<and> 0 \<le> i" if "k \<in> set num" for k
    using numbers that by (auto simp: number_fields_ok)
  have m: "set num = {''knownHandleChecked'', ''knownHandleAbsent'', ''knownHandleReused'', ''knownHandleLeaked'',
      ''knownHandleError'', ''knownHandleHelperControlsPassed''}" by (auto simp: num_def HANDLE_KEYS_def)
  obtain c a r l e n where i: "map_of d ''knownHandleChecked'' = Some (PInt c)" "map_of d ''knownHandleAbsent'' = Some (PInt a)"
    "map_of d ''knownHandleReused'' = Some (PInt r)" "map_of d ''knownHandleLeaked'' = Some (PInt l)"
    "map_of d ''knownHandleError'' = Some (PInt e)" "map_of d ''knownHandleHelperControlsPassed'' = Some (PInt n)"
    "0 \<le> a" "0 \<le> r" "0 \<le> l"
    using f [of "''knownHandleChecked''"]
      f [of "''knownHandleAbsent''"]
      f [of "''knownHandleReused''"]
      f [of "''knownHandleLeaked''"]
      f [of "''knownHandleError''"]
      f [of "''knownHandleHelperControlsPassed''"] by (auto simp: m)
  have "req (c \<le> 3 \<and> a + r + l = c \<and> n \<le> 6) ''Inconsistent known-handle accounting'' (
      then_do (if b \<or> rp then req (b \<and> c = 3 \<and> a + r = 3 \<and> l = 0 \<and> e = 0 \<and> n = 6) ''Known-handle admission did not pass'' (Inr ()) else Inr ()) (
      andthen (each (\<lambda>k. andthen (py_item (PDict d) k) (\<lambda>x. Inr (k, x))) (sort HANDLE_KEYS)) (\<lambda>d. Inr (PDict d)))) = Inr v"
  proof -
    have "truth (PBool b) = b" by (simp add: truth_def)
    then show ?thesis using assms numbers scope i b unfolding validate_known_handles_def num_def [symmetric]
      by (simp add: handle_keys_in_def req_ok then_do_ok int_item_def py_item_PDict truth_def split: if_splits)
  qed
  then have "c \<le> 3 \<and> a + r + l = c \<and> (b \<or> rp \<longrightarrow> b \<and> c = 3 \<and> a + r = 3 \<and> l = 0 \<and> e = 0 \<and> n = 6)
    \<and> each (\<lambda>k. andthen (py_item (PDict d) k) (\<lambda>x. Inr (k, x))) (sort HANDLE_KEYS) = Inr (items v)"
    by (simp only: req_ok then_do_ok andthen_ok split: if_splits) auto
  then show ?thesis using b i by blast
qed

text \<open>C14. A mandatory known-handle observation is accepted only when the three broker handle values are
  fully accounted for; one that claims or needs a pass has no leak, no error and all six helper
  controls, and the returned projection holds exactly the reviewed keys with the observed values.\<close>

theorem known_handles_accounting:
  assumes "validate_known_handles (PDict d) True require_pass = Inr v"
  shows "\<exists>b c a r l. map_of d ''knownHandleAuditPassed'' = Some (PBool b)
    \<and> map_of d ''knownHandleAbsent'' = Some (PInt a) \<and> map_of d ''knownHandleReused'' = Some (PInt r)
    \<and> map_of d ''knownHandleLeaked'' = Some (PInt l) \<and> map_of d ''knownHandleChecked'' = Some (PInt c)
    \<and> a + r + l = c \<and> c \<le> 3 \<and> (b \<or> require_pass \<longrightarrow> b \<and> c = 3 \<and> l = 0
         \<and> map_of d ''knownHandleError'' = Some (PInt 0) \<and> map_of d ''knownHandleHelperControlsPassed'' = Some (PInt 6))
    \<and> map fst (items v) = sort HANDLE_KEYS \<and> list_all (\<lambda>(k, x). map_of d k = Some x) (items v)"
proof -
  from known_handles_shape [OF assms]
  obtain b c a r l e n where k: "map_of d ''knownHandleAuditPassed'' = Some (PBool b)
    \<and> map_of d ''knownHandleChecked'' = Some (PInt c) \<and> map_of d ''knownHandleAbsent'' = Some (PInt a)
    \<and> map_of d ''knownHandleReused'' = Some (PInt r) \<and> map_of d ''knownHandleLeaked'' = Some (PInt l)
    \<and> map_of d ''knownHandleError'' = Some (PInt e) \<and> map_of d ''knownHandleHelperControlsPassed'' = Some (PInt n)
    \<and> c \<le> 3 \<and> a + r + l = c \<and> (b \<or> require_pass \<longrightarrow> b \<and> c = 3 \<and> a + r = 3 \<and> l = 0 \<and> e = 0 \<and> n = 6)
    \<and> each (\<lambda>k. andthen (py_item (PDict d) k) (\<lambda>x. Inr (k, x))) (sort HANDLE_KEYS) = Inr (items v)"
    by blast
  have "list_all2 (\<lambda>k (l, x). k = l \<and> map_of d k = Some x) (sort HANDLE_KEYS) (items v)"
    using k by (auto simp: each_ok_iff andthen_ok py_item_ok elim!: list_all2_mono)
  then have "map fst (items v) = sort HANDLE_KEYS \<and> list_all (\<lambda>(k, x). map_of d k = Some x) (items v)"
    by (induction rule: list_all2_induct) auto
  then show ?thesis using k by blast
qed

definition handle_sample :: "(string \<times> pyval) list" where
  "handle_sample = [(''knownHandleAuditScope'', PStr HANDLE_SCOPE), (''knownHandleAuditPassed'', PBool True),
     (''knownHandleChecked'', PInt 3), (''knownHandleAbsent'', PInt 2), (''knownHandleReused'', PInt 1),
     (''knownHandleLeaked'', PInt 0), (''knownHandleError'', PInt 0), (''knownHandleHelperControlsPassed'', PInt 6)]"

theorem known_handles_accounting_witness:
  "\<exists>v. validate_known_handles (PDict handle_sample) True True = Inr v \<and> map fst (items v) = sort HANDLE_KEYS"
proof -
  have "\<not> isl (validate_known_handles (PDict handle_sample) True True)" by code_simp
  then obtain v where v: "validate_known_handles (PDict handle_sample) True True = Inr v"
    by (auto simp only: returns_iff [symmetric])
  then show ?thesis using known_handles_accounting [OF v] by blast
qed

end
