(* ===== verification/Dependency_Seed.thy ===== *)
theory Dependency_Seed
  imports PyText PyHash
begin

text \<open>
  The dependency allowlist compiler, \<^verbatim>\<open>src/scripts/hosted_dependency_seed.py\<close>: the bounded document
  built from the XML parser's callbacks and the exact-artifact grammar read out of it.

  The XML parser (\<open>xml.parsers.expat\<close>) is the parameter \<open>expat\<close>: the callbacks it delivers for the
  bytes, in order, and whether it then reports success.  A callback that raises ends the parse.
  A node is attached to its parent when it is closed instead of when it is opened; siblings keep
  their order, and a document with an unclosed node is refused in both cases.

  The lemmas show that the boolean text is recognised independently of how the parser splits it,
  that accepted artifacts are unique up to letter case, sorted, and addressable, and that the
  counters of the document are the numbers of elements, components and artifacts of the accepted
  tree, within their limits.
\<close>

section \<open>Constants\<close>

definition MAX_XML_BYTES :: int where "MAX_XML_BYTES = 1024 * 1024"
definition MAX_COMPONENTS :: int where "MAX_COMPONENTS = 2048"
definition MAX_ARTIFACTS :: int where "MAX_ARTIFACTS = 4096"
definition MAX_ELEMENTS :: int where "MAX_ELEMENTS = 10000"
definition MAX_BASENAME_BYTES :: int where "MAX_BASENAME_BYTES = 128"
definition MAX_RELATIVE_BYTES :: int where "MAX_RELATIVE_BYTES = 512"
definition MAX_ORIGIN_BYTES :: int where "MAX_ORIGIN_BYTES = 256"

definition NAMESPACE :: string where
  "NAMESPACE = ''https://schema.gradle.org/dependency-verification''"

definition SCHEMA_NAMESPACE :: string where
  "SCHEMA_NAMESPACE = ''http://www.w3.org/2001/XMLSchema-instance''"

definition SCHEMA_LOCATION :: string where
  "SCHEMA_LOCATION = NAMESPACE @ '' '' @ NAMESPACE @ ''/dependency-verification-1.4.xsd''"

definition SCHEMA_ATTRIBUTE :: string where
  "SCHEMA_ATTRIBUTE = SCHEMA_NAMESPACE @ ''}schemaLocation''"

definition FILESTORE_PREFIX :: string where
  "FILESTORE_PREFIX = ''caches/modules-2/files-2.1''"

definition XML_SPACE :: "char \<Rightarrow> bool" where
  "XML_SPACE c \<longleftrightarrow> c = CHR '' '' \<or> c = CHR 0x09 \<or> c = CHR 0x0D \<or> c = CHR 0x0A"

definition base_char :: "char \<Rightarrow> bool" where
  "base_char c \<longleftrightarrow> is_alnum c \<or> c = CHR ''.'' \<or> c = CHR ''_'' \<or> c = CHR ''+'' \<or> c = CHR ''-''"

definition BASENAME :: "string \<Rightarrow> bool" where
  "BASENAME s = (case s of [] \<Rightarrow> False | c # t \<Rightarrow> is_alnum c \<and> list_all base_char t \<and> len t \<le> 127)"

definition SHA256 :: "string \<Rightarrow> bool" where
  "SHA256 s = hexn 64 s"

definition DEVICES :: "string list" where
  "DEVICES = [''CON'', ''PRN'', ''AUX'', ''NUL'', ''CONIN$'', ''CONOUT$'']
     @ concat (map (\<lambda>p. map (\<lambda>n. p @ show_nat n) [1..<10]) [''COM'', ''LPT''])"

definition BOOLEAN_TEXT :: "string \<Rightarrow> string option" where
  "BOOLEAN_TEXT tag = (if tag = ''verify-metadata'' then Some ''true''
     else if tag = ''verify-signatures'' then Some ''false'' else None)"

definition TAGS :: "string list" where
  "TAGS = [''verification-metadata'', ''configuration'', ''components'', ''component'', ''artifact'', ''sha256'',
     ''verify-metadata'', ''verify-signatures'']"

section \<open>Names\<close>

definition upper :: "string \<Rightarrow> string" where
  "upper s = map (\<lambda>c. if is_lower c then char_of (cc c - 32) else c) s"

text \<open>\<open>value.split(".", 1)[0]\<close>\<close>

definition first_label :: "string \<Rightarrow> string" where
  "first_label s = fst (partition_on CHR ''.'' s)"

definition basename :: "string \<Rightarrow> string res" where
  "basename v =
     req (BASENAME v) ''SEED_BASENAME'' (
     req (len v \<le> MAX_BASENAME_BYTES \<and> last v \<noteq> CHR ''.'') ''SEED_BASENAME'' (
     req (upper (first_label v) \<notin> set DEVICES) ''SEED_DEVICE_NAME'' (Inr v)))"

section \<open>The document\<close>

datatype node = Node (tag: string) (attributes: "(string \<times> string) list") (children: "node list")

record open_node =
  open_tag :: string
  open_attributes :: "(string \<times> string) list"
  open_children :: "node list"
  boolean_position :: nat

record document =
  stack :: "open_node list"
  root :: "node option"
  elements :: int
  components :: int
  artifacts :: int

definition new_document :: document where
  "new_document = \<lparr>stack = [], root = None, elements = 0, components = 0, artifacts = 0\<rparr>"

definition qualify :: "string \<Rightarrow> string" where
  "qualify t = NAMESPACE @ ''}'' @ t"

definition start :: "string \<Rightarrow> (string \<times> string) list \<Rightarrow> document \<Rightarrow> document res" where
  "start q attrs d =
     req (starts (qualify []) q) ''XML_NAMESPACE'' (
     let t = drop (length (qualify [])) q in
     req (t \<in> set TAGS) ''XML_ELEMENT'' (
     let d = d\<lparr>elements := elements d + 1,
               components := components d + (if t = ''component'' then 1 else 0),
               artifacts := artifacts d + (if t = ''artifact'' then 1 else 0)\<rparr> in
     req (elements d \<le> MAX_ELEMENTS) ''XML_ELEMENT_LIMIT'' (
     req (components d \<le> MAX_COMPONENTS) ''XML_COMPONENT_LIMIT'' (
     req (artifacts d \<le> MAX_ARTIFACTS) ''XML_ARTIFACT_LIMIT'' (
     req (len (stack d) < 5) ''XML_DEPTH_LIMIT'' (
     req (stack d \<noteq> [] \<or> root d = None) ''XML_ROOT'' (
     Inr (d\<lparr>stack := \<lparr>open_tag = t, open_attributes = attrs, open_children = [], boolean_position = 0\<rparr> # stack d\<rparr>))))))))"

definition close_node :: "open_node \<Rightarrow> node" where
  "close_node n = Node (open_tag n) (open_attributes n) (open_children n)"

definition end_element :: "string \<Rightarrow> document \<Rightarrow> document res" where
  "end_element q d = (case stack d of
      [] \<Rightarrow> Inl IndexError
    | n # rest \<Rightarrow>
        req (q = qualify (open_tag n)) ''XML_NESTING'' (
        req (case BOOLEAN_TEXT (open_tag n) of None \<Rightarrow> True | Some s \<Rightarrow> boolean_position n = length s) ''XML_CONFIGURATION'' (
        Inr (case rest of
          [] \<Rightarrow> d\<lparr>stack := [], root := Some (close_node n)\<rparr>
        | p # ps \<Rightarrow> d\<lparr>stack := p\<lparr>open_children := open_children p @ [close_node n]\<rparr> # ps\<rparr>))))"

text \<open>One character of the boolean text: the position in the expected word, or \<open>None\<close>.\<close>

definition boolean_char :: "string \<Rightarrow> char \<Rightarrow> nat \<Rightarrow> nat res" where
  "boolean_char expected c p =
     (if XML_SPACE c \<and> (p = 0 \<or> p = length expected) then Inr p
      else req (p < length expected \<and> c = expected ! p) ''XML_CONFIGURATION'' (Inr (p + 1)))"

definition char_data :: "string \<Rightarrow> document \<Rightarrow> document res" where
  "char_data v d =
     (let mixed = req (list_all XML_SPACE v) ''XML_MIXED_TEXT'' (Inr d) in
      case stack d of
        [] \<Rightarrow> mixed
      | n # rest \<Rightarrow>
          (case BOOLEAN_TEXT (open_tag n) of
             None \<Rightarrow> mixed
           | Some expected \<Rightarrow> andthen (loop (boolean_char expected) v (boolean_position n)) (\<lambda>p.
               Inr (d\<lparr>stack := n\<lparr>boolean_position := p\<rparr> # rest\<rparr>))))"

text \<open>The callbacks.  \<open>Unsupported\<close> stands for the doctype, entity, external-entity and
  processing-instruction callbacks, which are all \<open>_forbidden\<close>.\<close>

datatype event =
    StartElement string "(string \<times> string) list"
  | EndElement string
  | CharacterData string
  | XmlDecl string "string option" int
  | StartNamespaceDecl string
  | Unsupported

definition xml_declaration :: "string \<Rightarrow> string option \<Rightarrow> int \<Rightarrow> unit res" where
  "xml_declaration version encoding standalone =
     req (version = ''1.0'' \<and> (case encoding of None \<Rightarrow> True | Some e \<Rightarrow> upper e = ''UTF-8'') \<and> standalone = -1)
       ''XML_DECLARATION'' (Inr ())"

definition namespace :: "string \<Rightarrow> unit res" where
  "namespace uri = req (uri = NAMESPACE \<or> uri = SCHEMA_NAMESPACE) ''XML_NAMESPACE_DECLARATION'' (Inr ())"

definition forbidden :: "'a res" where
  "forbidden = Inl (Refused ''XML_UNSUPPORTED_DECLARATION'')"

fun handle :: "event \<Rightarrow> document \<Rightarrow> document res" where
  "handle (StartElement q attrs) d = start q attrs d"
| "handle (EndElement q) d = end_element q d"
| "handle (CharacterData v) d = char_data v d"
| "handle (XmlDecl v e s) d = then_do (xml_declaration v e s) (Inr d)"
| "handle (StartNamespaceDecl u) d = then_do (namespace u) (Inr d)"
| "handle Unsupported d = forbidden"

section \<open>The grammar\<close>

record artifact =
  group :: string
  module :: string
  version :: string
  name :: string
  sha :: string

record allowlist =
  allowed :: "artifact list"
  source_sha256 :: string
  authority_sha256 :: string
  component_count :: int
  element_count :: int

definition check_attributes :: "node \<Rightarrow> string list \<Rightarrow> string list \<Rightarrow> unit res" where
  "check_attributes n required optional =
     req (set required \<subseteq> set (map fst (attributes n)) \<and> set (map fst (attributes n)) \<subseteq> set required \<union> set optional)
       ''XML_ATTRIBUTES'' (Inr ())"

definition check_children :: "node \<Rightarrow> string list \<Rightarrow> unit res" where
  "check_children n tags = req (map tag (children n) = tags) ''XML_CHILDREN'' (Inr ())"

definition attribute :: "node \<Rightarrow> string \<Rightarrow> string res" where
  "attribute n k = (case map_of (attributes n) k of None \<Rightarrow> Inl KeyError | Some v \<Rightarrow> Inr v)"

definition child :: "node \<Rightarrow> nat \<Rightarrow> node res" where
  "child n i = (if i < length (children n) then Inr (children n ! i) else Inl IndexError)"

text \<open>The loop state: \<open>rows\<close>, \<open>component_keys\<close>, \<open>artifact_keys\<close> and \<open>prefixes\<close>.\<close>

record compile_state =
  rows :: "artifact list"
  component_keys :: "string list list"
  artifact_keys :: "string list list"
  prefixes :: "(string list \<times> string list) list"

definition zeros40 :: string where
  "zeros40 = replicate 40 (CHR ''0'')"

definition relative_path :: "string list \<Rightarrow> string \<Rightarrow> string" where
  "relative_path coordinate nm = join ''/'' (FILESTORE_PREFIX # coordinate @ [zeros40, nm])"

definition compile_artifact :: "string list \<Rightarrow> string list \<Rightarrow> node \<Rightarrow> compile_state \<Rightarrow> compile_state res" where
  "compile_artifact coordinate folded a st =
     req (tag a = ''artifact'') ''XML_ARTIFACT'' (
     then_do (check_attributes a [''name''] []) (
     andthen (andthen (attribute a ''name'') basename) (\<lambda>nm.
     let key = folded @ [lower nm] in
     req (key \<notin> set (artifact_keys st)) ''XML_DUPLICATE_ARTIFACT'' (
     req (len (relative_path coordinate nm) \<le> MAX_RELATIVE_BYTES) ''SEED_RELATIVE_LIMIT'' (
     then_do (check_children a [''sha256'']) (
     andthen (child a 0) (\<lambda>checksum.
     then_do (check_attributes checksum [''value''] [''origin'']) (
     then_do (check_children checksum []) (
     andthen (attribute checksum ''value'') (\<lambda>v.
     req (SHA256 v) ''XML_SHA256'' (
     req (len (case map_of (attributes checksum) ''origin'' of None \<Rightarrow> [] | Some s \<Rightarrow> s) \<le> MAX_ORIGIN_BYTES) ''XML_ORIGIN_LIMIT'' (
     case coordinate of
       [g, m, ver] \<Rightarrow> Inr (st\<lparr>artifact_keys := artifact_keys st @ [key],
         rows := rows st @ [\<lparr>group = g, module = m, version = ver, name = nm, sha = v\<rparr>]\<rparr>)
     | _ \<Rightarrow> Inl TypeError))))))))))))"

text \<open>\<open>prefixes.setdefault(folded[:length], coordinate[:length])\<close> for the three lengths\<close>

definition claim_prefix :: "string list \<Rightarrow> string list \<Rightarrow> nat \<Rightarrow> (string list \<times> string list) list \<Rightarrow> (string list \<times> string list) list res" where
  "claim_prefix folded coordinate n ps = (case map_of ps (take n folded) of
      None \<Rightarrow> Inr (ps @ [(take n folded, take n coordinate)])
    | Some previous \<Rightarrow> req (previous = take n coordinate) ''XML_COMPONENT_PREFIX_ALIAS'' (Inr ps))"

definition compile_component :: "node \<Rightarrow> compile_state \<Rightarrow> compile_state res" where
  "compile_component c st =
     req (tag c = ''component'') ''XML_COMPONENT'' (
     then_do (check_attributes c [''group'', ''name'', ''version''] []) (
     andthen (each (\<lambda>k. andthen (attribute c k) basename) [''group'', ''name'', ''version'']) (\<lambda>coordinate.
     let folded = map lower coordinate in
     req (folded \<notin> set (component_keys st)) ''XML_DUPLICATE_COMPONENT'' (
     let st = st\<lparr>component_keys := component_keys st @ [folded]\<rparr> in
     andthen (loop (claim_prefix folded coordinate) [1, 2, 3] (prefixes st)) (\<lambda>ps.
     let st = st\<lparr>prefixes := ps\<rparr> in
     req (children c \<noteq> []) ''XML_EMPTY_COMPONENT'' (
     loop (compile_artifact coordinate folded) (children c) st))))))"

definition new_state :: compile_state where
  "new_state = \<lparr>rows = [], component_keys = [], artifact_keys = [], prefixes = []\<rparr>"

definition row_key :: "artifact \<Rightarrow> string list" where
  "row_key a = [group a, module a, version a, name a, sha a]"

definition canonical_rows :: "artifact list \<Rightarrow> string res" where
  "canonical_rows as = andthen (json_dumps (PList (map (\<lambda>a. PList (map PStr (row_key a))) as))) (\<lambda>j.
     Inr (''P2PKIT_DEPENDENCY_ALLOWLIST_V1'' @ [CHR 0x0A] @ j @ [CHR 0x0A]))"

text \<open>The checks of the parsed tree, after \<open>parser.Parse\<close>.\<close>

definition compile_root :: "node \<Rightarrow> artifact list res" where
  "compile_root r =
     req (tag r = ''verification-metadata'') ''XML_ROOT'' (
     then_do (check_attributes r [SCHEMA_ATTRIBUTE] []) (
     andthen (attribute r SCHEMA_ATTRIBUTE) (\<lambda>loc.
     req (loc = SCHEMA_LOCATION) ''XML_SCHEMA_LOCATION'' (
     then_do (check_children r [''configuration'', ''components'']) (
     andthen (child r 0) (\<lambda>configuration. andthen (child r 1) (\<lambda>comps.
     then_do (check_attributes configuration [] []) (
     then_do (check_children configuration [''verify-metadata'', ''verify-signatures'']) (
     then_do (check_each (\<lambda>n. then_do (check_attributes n [] []) (check_children n [])) (children configuration)) (
     then_do (check_attributes comps [] []) (
     req (children comps \<noteq> []) ''XML_EMPTY_COMPONENTS'' (
     andthen (loop compile_component (children comps) new_state) (\<lambda>st.
     Inr (sort_key row_key (rows st)))))))))))))))"

definition parse_allowlist :: "(string \<Rightarrow> event list \<times> bool) \<Rightarrow> string \<Rightarrow> allowlist res" where
  "parse_allowlist expat raw =
     req (0 < len raw \<and> len raw \<le> MAX_XML_BYTES) ''XML_BYTE_LIMIT'' (
     req (CHR 0x00 \<notin> set raw) ''XML_ENCODING'' (
     req (utf8_points False raw \<noteq> None) ''XML_ENCODING'' (
     andthen (loop handle (fst (expat raw)) new_document) (\<lambda>d.
     req (snd (expat raw)) ''XML_MALFORMED'' (
     case root d of
       None \<Rightarrow> Inl (Refused ''XML_ROOT'')
     | Some r \<Rightarrow>
         req (stack d = []) ''XML_ROOT'' (
         andthen (compile_root r) (\<lambda>as.
         andthen (canonical_rows as) (\<lambda>canonical.
         Inr \<lparr>allowed = as, source_sha256 = sha256 raw, authority_sha256 = sha256 canonical,
              component_count = components d, element_count = elements d\<rparr>))))))))"

section \<open>Boolean text\<close>

lemma char_data_split: "char_data (v @ w) d = andthen (char_data v d) (char_data w)"
proof (cases "stack d")
  case Nil
  then show ?thesis by (auto simp: char_data_def req_def)
next
  case (Cons n rest)
  show ?thesis
  proof (cases "BOOLEAN_TEXT (open_tag n)")
    case None
    then show ?thesis using Cons by (auto simp: char_data_def req_def)
  next
    case (Some e)
    then show ?thesis using Cons
      by (cases "loop (boolean_char e) v (boolean_position n)") (simp_all add: char_data_def loop_append)
  qed
qed

definition spaces :: "string \<Rightarrow> bool" where
  "spaces s = list_all XML_SPACE s"

text \<open>From position \<open>p\<close> the rest of the word must follow, with spaces only around the whole word.\<close>

lemma boolean_tail:
  assumes "p = length e" shows "loop (boolean_char e) s p = Inr q \<longleftrightarrow> spaces s \<and> q = p"
  using assms by (induction s) (auto simp: boolean_char_def spaces_def req_def)

lemma boolean_middle:
  assumes "list_all (\<lambda>c. \<not> XML_SPACE c) e" "0 < p" "p \<le> length e"
  shows "loop (boolean_char e) s p = Inr (length e) \<longleftrightarrow> (\<exists>t. spaces t \<and> s = drop p e @ t)"
  using assms(2,3)
proof (induction s arbitrary: p)
  case Nil
  then show ?case by (auto simp: spaces_def)
next
  case (Cons c s)
  show ?case
  proof (cases "p = length e")
    case True
    then show ?thesis using boolean_tail [of p e "c # s" "length e"] by auto
  next
    case False
    with Cons.prems have p: "p < length e" by simp
    have d: "drop p e = e ! p # drop (Suc p) e" using p by (simp add: Cons_nth_drop_Suc)
    have "loop (boolean_char e) (c # s) p = Inr (length e) \<longleftrightarrow> c = e ! p \<and> loop (boolean_char e) s (Suc p) = Inr (length e)"
      using p Cons.prems by (auto simp: boolean_char_def req_def)
    also have "\<dots> \<longleftrightarrow> c = e ! p \<and> (\<exists>t. spaces t \<and> s = drop (Suc p) e @ t)"
      using Cons.IH [of "Suc p"] p by simp
    finally show ?thesis by (auto simp: d)
  qed
qed

lemma boolean_word:
  assumes "list_all (\<lambda>c. \<not> XML_SPACE c) e" "e \<noteq> []"
  shows "loop (boolean_char e) s 0 = Inr (length e) \<longleftrightarrow> (\<exists>a b. spaces a \<and> spaces b \<and> s = a @ e @ b)"
proof (induction s)
  case Nil
  then show ?case using assms by auto
next
  case (Cons c s)
  obtain x xs where e: "e = x # xs" using assms by (cases e) auto
  show ?case
  proof (cases "XML_SPACE c")
    case True
    then have "c \<noteq> x" using assms e by auto
    then have "(\<exists>a b. spaces a \<and> spaces b \<and> c # s = a @ e @ b) \<longleftrightarrow> (\<exists>a b. spaces a \<and> spaces b \<and> s = a @ e @ b)"
      using True by (auto simp: spaces_def e Cons_eq_append_conv) (metis append_Cons list.pred_inject(2))
    then show ?thesis using Cons True by (simp add: boolean_char_def)
  next
    case False
    then have "loop (boolean_char e) (c # s) 0 = Inr (length e) \<longleftrightarrow> c = x \<and> loop (boolean_char e) s 1 = Inr (length e)"
      by (auto simp: boolean_char_def req_def e)
    also have "\<dots> \<longleftrightarrow> c = x \<and> (\<exists>t. spaces t \<and> s = xs @ t)"
      using boolean_middle [OF assms(1), of 1 s] e by simp
    also have "\<dots> \<longleftrightarrow> (\<exists>a b. spaces a \<and> spaces b \<and> c # s = a @ e @ b)"
    proof
      assume "c = x \<and> (\<exists>t. spaces t \<and> s = xs @ t)"
      then obtain t where "spaces t" "c # s = [] @ e @ t" by (auto simp: e)
      moreover have "spaces []" by (simp add: spaces_def)
      ultimately show "\<exists>a b. spaces a \<and> spaces b \<and> c # s = a @ e @ b" by blast
    qed (use False in \<open>auto simp: spaces_def e Cons_eq_append_conv\<close>)
    finally show ?thesis .
  qed
qed

section \<open>Document bounds\<close>

definition document_ok :: "document \<Rightarrow> bool" where
  "document_ok d \<longleftrightarrow> 0 \<le> elements d \<and> elements d \<le> MAX_ELEMENTS \<and> components d \<le> MAX_COMPONENTS
     \<and> artifacts d \<le> MAX_ARTIFACTS \<and> len (stack d) \<le> 5"

lemma handle_ok: "document_ok d \<Longrightarrow> handle ev d = Inr d' \<Longrightarrow> document_ok d'"
proof (induction ev d rule: handle.induct)
  case (1 q attrs d)
  then show ?case by (auto simp: start_def ok_iff Let_def document_ok_def len_def)
next
  case (2 q d)
  then show ?case by (auto simp: end_element_def ok_iff document_ok_def len_def split: list.splits)
next
  case (3 v d)
  then show ?case by (auto simp: char_data_def ok_iff Let_def document_ok_def len_def split: list.splits option.splits)
qed (auto simp: ok_iff forbidden_def)

lemma document_bounds: "loop handle evs new_document = Inr d \<Longrightarrow> document_ok d"
proof -
  have "document_ok new_document"
    by (simp add: document_ok_def new_document_def MAX_ELEMENTS_def MAX_COMPONENTS_def MAX_ARTIFACTS_def len_def)
  then show "loop handle evs new_document = Inr d \<Longrightarrow> ?thesis"
    by (rule loop_invariant [of handle evs new_document d document_ok, rotated]) (auto intro: handle_ok)
qed

text \<open>The counters are the numbers of tags in the tree built so far: the closed root or the open nodes
  with their closed children.\<close>

fun node_tags :: "node \<Rightarrow> string list" where
  "node_tags (Node t attrs cs) = t # concat (map node_tags cs)"

definition open_tags :: "open_node \<Rightarrow> string list" where
  "open_tags n = open_tag n # concat (map node_tags (open_children n))"

definition doc_tags :: "document \<Rightarrow> string list" where
  "doc_tags d = (case root d of None \<Rightarrow> [] | Some r \<Rightarrow> node_tags r) @ concat (map open_tags (stack d))"

definition counted :: "document \<Rightarrow> bool" where
  "counted d \<longleftrightarrow> elements d = int (length (doc_tags d)) \<and> components d = int (count_list (doc_tags d) ''component'')
     \<and> artifacts d = int (count_list (doc_tags d) ''artifact'') \<and> (stack d \<noteq> [] \<longrightarrow> root d = None)"

lemma close_node_tags [simp]: "node_tags (close_node n) = open_tags n"
  by (simp add: close_node_def open_tags_def)

lemma handle_counted: "counted d \<Longrightarrow> handle ev d = Inr d' \<Longrightarrow> counted d'"
proof (induction ev d rule: handle.induct)
  case (1 q attrs d)
  then show ?case by (auto simp: start_def ok_iff Let_def counted_def doc_tags_def open_tags_def split: option.splits)
next
  case (2 q d)
  then show ?case by (auto simp: end_element_def ok_iff counted_def doc_tags_def open_tags_def split: list.splits)
next
  case (3 v d)
  then show ?case
    by (auto simp: char_data_def ok_iff Let_def counted_def doc_tags_def open_tags_def split: list.splits option.splits)
qed (auto simp: ok_iff forbidden_def)

lemma document_counted: "loop handle evs new_document = Inr d \<Longrightarrow> counted d"
proof -
  have "counted new_document" by (simp add: counted_def doc_tags_def new_document_def)
  then show "loop handle evs new_document = Inr d \<Longrightarrow> ?thesis"
    by (rule loop_invariant [of handle evs new_document d counted, rotated]) (auto intro: handle_counted)
qed

section \<open>Accepted artifacts\<close>

definition coordinate_of :: "artifact \<Rightarrow> string list" where
  "coordinate_of a = [group a, module a, version a]"

definition artifact_key :: "artifact \<Rightarrow> string list" where
  "artifact_key a = map lower (coordinate_of a) @ [lower (name a)]"

definition artifact_ok :: "artifact \<Rightarrow> bool" where
  "artifact_ok a \<longleftrightarrow> list_all (\<lambda>x. basename x = Inr x) (coordinate_of a @ [name a]) \<and> hexn 64 (sha a)
     \<and> len (relative_path (coordinate_of a) (name a)) \<le> 512"

definition compile_ok :: "compile_state \<Rightarrow> bool" where
  "compile_ok st \<longleftrightarrow> distinct (artifact_keys st) \<and> artifact_keys st = map artifact_key (rows st)
     \<and> list_all artifact_ok (rows st)
     \<and> list_all (\<lambda>a. list_all (\<lambda>n. map_of (prefixes st) (take n (map lower (coordinate_of a))) = Some (take n (coordinate_of a))) [1, 2, 3])
         (rows st)"

lemma prefix_claimed:
  assumes "compile_ok st" "x \<in> set (rows st)" "n \<in> {1, 2, 3}"
  shows "map_of (prefixes st) (take n (map lower (coordinate_of x))) = Some (take n (coordinate_of x))"
proof -
  have "n \<in> set [1, 2, 3]" using assms(3) by simp
  then show ?thesis using assms(1,2) unfolding compile_ok_def list_all_iff by blast
qed

lemma basename_ok: "basename v = Inr w \<Longrightarrow> basename v = Inr v \<and> w = v"
  by (auto simp: basename_def req_ok)

lemma basename_id: "basename v = Inr w \<Longrightarrow> basename w = Inr w"
  using basename_ok by blast

lemma distinct_map_insort: "distinct (map f (insort_key g x xs)) \<longleftrightarrow> f x \<notin> f ` set xs \<and> distinct (map f xs)"
  by (induction xs) (auto simp: set_insort_key)

lemma distinct_map_sort: "distinct (map f (sort_key g xs)) \<longleftrightarrow> distinct (map f xs)"
  by (induction xs) (simp_all add: distinct_map_insort)

lemma map_of_snoc: "map_of ps k = Some v \<Longrightarrow> map_of (ps @ qs) k = Some v"
  by (simp add: map_add_def)

lemma claim_prefix_ok:
  assumes "claim_prefix folded coordinate n ps = Inr qs"
  shows "map_of qs (take n folded) = Some (take n coordinate) \<and> (\<forall>k v. map_of ps k = Some v \<longrightarrow> map_of qs k = Some v)"
  using assms by (auto simp: claim_prefix_def ok_iff map_add_def split: option.splits)

lemma claim_prefixes_ok:
  assumes "loop (claim_prefix folded coordinate) ns ps = Inr qs"
  shows "(\<forall>n \<in> set ns. map_of qs (take n folded) = Some (take n coordinate)) \<and> (\<forall>k v. map_of ps k = Some v \<longrightarrow> map_of qs k = Some v)"
  using assms
proof (induction ns arbitrary: ps)
  case (Cons n ns)
  then obtain rs where r: "claim_prefix folded coordinate n ps = Inr rs" "loop (claim_prefix folded coordinate) ns rs = Inr qs"
    by (auto simp: ok_iff)
  then show ?case using Cons.IH [OF r(2)] claim_prefix_ok [OF r(1)] by auto
qed simp

lemma compile_artifact_ok:
  assumes "compile_artifact [g, m, v] (map lower [g, m, v]) a st = Inr st'" "compile_ok st"
    "list_all (\<lambda>x. basename x = Inr x) [g, m, v]"
    "list_all (\<lambda>n. map_of (prefixes st) (take n (map lower [g, m, v])) = Some (take n [g, m, v])) [1, 2, 3]"
  shows "compile_ok st' \<and> prefixes st' = prefixes st"
proof -
  obtain nm0 nm x where r0: "basename nm0 = Inr nm" "SHA256 x" "len (relative_path [g, m, v] nm) \<le> MAX_RELATIVE_BYTES"
    "map lower [g, m, v] @ [lower nm] \<notin> set (artifact_keys st)"
    "Inr (st\<lparr>artifact_keys := artifact_keys st @ [map lower [g, m, v] @ [lower nm]],
         rows := rows st @ [\<lparr>group = g, module = m, version = v, name = nm, sha = x\<rparr>]\<rparr>) = (Inr st' :: compile_state res)"
    using assms(1) unfolding compile_artifact_def Let_def req_ok then_do_ok andthen_ok list.case
    by (elim exE conjE) blast
  then have r: "basename nm = Inr nm" "SHA256 x" "len (relative_path [g, m, v] nm) \<le> MAX_RELATIVE_BYTES"
    "map lower [g, m, v] @ [lower nm] \<notin> set (artifact_keys st)"
    "st' = st\<lparr>artifact_keys := artifact_keys st @ [map lower [g, m, v] @ [lower nm]],
         rows := rows st @ [\<lparr>group = g, module = m, version = v, name = nm, sha = x\<rparr>]\<rparr>"
    using basename_ok [OF r0(1)] by simp_all
  then show ?thesis using assms(2-4)
    by (auto simp: compile_ok_def artifact_key_def coordinate_of_def artifact_ok_def SHA256_def MAX_RELATIVE_BYTES_def)
qed

lemma compile_artifacts_ok:
  assumes "loop (compile_artifact [g, m, v] (map lower [g, m, v])) as st = Inr st'" "compile_ok st"
    "list_all (\<lambda>x. basename x = Inr x) [g, m, v]"
    "list_all (\<lambda>n. map_of (prefixes st) (take n (map lower [g, m, v])) = Some (take n [g, m, v])) [1, 2, 3]"
  shows "compile_ok st'"
proof -
  have "compile_ok st' \<and> prefixes st' = prefixes st"
    by (rule loop_invariant [OF assms(1), of "\<lambda>s. compile_ok s \<and> prefixes s = prefixes st"])
      (use assms compile_artifact_ok in \<open>auto simp del: list.pred_inject\<close>)
  then show ?thesis ..
qed

lemma compile_component_ok:
  assumes "compile_component c st = Inr st'" "compile_ok st" shows "compile_ok st'"
proof -
  obtain coordinate ps where c: "each (\<lambda>k. andthen (attribute c k) basename) [''group'', ''name'', ''version''] = Inr coordinate"
    "loop (claim_prefix (map lower coordinate) coordinate) [1, 2, 3] (prefixes st) = Inr ps"
    "loop (compile_artifact coordinate (map lower coordinate)) (children c)
       (st\<lparr>component_keys := component_keys st @ [map lower coordinate], prefixes := ps\<rparr>) = Inr st'"
    using assms(1) unfolding compile_component_def Let_def req_ok then_do_ok andthen_ok
    by (elim exE conjE) simp
  obtain g m v where g: "coordinate = [g, m, v]" "list_all (\<lambda>x. basename x = Inr x) [g, m, v]"
  proof -
    from c(1) obtain x y z where "coordinate = [x, y, z]" "\<exists>u. basename u = Inr x" "\<exists>u. basename u = Inr y" "\<exists>u. basename u = Inr z"
      unfolding each_ok_iff andthen_ok list_all2_Cons1 by auto
    then show ?thesis using that [of x y z] basename_id by auto
  qed
  have ps: "(\<forall>n \<in> {1, 2, 3}. map_of ps (take n (map lower [g, m, v])) = Some (take n [g, m, v]))
      \<and> (\<forall>k w. map_of (prefixes st) k = Some w \<longrightarrow> map_of ps k = Some w)"
    using claim_prefixes_ok [OF c(2) [unfolded g]] by (auto simp only: list.set)
  have "compile_ok (st\<lparr>component_keys := component_keys st @ [map lower coordinate], prefixes := ps\<rparr>)"
    using assms(2) ps by (auto simp: compile_ok_def list_all_iff)
  then show ?thesis using compile_artifacts_ok [OF c(3) [unfolded g]] g ps by simp
qed

lemma compile_root_ok:
  assumes "compile_root r = Inr as"
  shows "\<exists>st. compile_ok st \<and> as = sort_key row_key (rows st)"
proof -
  obtain comps st where st: "loop compile_component (children comps) new_state = Inr st" "as = sort_key row_key (rows st)"
    using assms unfolding compile_root_def req_ok then_do_ok andthen_ok by (elim exE conjE) simp
  have "compile_ok new_state" by (simp add: compile_ok_def new_state_def)
  then have "compile_ok st" by (rule loop_invariant [OF st(1)]) (rule compile_component_ok)
  then show ?thesis using st by blast
qed

text \<open>What the grammar checks say about the tags of the tree.\<close>

lemma compile_artifact_tags:
  assumes "compile_artifact coordinate folded a st = Inr st'"
  shows "node_tags a = [''artifact'', ''sha256''] \<and> component_keys st' = component_keys st
    \<and> (\<exists>x. rows st' = rows st @ [x] \<and> coordinate_of x = coordinate)"
proof -
  obtain c where c: "tag a = ''artifact''" "map tag (children a) = [''sha256'']" "child a 0 = Inr c" "map tag (children c) = []"
    using assms by (auto simp: compile_artifact_def Let_def ok_iff check_children_def)
  have "component_keys st' = component_keys st \<and> (\<exists>x. rows st' = rows st @ [x] \<and> coordinate_of x = coordinate)"
    using assms unfolding compile_artifact_def Let_def req_ok then_do_ok andthen_ok
    by (elim exE conjE) (auto simp: coordinate_of_def split: list.splits)
  moreover have "node_tags a = [''artifact'', ''sha256'']"
    using c by (cases a; cases c) (auto simp: child_def split: if_splits)
  ultimately show ?thesis by simp
qed

lemma compile_artifacts_tags:
  "loop (compile_artifact coordinate folded) as st = Inr st' \<Longrightarrow>
     map node_tags as = replicate (length as) [''artifact'', ''sha256''] \<and> component_keys st' = component_keys st
     \<and> (\<exists>new. rows st' = rows st @ new \<and> length new = length as \<and> list_all (\<lambda>x. coordinate_of x = coordinate) new)"
proof (induction as arbitrary: st)
  case (Cons a as)
  then obtain s where s: "compile_artifact coordinate folded a st = Inr s" "loop (compile_artifact coordinate folded) as s = Inr st'"
    by (auto simp: ok_iff)
  from compile_artifact_tags [OF s(1)] obtain x where x: "rows s = rows st @ [x]" "coordinate_of x = coordinate"
    "node_tags a = [''artifact'', ''sha256'']" "component_keys s = component_keys st" by blast
  from Cons.IH [OF s(2)] obtain new where "rows st' = rows s @ new" "length new = length as"
    "list_all (\<lambda>x. coordinate_of x = coordinate) new" "map node_tags as = replicate (length as) [''artifact'', ''sha256'']"
    "component_keys st' = component_keys s" by blast
  then show ?case using x by (intro conjI exI [of _ "x # new"]) simp_all
qed simp

definition keys_ok :: "compile_state \<Rightarrow> bool" where
  "keys_ok st \<longleftrightarrow> distinct (component_keys st) \<and> set (component_keys st) = (\<lambda>x. map lower (coordinate_of x)) ` set (rows st)"

lemma artifact_tags_count:
  "length (concat (replicate n [''artifact'', ''sha256''])) = 2 * n"
  "count_list (concat (replicate n [''artifact'', ''sha256''])) ''component'' = 0"
  "count_list (concat (replicate n [''artifact'', ''sha256''])) ''artifact'' = n"
  by (induction n) simp_all

lemma compile_component_tags:
  assumes "compile_component c st = Inr st'" "keys_ok st"
  shows "keys_ok st' \<and> length (component_keys st') = Suc (length (component_keys st))
    \<and> length (node_tags c) + 2 * length (rows st) = Suc (2 * length (rows st'))
    \<and> count_list (node_tags c) ''component'' = 1
    \<and> count_list (node_tags c) ''artifact'' + length (rows st) = length (rows st')"
proof -
  obtain coordinate ps where c: "tag c = ''component''" "map lower coordinate \<notin> set (component_keys st)" "children c \<noteq> []"
    "loop (compile_artifact coordinate (map lower coordinate)) (children c)
       (st\<lparr>component_keys := component_keys st @ [map lower coordinate], prefixes := ps\<rparr>) = Inr st'"
    using assms(1) unfolding compile_component_def Let_def req_ok then_do_ok andthen_ok
    by (elim exE conjE) simp
  from compile_artifacts_tags [OF c(4)] obtain new where n: "rows st' = rows st @ new" "length new = length (children c)"
    "list_all (\<lambda>x. coordinate_of x = coordinate) new" "component_keys st' = component_keys st @ [map lower coordinate]"
    "map node_tags (children c) = replicate (length (children c)) [''artifact'', ''sha256'']" by auto
  have t: "node_tags c = ''component'' # concat (replicate (length (children c)) [''artifact'', ''sha256''])"
    using c(1) n(5) by (cases c) simp
  have "(\<lambda>x. map lower (coordinate_of x)) ` set new = {map lower coordinate}"
    using n(2,3) c(3) by (cases new) (auto simp: list_all_iff)
  then have "keys_ok st'" using assms(2) c(2) n by (simp add: keys_ok_def image_Un)
  then show ?thesis using n by (simp add: t artifact_tags_count)
qed

lemma compile_components_tags:
  "loop compile_component cs st = Inr st' \<Longrightarrow> keys_ok st \<Longrightarrow>
     keys_ok st' \<and> length (component_keys st') = length (component_keys st) + length cs
     \<and> length (concat (map node_tags cs)) + 2 * length (rows st) = length cs + 2 * length (rows st')
     \<and> count_list (concat (map node_tags cs)) ''component'' = length cs
     \<and> count_list (concat (map node_tags cs)) ''artifact'' + length (rows st) = length (rows st')"
proof (induction cs arbitrary: st)
  case (Cons c cs)
  then obtain s where s: "compile_component c st = Inr s" "loop compile_component cs s = Inr st'" by (auto simp: ok_iff)
  show ?case using compile_component_tags [OF s(1) Cons.prems(2)] Cons.IH [OF s(2)] by simp
qed simp

text \<open>Components that the folded keys keep apart have different coordinates, and the other way round.\<close>

lemma component_number:
  assumes "compile_ok st" "keys_ok st"
  shows "length (component_keys st) = card (coordinate_of ` set (rows st))"
proof -
  have "inj_on (map lower) (coordinate_of ` set (rows st))"
  proof (rule inj_onI)
    fix x y assume xy: "x \<in> coordinate_of ` set (rows st)" "y \<in> coordinate_of ` set (rows st)" "map lower x = map lower y"
    have "map_of (prefixes st) (map lower z) = Some z" if z: "z \<in> coordinate_of ` set (rows st)" for z
    proof -
      obtain a where "a \<in> set (rows st)" "z = coordinate_of a" using z by blast
      moreover have "take 3 (coordinate_of a) = coordinate_of a" by (simp add: coordinate_of_def)
      ultimately show ?thesis using prefix_claimed [OF assms(1), of a 3] by (simp add: take_map)
    qed
    from this [OF xy(1)] this [OF xy(2)] show "x = y" unfolding xy(3) by simp
  qed
  then have "card (map lower ` coordinate_of ` set (rows st)) = card (coordinate_of ` set (rows st))" by (rule card_image)
  then show ?thesis using assms(2) distinct_card [of "component_keys st"] by (simp add: keys_ok_def image_image)
qed

lemma compile_root_tags:
  assumes "compile_root r = Inr as"
  shows "count_list (node_tags r) ''component'' = card (coordinate_of ` set as)
    \<and> count_list (node_tags r) ''artifact'' = length as
    \<and> length (node_tags r) = 5 + card (coordinate_of ` set as) + 2 * length as"
proof -
  obtain conf comps st where c: "tag r = ''verification-metadata''" "map tag (children r) = [''configuration'', ''components'']"
    "child r 0 = Inr conf" "child r 1 = Inr comps" "map tag (children conf) = [''verify-metadata'', ''verify-signatures'']"
    "check_each (\<lambda>n. then_do (check_attributes n [] []) (check_children n [])) (children conf) = Inr ()"
    "loop compile_component (children comps) new_state = Inr st" "as = sort_key row_key (rows st)"
    using assms unfolding compile_root_def req_ok then_do_ok andthen_ok check_children_def by (elim exE conjE) simp
  have r: "children r = [conf, comps]" "tag conf = ''configuration''" "tag comps = ''components''"
    using c(2,3,4) by (auto simp: child_def map_eq_Cons_conv split: if_splits)
  obtain m n where mn: "children conf = [m, n]" "tag m = ''verify-metadata''" "tag n = ''verify-signatures''"
    using c(5) by (auto simp: map_eq_Cons_conv)
  have "children m = []" "children n = []" using c(6) by (simp_all add: mn ok_iff check_children_def)
  then have "node_tags conf = [''configuration'', ''verify-metadata'', ''verify-signatures'']"
    using mn r(2) by (cases conf; cases m; cases n) simp
  then have t: "node_tags r = [''verification-metadata'', ''configuration'', ''verify-metadata'', ''verify-signatures'', ''components'']
      @ concat (map node_tags (children comps))"
    using c(1) r by (cases r; cases comps) simp
  have k: "keys_ok new_state" "compile_ok new_state" by (simp_all add: keys_ok_def compile_ok_def new_state_def)
  have "compile_ok st" by (rule loop_invariant [OF c(7)]) (use k compile_component_ok in auto)
  moreover note compile_components_tags [OF c(7) k(1)]
  ultimately show ?thesis using component_number [of st] c(8) by (simp add: t new_state_def)
qed

lemma parse_allowlist_ok:
  assumes "parse_allowlist expat raw = Inr a"
  obtains d r where "loop handle (fst (expat raw)) new_document = Inr d" "compile_root r = Inr (allowed a)"
    "component_count a = components d" "element_count a = elements d" "source_sha256 a = sha256 raw"
    "root d = Some r" "stack d = []"
proof -
  obtain d where d: "loop handle (fst (expat raw)) new_document = Inr d" "root d \<noteq> None"
    using assms by (auto simp: parse_allowlist_def ok_iff split: option.splits)
  then obtain r where "root d = Some r" by blast
  then show ?thesis using assms d that by (auto simp: parse_allowlist_def ok_iff)
qed

section \<open>Properties\<close>

text \<open>C15. A boolean configuration element is accepted exactly when its whole text, in whatever pieces the
  parser delivers it, is the expected word with XML spaces around it.\<close>

theorem boolean_text_chunks:
  assumes "stack d = n # rest" "BOOLEAN_TEXT (open_tag n) = Some e" "boolean_position n = 0"
  shows "(\<exists>d'. loop handle (map CharacterData vs @ [EndElement (qualify (open_tag n))]) d = Inr d')
    \<longleftrightarrow> (\<exists>a b. spaces a \<and> spaces b \<and> concat vs = a @ e @ b)"
proof -
  have e: "list_all (\<lambda>c. \<not> XML_SPACE c) e" "e \<noteq> []"
    using assms(2) by (auto simp: BOOLEAN_TEXT_def XML_SPACE_def split: if_splits)
  have id: "d\<lparr>stack := n\<lparr>boolean_position := 0\<rparr> # rest\<rparr> = d" using assms by (cases d; cases n) simp
  have chunks: "loop handle (map CharacterData ws') d' = char_data (concat ws') d'" if "char_data [] d' = Inr d'" for ws' d'
    using that
  proof (induction ws' arbitrary: d')
    case (Cons w ws')
    have "char_data [] x = Inr x" if "char_data w d' = Inr x" for x
      using char_data_split [of w "[]" d'] that by simp
    then show ?case using Cons.IH by (cases "char_data w d'") (simp_all add: char_data_split)
  qed simp
  have "char_data [] d = Inr d" using assms id by (simp add: char_data_def)
  then have l: "loop handle (map CharacterData vs) d = andthen (loop (boolean_char e) (concat vs) 0) (\<lambda>p.
      Inr (d\<lparr>stack := n\<lparr>boolean_position := p\<rparr> # rest\<rparr>))"
    using chunks [of d vs] assms by (simp add: char_data_def)
  have "(\<exists>d'. loop handle (map CharacterData vs @ [EndElement (qualify (open_tag n))]) d = Inr d')
    \<longleftrightarrow> loop (boolean_char e) (concat vs) 0 = Inr (length e)"
    unfolding loop_append l using assms
    by (cases "loop (boolean_char e) (concat vs) 0") (auto simp: end_element_def ok_iff)
  then show ?thesis using boolean_word [OF e] by simp
qed

definition open_metadata :: document where
  "open_metadata = new_document\<lparr>stack := [\<lparr>open_tag = ''verify-metadata'', open_attributes = [], open_children = [], boolean_position = 0\<rparr>]\<rparr>"

theorem boolean_text_chunks_witness:
  "\<exists>d'. loop handle (map CharacterData ['' tr'', ''ue'', '' ''] @ [EndElement (qualify ''verify-metadata'')]) open_metadata = Inr d'"
proof -
  have "spaces '' '' \<and> spaces '' '' \<and> concat ['' tr'', ''ue'', '' ''] = '' '' @ ''true'' @ '' ''"
    by (simp add: spaces_def XML_SPACE_def)
  then have "\<exists>a b. spaces a \<and> spaces b \<and> concat ['' tr'', ''ue'', '' ''] = a @ ''true'' @ b" by blast
  moreover have "stack open_metadata = hd (stack open_metadata) # []" "open_tag (hd (stack open_metadata)) = ''verify-metadata''"
    "boolean_position (hd (stack open_metadata)) = 0" "BOOLEAN_TEXT ''verify-metadata'' = Some ''true''"
    by (simp_all add: open_metadata_def BOOLEAN_TEXT_def)
  ultimately show ?thesis
    using boolean_text_chunks [of open_metadata "hd (stack open_metadata)" "[]" "''true''" "['' tr'', ''ue'', '' '']"] by metis
qed

text \<open>C16. The accepted artifacts are sorted and unique up to letter case of group, module, version and
  name; components that share a case-folded prefix spell it identically; every part is a portable
  base name, every checksum 64 lower-case hexadecimal digits, and every file-store path fits.\<close>

theorem allowlist_unique:
  assumes "parse_allowlist expat raw = Inr a"
  shows "sorted (map row_key (allowed a)) \<and> distinct (map artifact_key (allowed a)) \<and> list_all artifact_ok (allowed a)
    \<and> (\<forall>x \<in> set (allowed a). \<forall>y \<in> set (allowed a). \<forall>n \<in> {1, 2, 3}.
        take n (map lower (coordinate_of x)) = take n (map lower (coordinate_of y)) \<longrightarrow>
        take n (coordinate_of x) = take n (coordinate_of y))"
proof -
  obtain r where "compile_root r = Inr (allowed a)" using assms by (rule parse_allowlist_ok)
  then obtain st where st: "compile_ok st" "allowed a = sort_key row_key (rows st)" using compile_root_ok by blast
  have s: "set (allowed a) = set (rows st)" using st by simp
  have "distinct (map artifact_key (rows st))" using st by (auto simp: compile_ok_def)
  then have "distinct (map artifact_key (allowed a))"
    unfolding st(2) by (simp add: distinct_map_sort)
  moreover have "take n (coordinate_of x) = take n (coordinate_of y)"
    if "x \<in> set (rows st)" "y \<in> set (rows st)" "n \<in> {1, 2, 3}"
      "take n (map lower (coordinate_of x)) = take n (map lower (coordinate_of y))" for x y n
    using prefix_claimed [OF st(1) that(1,3)] prefix_claimed [OF st(1) that(2,3)] that(4) by simp
  moreover have "list_all artifact_ok (allowed a)" using st by (simp add: compile_ok_def list_all_iff)
  moreover have "sorted (map row_key (allowed a))" by (simp add: st(2))
  ultimately show ?thesis unfolding s by blast
qed

text \<open>A minimal accepted document: its callbacks, for the witnesses.\<close>

definition sample_events :: "event list" where
  "sample_events =
     (let el = (\<lambda>t as inner. [StartElement (qualify t) as] @ inner @ [EndElement (qualify t)]) in
      el ''verification-metadata'' [(SCHEMA_ATTRIBUTE, SCHEMA_LOCATION)]
        (el ''configuration'' [] (el ''verify-metadata'' [] [CharacterData ''true''] @ el ''verify-signatures'' [] [CharacterData ''false''])
         @ el ''components'' [] (el ''component'' [(''group'', ''g''), (''name'', ''m''), (''version'', ''1'')]
             (el ''artifact'' [(''name'', ''b.jar'')] (el ''sha256'' [(''value'', replicate 64 (CHR ''a''))] [])
              @ el ''artifact'' [(''name'', ''a.jar'')] (el ''sha256'' [(''value'', replicate 64 (CHR ''b''))] [])))))"

definition sample_expat :: "string \<Rightarrow> event list \<times> bool" where
  "sample_expat raw = (sample_events, True)"

definition sample_rows :: "artifact list" where
  "sample_rows = [\<lparr>group = ''g'', module = ''m'', version = ''1'', name = ''a.jar'', sha = replicate 64 (CHR ''b'')\<rparr>,
     \<lparr>group = ''g'', module = ''m'', version = ''1'', name = ''b.jar'', sha = replicate 64 (CHR ''a'')\<rparr>]"

lemma sample_allowlist: "\<exists>a. parse_allowlist sample_expat ''x'' = Inr a \<and> allowed a = sample_rows"
proof -
  have p: "andthen (loop handle sample_events new_document) (\<lambda>d. andthen (case root d of None \<Rightarrow> Inl KeyError | Some r \<Rightarrow> compile_root r)
      (\<lambda>as. Inr (stack d = [], as))) = Inr (True, sample_rows)" by code_simp
  then obtain d r where d: "loop handle sample_events new_document = Inr d" "root d = Some r" "compile_root r = Inr sample_rows" "stack d = []"
    by (auto simp: ok_iff split: option.splits)
  have "\<not> isl (canonical_rows sample_rows)" by code_simp
  then obtain c where "canonical_rows sample_rows = Inr c" by (auto simp only: returns_iff [symmetric])
  then show ?thesis using d
    by (simp add: parse_allowlist_def sample_expat_def len_def MAX_XML_BYTES_def cc_def)
qed

theorem allowlist_unique_witness:
  "\<exists>a. parse_allowlist sample_expat ''x'' = Inr a \<and> allowed a = sample_rows \<and> distinct (map artifact_key (allowed a))"
proof -
  obtain a where a: "parse_allowlist sample_expat ''x'' = Inr a" "allowed a = sample_rows" using sample_allowlist by blast
  then show ?thesis using allowlist_unique [OF a(1)] by blast
qed

text \<open>C17. The counts of an accepted allowlist are exact and bounded, whatever the parser delivers: the
  component count is the number of different coordinates among the accepted rows, the element count
  is the five fixed elements, one element per component and two per row, and there are at most 2048
  components, 4096 rows and 10000 elements.\<close>

theorem allowlist_bounds:
  assumes "parse_allowlist expat raw = Inr a"
  shows "component_count a = int (card (coordinate_of ` set (allowed a)))
    \<and> element_count a = 5 + component_count a + 2 * len (allowed a)
    \<and> component_count a \<le> 2048 \<and> len (allowed a) \<le> 4096 \<and> element_count a \<le> 10000"
proof -
  obtain d r where d: "loop handle (fst (expat raw)) new_document = Inr d" "compile_root r = Inr (allowed a)"
    "component_count a = components d" "element_count a = elements d" "root d = Some r" "stack d = []"
    using assms by (rule parse_allowlist_ok)
  have "counted d" "document_ok d" using document_counted [OF d(1)] document_bounds [OF d(1)] .
  then show ?thesis using compile_root_tags [OF d(2)] d(3-6)
    by (simp add: counted_def doc_tags_def document_ok_def MAX_ELEMENTS_def MAX_COMPONENTS_def MAX_ARTIFACTS_def len_def)
qed

theorem allowlist_bounds_witness:
  "\<exists>a. parse_allowlist sample_expat ''x'' = Inr a \<and> component_count a = 1 \<and> element_count a = 10"
proof -
  obtain a where a: "parse_allowlist sample_expat ''x'' = Inr a" "allowed a = sample_rows" using sample_allowlist by blast
  have "coordinate_of ` set sample_rows = {[''g'', ''m'', ''1'']}" "len sample_rows = 2"
    by (simp_all add: sample_rows_def coordinate_of_def len_def)
  then show ?thesis using allowlist_bounds [OF a(1)] a by simp
qed

end
