(* ===== verification/Exception_Detail.thy ===== *)
theory Exception_Detail
  imports PyText
begin

text \<open>
  The bounded exception diagnostics of \<^verbatim>\<open>src/scripts/hosted_evidence_primitives.py\<close>
  (\<open>_exception_detail\<close>): a breadth-first walk over an exception and everything it links to, with
  fixed limits, in which anything cut off or uninspectable makes the result \<open>incomplete\<close> and the
  retirement state unknown.

  The exception graph is a heap from object numbers to the attributes the walk reads; reading an
  attribute may find nothing, raise, or yield a value, and \<open>str\<close> and the type name may raise.  The text
  that \<open>str\<close> gives is a plain one: a \<open>__str__\<close> that returns an object of a subclass of \<open>str\<close> with methods of
  its own is not modelled.

  The lemmas show that the walk ends with at most 64 nodes, that \<open>incomplete\<close> implies an unknown
  retirement, and that a result without \<open>incomplete\<close> has visited every exception reachable from the
  original one, so that a result that does not say "unknown" proves that no reachable exception
  carries a retirement record.
\<close>

section \<open>Objects\<close>

datatype pyobj = NoneObj | Exc nat | Other

datatype 'a attr = Absent | Raising | Present 'a

record exc_obj =
  str_of :: "string option"
  kind_of :: "string option"
  notes_of :: "pyval attr"
  carrier_of :: "pyval attr"
  cause_of :: "pyobj attr"
  context_of :: "pyobj attr"
  group_of :: "pyobj list option attr"

type_synonym heap = "nat \<Rightarrow> exc_obj"

text \<open>A resource of a retirement record, the record, and a node of the result.\<close>

datatype resource_row = BadResource | Resource string string string string

datatype retirement = Uninspectable | Resources "resource_row list"

datatype node_row =
    Reference string nat
  | Described string string string "string list option" "retirement option"

record detail =
  nodes :: "node_row list"
  incomplete :: bool
  retirementUnknown :: bool
  remaining :: int

definition new_detail :: detail where
  "new_detail = \<lparr>nodes = [], incomplete = False, retirementUnknown = False, remaining = 32 * 1024\<rparr>"

definition mark_incomplete :: "detail \<Rightarrow> detail" where
  "mark_incomplete st = st\<lparr>incomplete := True, retirementUnknown := True\<rparr>"

definition mark_if :: "bool \<Rightarrow> detail \<Rightarrow> detail" where
  "mark_if b st = (if b then mark_incomplete st else st)"

section \<open>Text\<close>

text \<open>\<open>s[:n]\<close> of a \<open>str\<close>: the first \<open>n\<close> code points.\<close>

fun py_take :: "nat \<Rightarrow> string \<Rightarrow> string" where
  "py_take n [] = []"
| "py_take n (c # s) =
     (if cc c < 128 \<or> 192 \<le> cc c
      then (case n of 0 \<Rightarrow> [] | Suc m \<Rightarrow> c # py_take m s)
      else c # py_take n s)"

definition text_of :: "pyval \<Rightarrow> int \<Rightarrow> detail \<Rightarrow> string \<times> detail" where
  "text_of v limit st = (case v of
      PStr s \<Rightarrow>
        let admitted = min limit (remaining st);
            st = mark_if (int (py_len s) > admitted) st;
            t = py_take (nat admitted) s;
            st = st\<lparr>remaining := remaining st - int (py_len t)\<rparr>
        in (t, if contains ''UNKNOWN'' t then st\<lparr>retirementUnknown := True\<rparr> else st)
    | _ \<Rightarrow> (''<non-text diagnostic>'', mark_incomplete st))"

fun texts_of :: "pyval list \<Rightarrow> int \<Rightarrow> detail \<Rightarrow> string list \<times> detail" where
  "texts_of [] limit st = ([], st)"
| "texts_of (v # vs) limit st =
     (case text_of v limit st of (t, st) \<Rightarrow> case texts_of vs limit st of (ts, st) \<Rightarrow> (t # ts, st))"

section \<open>Attributes\<close>

definition attribute :: "'a attr \<Rightarrow> 'a \<Rightarrow> detail \<Rightarrow> 'a \<times> detail" where
  "attribute a d st = (case a of Absent \<Rightarrow> (d, st) | Raising \<Rightarrow> (d, mark_incomplete st) | Present x \<Rightarrow> (x, st))"

text \<open>\<open>str(current)\<close> and \<open>type(current).__name__\<close>, with the replacement text\<close>

definition guarded :: "string option \<Rightarrow> string \<Rightarrow> detail \<Rightarrow> string \<times> detail" where
  "guarded r replacement st = (case r of Some s \<Rightarrow> (s, st) | None \<Rightarrow> (replacement, mark_incomplete st))"

definition note_texts :: "pyval \<Rightarrow> detail \<Rightarrow> string list option \<times> detail" where
  "note_texts notes st = (case notes of
      PList vs \<Rightarrow> (case texts_of (take 16 vs) 512 (mark_if (len vs > 16) st) of (ts, st) \<Rightarrow> (Some ts, st))
    | PTuple vs \<Rightarrow> (case texts_of (take 16 vs) 512 (mark_if (len vs > 16) st) of (ts, st) \<Rightarrow> (Some ts, st))
    | _ \<Rightarrow> (None, mark_incomplete st))"

section \<open>The retirement record\<close>

definition resource_keys :: "string list" where
  "resource_keys = [''phase'', ''resource'', ''status'', ''error'']"

definition good_carrier :: "pyval \<Rightarrow> bool" where
  "good_carrier c = (case c of
      PDict d \<Rightarrow> length d = 3 \<and> keys_eq d [''status'', ''resources'', ''omitted'']
        \<and> (case map_of d ''status'' of Some x \<Rightarrow> py_eq x (PStr ''UNKNOWN'') | None \<Rightarrow> False)
        \<and> (case map_of d ''resources'' of Some x \<Rightarrow> is_list x | None \<Rightarrow> False)
        \<and> (case map_of d ''omitted'' of Some x \<Rightarrow> int_and (\<lambda>i. 0 \<le> i) x | None \<Rightarrow> False)
    | _ \<Rightarrow> False)"

definition resource_text :: "pyval \<Rightarrow> detail \<Rightarrow> resource_row \<times> detail" where
  "resource_text r st = (case r of
      PDict d \<Rightarrow>
        if length d = 4 \<and> keys_eq d resource_keys then
          (case texts_of (map (\<lambda>k. the (map_of d k)) resource_keys) 512 st of
             (ts, st) \<Rightarrow> (Resource (ts ! 0) (ts ! 1) (ts ! 2) (ts ! 3), st))
        else (BadResource, mark_incomplete st)
    | _ \<Rightarrow> (BadResource, mark_incomplete st))"

fun resource_texts :: "pyval list \<Rightarrow> detail \<Rightarrow> resource_row list \<times> detail" where
  "resource_texts [] st = ([], st)"
| "resource_texts (r # rs) st =
     (case resource_text r st of (x, st) \<Rightarrow> case resource_texts rs st of (xs, st) \<Rightarrow> (x # xs, st))"

definition carrier_row :: "pyval \<Rightarrow> detail \<Rightarrow> retirement option \<times> detail" where
  "carrier_row c st =
     (if c = PNone then (None, st)
      else
      let st = st\<lparr>retirementUnknown := True\<rparr> in
      if \<not> good_carrier c then (Some Uninspectable, mark_incomplete st)
      else
      let resources = elems (the (map_of (items c) ''resources''));
          omitted = the (map_of (items c) ''omitted'')
      in case resource_texts (take 32 resources) (mark_if (len resources > 32 \<or> truth omitted) st) of
           (rs, st) \<Rightarrow> (Some (Resources rs), st))"

section \<open>Links\<close>

definition link_edges :: "nat \<Rightarrow> (string \<times> pyobj) list \<Rightarrow> (string \<times> pyobj) list" where
  "link_edges index ls = map (\<lambda>(n, x). (show_nat index @ ''.'' @ n, x)) (filter (\<lambda>(n, x). x \<noteq> NoneObj) ls)"

definition group_edges :: "nat \<Rightarrow> pyobj list \<Rightarrow> (string \<times> pyobj) list" where
  "group_edges index xs = map (\<lambda>(i, x). (show_nat index @ ''.group['' @ show_nat i @ '']'', x)) (enumerate 0 xs)"

text \<open>The new entries of the pending list, and the state after reading the links.\<close>

definition links :: "exc_obj \<Rightarrow> nat \<Rightarrow> detail \<Rightarrow> (string \<times> pyobj) list \<times> detail" where
  "links e index st =
     (case attribute (cause_of e) NoneObj st of (cause, st) \<Rightarrow>
      case attribute (context_of e) NoneObj st of (ctx, st) \<Rightarrow>
      case attribute (group_of e) (Some []) st of (grouped, st) \<Rightarrow>
      let named = link_edges index [(''__cause__'', cause), (''__context__'', ctx)] in
      case grouped of
        None \<Rightarrow> (named, mark_incomplete st)
      | Some xs \<Rightarrow> (named @ group_edges index (take 64 xs), mark_if (len xs > 64) st))"

text \<open>One exception that has not been seen before: its row and the state after it.\<close>

definition describe :: "string \<Rightarrow> exc_obj \<Rightarrow> detail \<Rightarrow> detail" where
  "describe edge e st =
     (case guarded (str_of e) ''<exception message unavailable>'' st of (message, st) \<Rightarrow>
      case guarded (kind_of e) ''<exception type unavailable>'' st of (kind, st) \<Rightarrow>
      case text_of (PStr kind) 128 st of (kind_text, st) \<Rightarrow>
      case text_of (PStr message) 2048 st of (message_text, st) \<Rightarrow>
      case attribute (notes_of e) (PTuple []) st of (notes, st) \<Rightarrow>
      case note_texts notes st of (note_rows, st) \<Rightarrow>
      case attribute (carrier_of e) PNone st of (carrier, st) \<Rightarrow>
      case carrier_row carrier st of (ret, st) \<Rightarrow>
      st\<lparr>nodes := nodes st @ [Described edge kind_text message_text note_rows ret]\<rparr>)"

section \<open>Every operation only adds\<close>

text \<open>\<open>grows st st'\<close>: nodes are kept, the two flags only rise and rise together, and the text budget
  shrinks within its range.\<close>

definition grows :: "detail \<Rightarrow> detail \<Rightarrow> bool" where
  "grows st st' \<longleftrightarrow> nodes st' = nodes st \<and> (incomplete st \<longrightarrow> incomplete st')
     \<and> (retirementUnknown st \<longrightarrow> retirementUnknown st')
     \<and> ((incomplete st \<longrightarrow> retirementUnknown st) \<longrightarrow> incomplete st' \<longrightarrow> retirementUnknown st')
     \<and> (0 \<le> remaining st \<longrightarrow> 0 \<le> remaining st' \<and> remaining st' \<le> remaining st)"

lemma grows_refl [simp]: "grows st st"
  by (simp add: grows_def)

lemma grows_trans: "grows a b \<Longrightarrow> grows b c \<Longrightarrow> grows a c"
  by (auto simp: grows_def)

lemma grows_mark [simp]: "grows st (mark_incomplete st)" "grows st (mark_if b st)"
  by (simp_all add: grows_def mark_incomplete_def mark_if_def)

lemma py_len_take: "py_len (py_take n s) \<le> n"
proof (induction n s rule: py_take.induct)
  case (2 n c s)
  then show ?case by (auto simp: py_len_def split: nat.splits)
qed (simp add: py_len_def)

lemma grows_text: "0 \<le> limit \<Longrightarrow> text_of v limit st = (t, st') \<Longrightarrow> grows st st'"
proof (cases v)
  case (PStr s)
  assume l: "0 \<le> limit" and t: "text_of v limit st = (t, st')"
  have "int (py_len (py_take (nat (min limit (remaining st))) s)) \<le> max 0 (min limit (remaining st))"
    using py_len_take [of "nat (min limit (remaining st))" s] by linarith
  then show "grows st st'" using t l
    by (auto simp: PStr text_of_def Let_def grows_def mark_if_def mark_incomplete_def split: if_splits)
qed (auto simp: text_of_def)

lemma grows_texts: "0 \<le> limit \<Longrightarrow> texts_of vs limit st = (ts, st') \<Longrightarrow> grows st st'"
  by (induction vs arbitrary: st ts) (auto split: prod.splits intro: grows_trans grows_text)

lemma grows_attribute: "attribute a d st = (x, st') \<Longrightarrow> grows st st'"
  by (auto simp: attribute_def split: attr.splits)

lemma grows_guarded: "guarded r s st = (x, st') \<Longrightarrow> grows st st'"
  by (auto simp: guarded_def split: option.splits)

lemma grows_notes: "note_texts v st = (x, st') \<Longrightarrow> grows st st'"
proof -
  have t: "texts_of vs 512 (mark_if b st) = (ts, st') \<Longrightarrow> grows st st'" for vs b ts
    using grows_trans [OF grows_mark(2) grows_texts [of 512]] by simp
  then show "note_texts v st = (x, st') \<Longrightarrow> ?thesis"
    by (cases v) (auto simp: note_texts_def split: prod.splits)
qed

lemma grows_resource: "resource_text r st = (x, st') \<Longrightarrow> grows st st'"
  using grows_texts [of 512] by (cases r) (auto simp: resource_text_def split: if_splits prod.splits)

lemma grows_resources: "resource_texts rs st = (xs, st') \<Longrightarrow> grows st st'"
  by (induction rs arbitrary: st xs) (auto split: prod.splits intro: grows_trans grows_resource)

lemma grows_unknown: "grows st (st\<lparr>retirementUnknown := True\<rparr>)"
  by (simp add: grows_def)

lemma grows_carrier_unknown:
  "c \<noteq> PNone \<Longrightarrow> carrier_row c st = (x, st') \<Longrightarrow> grows (st\<lparr>retirementUnknown := True\<rparr>) st'"
  using grows_trans [OF grows_mark(2) grows_resources]
  by (auto simp: carrier_row_def Let_def split: if_splits prod.splits)

lemma grows_carrier: "carrier_row c st = (x, st') \<Longrightarrow> grows st st'"
  using grows_trans [OF grows_unknown grows_carrier_unknown, of c st x st']
  by (cases "c = PNone") (auto simp: carrier_row_def)

lemma grows_links: "links e index st = (new, st') \<Longrightarrow> grows st st'"
  by (auto simp: links_def Let_def split: prod.splits option.splits
      intro: grows_trans [OF grows_attribute grows_trans [OF grows_attribute grows_trans [OF grows_attribute]]])

lemma grows_nodes: "grows st st' \<Longrightarrow> nodes st' = nodes st"
  by (simp add: grows_def)

text \<open>The states between the reads of \<open>describe\<close>.\<close>

lemma describe_steps:
  obtains m s1 s3 mt s4 s6 c s7 s8 row where
    "guarded (str_of e) ''<exception message unavailable>'' st = (m, s1)" "text_of (PStr m) 2048 s3 = (mt, s4)"
    "attribute (carrier_of e) PNone s6 = (c, s7)" "snd (carrier_row c s7) = s8"
    "describe edge e st = s8\<lparr>nodes := nodes st @ [row]\<rparr>"
    "grows st s1" "grows s1 s3" "grows s3 s4" "grows s4 s6" "grows s6 s7" "grows s7 s8"
proof -
  obtain m s1 where 1: "guarded (str_of e) ''<exception message unavailable>'' st = (m, s1)" by (metis surj_pair)
  obtain k s2 where 2: "guarded (kind_of e) ''<exception type unavailable>'' s1 = (k, s2)" by (metis surj_pair)
  obtain kt s3 where 3: "text_of (PStr k) 128 s2 = (kt, s3)" by (metis surj_pair)
  obtain mt s4 where 4: "text_of (PStr m) 2048 s3 = (mt, s4)" by (metis surj_pair)
  obtain ns s5 where 5: "attribute (notes_of e) (PTuple []) s4 = (ns, s5)" by (metis surj_pair)
  obtain nr s6 where 6: "note_texts ns s5 = (nr, s6)" by (metis surj_pair)
  obtain c s7 where 7: "attribute (carrier_of e) PNone s6 = (c, s7)" by (metis surj_pair)
  obtain r s8 where 8: "carrier_row c s7 = (r, s8)" by (metis surj_pair)
  have g: "grows st s1" "grows s1 s3" "grows s3 s4" "grows s4 s6" "grows s6 s7" "grows s7 s8"
    using grows_guarded [OF 1] grows_trans [OF grows_guarded [OF 2] grows_text [OF _ 3]] grows_text [OF _ 4]
      grows_trans [OF grows_attribute [OF 5] grows_notes [OF 6]] grows_attribute [OF 7] grows_carrier [OF 8] by simp_all
  then have "nodes s8 = nodes st" by (simp add: grows_nodes)
  then have "describe edge e st = s8\<lparr>nodes := nodes st @ [Described edge kt mt nr r]\<rparr>"
    by (simp add: describe_def 1 2 3 4 5 6 7 8)
  moreover have "snd (carrier_row c s7) = s8" by (simp add: 8)
  ultimately show ?thesis using that [OF 1 4 7] g by blast
qed

lemma describe_grows:
  obtains row st' where "describe edge e st = st'\<lparr>nodes := nodes st @ [row]\<rparr>" "nodes st' = nodes st" "grows st st'"
proof (rule describe_steps [of e st edge])
  fix s1 s3 s4 s6 s7 s8 row
  assume "describe edge e st = s8\<lparr>nodes := nodes st @ [row]\<rparr>"
    and "grows st s1" "grows s1 s3" "grows s3 s4" "grows s4 s6" "grows s6 s7" "grows s7 s8"
  moreover from this have "grows st s8" by (meson grows_trans)
  ultimately show thesis using that grows_nodes by blast
qed

lemma describe_nodes [simp]: "length (nodes (describe edge e st)) = Suc (length (nodes st))"
  by (rule describe_grows [of edge e st]) simp

lemma links_nodes: "links e index st = (new, st') \<Longrightarrow> nodes st' = nodes st"
  using grows_links grows_nodes by blast

lemma mark_nodes [simp]: "nodes (mark_incomplete st) = nodes st" "nodes (mark_if b st) = nodes st"
  by (simp_all add: mark_incomplete_def mark_if_def)

section \<open>The walk\<close>

function walk :: "heap \<Rightarrow> (string \<times> pyobj) list \<Rightarrow> (nat \<times> nat) list \<Rightarrow> detail \<Rightarrow> detail \<times> (nat \<times> nat) list" where
  "walk h [] seen st = (st, seen)"
| "walk h ((edge, NoneObj) # pending) seen st = walk h pending seen st"
| "walk h ((edge, Other) # pending) seen st = walk h pending seen (mark_incomplete st)"
| "walk h ((edge, Exc i) # pending) seen st =
     (if 64 \<le> length (nodes st) then (mark_incomplete st, seen)
      else case map_of seen i of
        Some index \<Rightarrow> walk h pending seen (st\<lparr>nodes := nodes st @ [Reference edge index]\<rparr>)
      | None \<Rightarrow>
          (case links (h i) (length (nodes st)) (describe edge (h i) st) of
             (new, st') \<Rightarrow> walk h (take 128 (pending @ new)) ((i, length (nodes st)) # seen)
               (mark_if (len (pending @ new) > 128) st')))"
  by pat_completeness auto
termination
  by (relation "measures [\<lambda>(h, pending, seen, st). 64 - length (nodes st), \<lambda>(h, pending, seen, st). length pending]")
    (auto dest!: links_nodes [OF sym])

definition exception_detail :: "heap \<Rightarrow> pyobj \<Rightarrow> detail" where
  "exception_detail h error = fst (walk h [(''original'', error)] [] new_detail)"

section \<open>Flags and bounds\<close>

definition detail_ok :: "detail \<Rightarrow> bool" where
  "detail_ok st \<longleftrightarrow> length (nodes st) \<le> 64 \<and> (incomplete st \<longrightarrow> retirementUnknown st) \<and> 0 \<le> remaining st \<and> remaining st \<le> 32768"

lemma detail_ok_grows: "detail_ok st \<Longrightarrow> grows st st' \<Longrightarrow> detail_ok st'"
  by (auto simp: detail_ok_def grows_def)

lemma detail_ok_add: "detail_ok st \<Longrightarrow> length (nodes st) < 64 \<Longrightarrow> detail_ok (st\<lparr>nodes := nodes st @ [row]\<rparr>)"
  by (simp add: detail_ok_def)

lemma detail_ok_describe:
  assumes "detail_ok st" "length (nodes st) < 64" shows "detail_ok (describe edge e st)"
proof (rule describe_grows [of edge e st])
  fix row st' assume d: "describe edge e st = st'\<lparr>nodes := nodes st @ [row]\<rparr>" "nodes st' = nodes st" "grows st st'"
  then show ?thesis using detail_ok_add [of st' row] detail_ok_grows [OF assms(1) d(3)] assms(2) by simp
qed

lemma walk_ok: "detail_ok st \<Longrightarrow> detail_ok (fst (walk h pending seen st))"
proof (induction h pending seen st rule: walk.induct)
  case (3 h edge pending seen st)
  then show ?case using detail_ok_grows [OF _ grows_mark(1)] by simp
next
  case (4 h edge i pending seen st)
  show ?case
  proof (cases "64 \<le> length (nodes st)")
    case True
    then show ?thesis using 4 detail_ok_grows [OF _ grows_mark(1)] by simp
  next
    case False
    show ?thesis
    proof (cases "map_of seen i")
      case None
      obtain new st' where l: "links (h i) (length (nodes st)) (describe edge (h i) st) = (new, st')" by (metis surj_pair)
      have "detail_ok (mark_if (len (pending @ new) > 128) st')"
      proof -
        have "detail_ok (describe edge (h i) st)" using detail_ok_describe 4 False by simp
        then have "detail_ok st'" using grows_links [OF l] by (rule detail_ok_grows)
        then show ?thesis using grows_mark(2) by (rule detail_ok_grows)
      qed
      then show ?thesis using "4.IH"(1) [OF False None l [symmetric]] False None l by simp
    next
      case (Some index)
      then show ?thesis using 4 False detail_ok_add [of st] by simp
    qed
  qed
qed simp_all

section \<open>Completeness\<close>

fun present :: "'a attr \<Rightarrow> 'a list" where
  "present (Present x) = [x]"
| "present _ = []"

text \<open>The exceptions an exception links to, and reachability.\<close>

definition targets :: "exc_obj \<Rightarrow> nat set" where
  "targets e = {j. Exc j \<in> set (present (cause_of e)) \<union> set (present (context_of e))
     \<union> (\<Union>g \<in> set (present (group_of e)). case g of None \<Rightarrow> {} | Some xs \<Rightarrow> set xs)}"

inductive linked :: "heap \<Rightarrow> nat \<Rightarrow> nat \<Rightarrow> bool" for h where
  linked_refl: "linked h r r"
| linked_step: "linked h r i \<Longrightarrow> j \<in> targets (h i) \<Longrightarrow> linked h r j"

text \<open>What the walk must have seen of an exception before it may stay silent about it.\<close>

definition harmless :: "exc_obj \<Rightarrow> bool" where
  "harmless e \<longleftrightarrow> (carrier_of e = Absent \<or> carrier_of e = Present PNone)
     \<and> (\<exists>s. str_of e = Some s \<and> \<not> contains ''UNKNOWN'' s)"

definition rises :: "detail \<Rightarrow> detail \<Rightarrow> bool" where
  "rises st st' \<longleftrightarrow> (incomplete st \<longrightarrow> incomplete st') \<and> (retirementUnknown st \<longrightarrow> retirementUnknown st')"

lemma rises_trans: "rises a b \<Longrightarrow> rises b c \<Longrightarrow> rises a c"
  by (simp add: rises_def)

lemma grows_rises: "grows a b \<Longrightarrow> rises a b"
  by (simp add: grows_def rises_def)

lemma rises_describe: "rises st (describe edge e st)"
  by (rule describe_grows [of edge e st]) (auto simp: rises_def grows_def)

lemma walk_mono:
  "incomplete st \<Longrightarrow> incomplete (fst (walk h pending seen st))"
  "retirementUnknown st \<Longrightarrow> retirementUnknown (fst (walk h pending seen st))"
proof -
  have m: "rises st (fst (walk h pending seen st))"
  proof (induction h pending seen st rule: walk.induct)
    case (3 h edge pending seen st)
    then show ?case by (auto simp: rises_def mark_incomplete_def)
  next
    case (4 h edge i pending seen st)
    show ?case
    proof (cases "64 \<le> length (nodes st)")
      case True
      then show ?thesis by (simp add: rises_def mark_incomplete_def)
    next
      case False
      show ?thesis
      proof (cases "map_of seen i")
        case None
        obtain new st' where l: "links (h i) (length (nodes st)) (describe edge (h i) st) = (new, st')" by (metis surj_pair)
        have "rises st (mark_if (len (pending @ new) > 128) st')"
          using rises_describe [of st edge "h i"] grows_rises [OF grows_links [OF l]] grows_rises [OF grows_mark(2)] rises_trans by blast
        then show ?thesis using "4.IH"(1) [OF False None l [symmetric]] rises_trans False None l by simp
      next
        case (Some index)
        then show ?thesis using "4.IH"(2) [OF False Some] False by (simp add: rises_def)
      qed
    qed
  qed (simp_all add: rises_def)
  show "incomplete st \<Longrightarrow> incomplete (fst (walk h pending seen st))"
    "retirementUnknown st \<Longrightarrow> retirementUnknown (fst (walk h pending seen st))"
    using m by (simp_all add: rises_def)
qed

lemma attribute_present: "attribute a d s = (x, s') \<Longrightarrow> y \<in> set (present a) \<Longrightarrow> y = x"
  by (cases a) (auto simp: attribute_def)

lemma links_complete:
  assumes "links e index st = (new, st')" "\<not> incomplete st'" "j \<in> targets e"
  shows "Exc j \<in> snd ` set new"
proof -
  obtain cause s1 where 1: "attribute (cause_of e) NoneObj st = (cause, s1)" by (metis surj_pair)
  obtain ctx s2 where 2: "attribute (context_of e) NoneObj s1 = (ctx, s2)" by (metis surj_pair)
  obtain grouped s3 where 3: "attribute (group_of e) (Some []) s2 = (grouped, s3)" by (metis surj_pair)
  have l: "Exc j \<in> snd ` set (link_edges index [(''__cause__'', cause), (''__context__'', ctx)])" if "Exc j \<in> {cause, ctx}"
    using that by (auto simp: link_edges_def)
  have g: "snd ` set (group_edges index xs) = set xs" for xs
  proof -
    have "map snd (group_edges index xs) = map snd (enumerate 0 xs)" by (simp add: group_edges_def case_prod_beta comp_def)
    then show ?thesis by (metis list.set_map map_snd_enumerate)
  qed
  show ?thesis
  proof (cases grouped)
    case None
    then show ?thesis using assms 1 2 3 by (auto simp: links_def Let_def mark_incomplete_def)
  next
    case (Some xs)
    have "\<not> len xs > 64" using assms 1 2 3 Some by (auto simp: links_def Let_def mark_if_def mark_incomplete_def)
    then have "new = link_edges index [(''__cause__'', cause), (''__context__'', ctx)] @ group_edges index xs"
      using assms 1 2 3 Some by (auto simp: links_def Let_def len_def)
    moreover have "Exc j \<in> {cause, ctx} \<union> set xs"
      using assms(3) attribute_present [OF 1] attribute_present [OF 2] attribute_present [OF 3] Some by (fastforce simp: targets_def split: option.splits)
    ultimately show ?thesis using l g by auto
  qed
qed

lemma py_take_all: "py_len s \<le> n \<Longrightarrow> py_take n s = s"
proof (induction n s rule: py_take.induct)
  case (2 n c s)
  then show ?case by (auto simp: py_len_def split: nat.splits if_splits)
qed simp

lemma text_of_silent:
  assumes "text_of (PStr s) limit st = (t, st')" "\<not> incomplete st'" "\<not> retirementUnknown st'"
  shows "\<not> contains ''UNKNOWN'' s"
  using assms py_take_all [of s "nat (min limit (remaining st))"]
  by (auto simp: text_of_def Let_def mark_if_def mark_incomplete_def split: if_splits)

lemma text_of_short:
  assumes "int (py_len s) \<le> limit" "int (py_len s) \<le> remaining st" "\<not> contains ''UNKNOWN'' s"
  shows "text_of (PStr s) limit st = (s, st\<lparr>remaining := remaining st - int (py_len s)\<rparr>)"
  using assms py_take_all [of s "nat (min limit (remaining st))"] by (simp add: text_of_def Let_def mark_if_def)

lemma describe_silent:
  assumes "\<not> incomplete (describe edge e st)" "\<not> retirementUnknown (describe edge e st)"
  shows "harmless e"
proof (rule describe_steps [of e st edge])
  fix m s1 s3 mt s4 s6 c s7 s8 row
  assume 1: "guarded (str_of e) ''<exception message unavailable>'' st = (m, s1)" "text_of (PStr m) 2048 s3 = (mt, s4)"
    "attribute (carrier_of e) PNone s6 = (c, s7)" "snd (carrier_row c s7) = s8"
    "describe edge e st = s8\<lparr>nodes := nodes st @ [row]\<rparr>"
    and g: "grows st s1" "grows s1 s3" "grows s3 s4" "grows s4 s6" "grows s6 s7" "grows s7 s8"
  have f: "\<not> incomplete s8" "\<not> retirementUnknown s8" using assms 1(5) by simp_all
  then have f7: "\<not> incomplete s7" "\<not> retirementUnknown s7" using g(6) by (auto simp: grows_def)
  then have f4: "\<not> incomplete s4" "\<not> retirementUnknown s4" using g(4,5) by (auto simp: grows_def)
  then have f1: "\<not> incomplete s1" using g(2,3) by (auto simp: grows_def)
  have "str_of e = Some m" using 1(1) f1 by (auto simp: guarded_def mark_incomplete_def split: option.splits)
  moreover have "\<not> contains ''UNKNOWN'' m" using text_of_silent [OF 1(2) f4] .
  moreover have "c = PNone"
  proof (rule ccontr)
    assume "c \<noteq> PNone"
    then have "grows (s7\<lparr>retirementUnknown := True\<rparr>) s8" using grows_carrier_unknown [of c s7 "fst (carrier_row c s7)"] 1(4) by auto
    then show False using f by (simp add: grows_def)
  qed
  then have "carrier_of e = Absent \<or> carrier_of e = Present PNone"
    using 1(3) f7 by (auto simp: attribute_def mark_incomplete_def split: attr.splits)
  ultimately show ?thesis by (simp add: harmless_def)
qed

text \<open>\<open>covers h pending D\<close>: every exception in \<open>D\<close> is harmless and what it links to is in \<open>D\<close> or
  still pending.\<close>

definition covers :: "heap \<Rightarrow> pyobj set \<Rightarrow> nat set \<Rightarrow> bool" where
  "covers h pending D \<longleftrightarrow> (\<forall>i \<in> D. harmless (h i) \<and> (\<forall>j \<in> targets (h i). j \<in> D \<or> Exc j \<in> pending))"

lemma covers_drop: "covers h (insert x P) D \<Longrightarrow> (\<And>j. x = Exc j \<Longrightarrow> j \<in> D) \<Longrightarrow> covers h P D"
  by (auto simp: covers_def)

lemma covers_visit:
  "covers h (insert (Exc i) P) D \<Longrightarrow> harmless (h i) \<Longrightarrow> (\<And>j. j \<in> targets (h i) \<Longrightarrow> Exc j \<in> N)
     \<Longrightarrow> covers h (P \<union> N) (insert i D)"
  by (auto simp: covers_def)

lemma walk_covers:
  assumes "walk h pending seen st = (st', seen')" "\<not> incomplete st'" "\<not> retirementUnknown st'"
    "covers h (snd ` set pending) (fst ` set seen)"
  shows "covers h {} (fst ` set seen') \<and> fst ` set seen \<subseteq> fst ` set seen'
    \<and> (\<forall>i. Exc i \<in> snd ` set pending \<longrightarrow> i \<in> fst ` set seen')"
  using assms
proof (induction h pending seen st rule: walk.induct)
  case (2 h edge pending seen st)
  then show ?case using covers_drop [of h NoneObj "snd ` set pending" "fst ` set seen"] by auto
next
  case (3 h edge pending seen st)
  have "incomplete (fst (walk h pending seen (mark_incomplete st)))" by (rule walk_mono) (simp add: mark_incomplete_def)
  then show ?case using 3 by simp
next
  case (4 h edge i pending seen st)
  have small: "\<not> 64 \<le> length (nodes st)" using 4(3,4) by (auto simp: mark_incomplete_def)
  show ?case
  proof (cases "map_of seen i")
    case None
    obtain new st1 where l: "links (h i) (length (nodes st)) (describe edge (h i) st) = (new, st1)" by (metis surj_pair)
    let ?st2 = "mark_if (len (pending @ new) > 128) st1" and ?p = "take 128 (pending @ new)"
    have w: "walk h ?p ((i, length (nodes st)) # seen) ?st2 = (st', seen')" using 4(3) small None l by simp
    have f2: "\<not> incomplete ?st2" "\<not> retirementUnknown ?st2" using walk_mono [of ?st2 h ?p "(i, length (nodes st)) # seen"] w 4(4,5) by auto
    then have short: "?p = pending @ new" by (auto simp: mark_if_def mark_incomplete_def len_def split: if_splits)
    have f1: "\<not> incomplete st1" "\<not> retirementUnknown st1" using f2 by (auto simp: mark_if_def mark_incomplete_def split: if_splits)
    then have "harmless (h i)" using describe_silent [of edge "h i" st] grows_links [OF l] by (auto simp: grows_def)
    moreover have "covers h (insert (Exc i) (snd ` set pending)) (fst ` set seen)" using 4(6) by simp
    ultimately have "covers h (snd ` set pending \<union> snd ` set new) (insert i (fst ` set seen))"
      using links_complete [OF l f1(1)] covers_visit by blast
    then show ?thesis using "4.IH"(1) [OF small None l [symmetric], unfolded short] w [unfolded short] 4(4,5) by (auto simp: image_Un)
  next
    case (Some index)
    then have i: "i \<in> fst ` set seen" by (metis domI dom_map_of_conv_image_fst)
    then have "covers h (snd ` set pending) (fst ` set seen)" using 4(6) covers_drop [of h "Exc i"] by auto
    then show ?thesis using "4.IH"(2) [OF small Some] 4(3,4,5) small Some i by auto
  qed
qed simp

lemma covers_linked: "linked h r j \<Longrightarrow> covers h {} D \<Longrightarrow> r \<in> D \<Longrightarrow> j \<in> D"
  by (induction rule: linked.induct) (auto simp: covers_def)

section \<open>Properties\<close>

text \<open>C18: the diagnostics of any exception graph, cyclic ones included, have at most 64 rows, never
  say \<open>incomplete\<close> without also calling the retirement unknown, and keep the shared text budget within
  its 32 KiB.\<close>

theorem exception_detail_bounded:
  "length (nodes (exception_detail h x)) \<le> 64
   \<and> (incomplete (exception_detail h x) \<longrightarrow> retirementUnknown (exception_detail h x))
   \<and> 0 \<le> remaining (exception_detail h x) \<and> remaining (exception_detail h x) \<le> 32768"
  using walk_ok [of new_detail h "[(''original'', x)]" "[]"]
  by (simp add: exception_detail_def detail_ok_def new_detail_def)

definition ring :: heap where
  "ring i = \<lparr>str_of = Some ''disk full'', kind_of = Some ''OSError'', notes_of = Absent, carrier_of = Absent,
     cause_of = Present (Exc ((i + 1) mod 3)), context_of = Absent, group_of = Absent\<rparr>"

definition chain :: heap where
  "chain i = (ring i)\<lparr>cause_of := Present (Exc (Suc i))\<rparr>"

theorem exception_detail_bounded_witness:
  "length (nodes (exception_detail chain (Exc 0))) \<le> 64 \<and> incomplete (exception_detail ring Other)
   \<and> retirementUnknown (exception_detail ring Other)"
proof -
  have "incomplete (exception_detail ring Other)" by (simp add: exception_detail_def mark_incomplete_def)
  then show ?thesis using exception_detail_bounded [of chain "Exc 0"] exception_detail_bounded [of ring Other] by blast
qed

text \<open>C19: diagnostics that leave the retirement known have looked at every exception that can be
  reached from the original one over causes, contexts and groups: none of them carries a retirement
  record, has a message that mentions UNKNOWN, or has a message that could not be read.\<close>

theorem exception_detail_complete:
  assumes "\<not> retirementUnknown (exception_detail h (Exc r))" "linked h r j"
  shows "harmless (h j)"
proof -
  obtain st' seen' where w: "walk h [(''original'', Exc r)] [] new_detail = (st', seen')" by (metis surj_pair)
  have f: "\<not> retirementUnknown st'" using assms(1) w by (simp add: exception_detail_def)
  moreover have "detail_ok st'" using walk_ok [of new_detail h "[(''original'', Exc r)]" "[]"] w by (simp add: detail_ok_def new_detail_def)
  ultimately have "\<not> incomplete st'" by (auto simp: detail_ok_def)
  then have "covers h {} (fst ` set seen') \<and> r \<in> fst ` set seen'"
    using walk_covers [OF w _ f] by (simp add: covers_def)
  then have "covers h {} (fst ` set seen')" "j \<in> fst ` set seen'" using covers_linked [OF assms(2)] by blast+
  then show ?thesis unfolding covers_def by blast
qed

lemma contains_samples: "py_len ''disk full'' = 9" "py_len ''OSError'' = 7" "\<not> contains ''UNKNOWN'' ''disk full''" "\<not> contains ''UNKNOWN'' ''OSError''"
  by code_simp+

lemmas ring_simps = exception_detail_def new_detail_def describe_def links_def link_edges_def group_edges_def guarded_def
  attribute_def note_texts_def carrier_row_def mark_if_def text_of_short contains_samples Let_def len_def

theorem exception_detail_complete_witness:
  "\<not> retirementUnknown (exception_detail ring (Exc 0)) \<and> linked ring 0 2 \<and> harmless (ring 2)"
proof -
  have "linked ring 0 1" using linked_step [OF linked_refl, of 1 ring 0] by (simp add: targets_def ring_def)
  then have "linked ring 0 2" using linked_step [of ring 0 1 2] by (simp add: targets_def ring_def)
  moreover have "\<not> retirementUnknown (exception_detail ring (Exc 0))" by (simp add: ring_def ring_simps)
  ultimately show ?thesis using exception_detail_complete [of ring 0 2] by simp
qed

end
