(* ===== verification/Full_Simulator.thy ===== *)
theory Full_Simulator
  imports PyCheck
begin

text \<open>
  The simulator policy of the ordinary full profile, \<^verbatim>\<open>src/scripts/hosted_full_simulator.py\<close>: the fixed
  observations of the host, the admission of one shut-down device, the binding of that device to the
  primary product, the check before the launch, the authority after it, and the coverage report.

  Raw records and process output are \<open>bytes\<close> (\<open>string\<close>); everything read out of them is an arbitrary
  value.  Phase rows and reports are arbitrary values too.

  The lemmas show that the inventory has unique device identities, that a device accepted for a selection
  is the selected one in everything but its state, and that an accepted coverage report configures every
  task on the bound device and has the applicable ones in the graph on it.
\<close>

section \<open>Constants\<close>

definition LIMIT :: int where "LIMIT = 4 * 1024 * 1024"

definition SCOPE :: string where
  "SCOPE = ''RESERVED_PRIMARY_ORDINARY_FULL_SIMULATOR''"

definition TASK_TYPE :: string where
  "TASK_TYPE = ''org.jetbrains.kotlin.gradle.targets.native.tasks.KotlinNativeSimulatorTest''"

definition TASKS :: "string list" where
  "TASKS =
     ['':p2p-core:iosSimulatorArm64Test'', '':p2p-core:iosX64Test'',
      '':p2p-transport-lan:iosSimulatorArm64Test'', '':p2p-transport-lan:iosX64Test'',
      '':p2p-rpc:iosSimulatorArm64Test'', '':p2p-rpc:iosX64Test'',
      '':p2p-sample-rpc:iosSimulatorArm64Test'', '':p2p-sample-rpc:iosX64Test'']"

record host =
  osMajor :: string
  xcode :: string
  runtime :: string
  version :: string

definition HOSTS :: "(string \<times> host) list" where
  "HOSTS =
     [(''macos-arm64'', \<lparr>osMajor = ''26'', xcode = ''Xcode 26.5'' @ [CHR 0x0A] @ ''Build version 17F42'' @ [CHR 0x0A],
        runtime = ''com.apple.CoreSimulator.SimRuntime.iOS-26-5'', version = ''26.5''\<rparr>),
      (''macos-x64'', \<lparr>osMajor = ''15'', xcode = ''Xcode 26.3'' @ [CHR 0x0A] @ ''Build version 17C529'' @ [CHR 0x0A],
        runtime = ''com.apple.CoreSimulator.SimRuntime.iOS-26-2'', version = ''26.2''\<rparr>)]"

definition COMMANDS :: "(string \<times> string list) list" where
  "COMMANDS =
     [(''simulator-macos-version'', [''/usr/bin/sw_vers'', ''-productVersion'']),
      (''simulator-xcode-version'', [''/usr/bin/xcodebuild'', ''-version'']),
      (''simulator-first-launch'', [''/usr/bin/xcodebuild'', ''-checkFirstLaunchStatus'']),
      (''simulator-runtimes'', [''/usr/bin/xcrun'', ''simctl'', ''list'', ''--json'', ''runtimes'']),
      (''simulator-devices'', [''/usr/bin/xcrun'', ''simctl'', ''list'', ''--json'', ''devices'', ''available''])]"

definition PREPARE :: "string list" where
  "PREPARE = map fst COMMANDS"

definition PRELAUNCH :: string where "PRELAUNCH = ''simulator-prelaunch''"
definition BEFORE :: string where "BEFORE = ''simulator-retire-before''"
definition SHUTDOWN :: string where "SHUTDOWN = ''simulator-shutdown''"
definition AFTER :: string where "AFTER = ''simulator-retire-after''"

definition RETIRE :: "string list" where
  "RETIRE = [BEFORE, SHUTDOWN, AFTER]"

definition UUID :: "string \<Rightarrow> bool" where
  "UUID s = shape ''XXXXXXXX-XXXX-XXXX-XXXX-XXXXXXXXXXXX'' s"

section \<open>Records\<close>

definition digest :: "string \<Rightarrow> pyval" where
  "digest raw = PStr (sha256 raw)"

definition encoded :: "pyval \<Rightarrow> string res" where
  "encoded v = andthen (record_text v) (\<lambda>raw. req (len raw \<le> LIMIT) ''SIMULATOR_RECORD_LIMIT'' (Inr raw))"

text \<open>\<open>SimulatorError\<close> is a \<open>ValueError\<close>, so the reader's own refusals are reported as \<open>SIMULATOR_JSON\<close> too.\<close>

definition parse :: "string \<Rightarrow> pyval res" where
  "parse raw =
     req (0 < len raw \<and> len raw \<le> LIMIT) ''SIMULATOR_RECORD_LIMIT'' (
     case json_loads_bytes (strict_hooks (Refused ''SIMULATOR_DUPLICATE_KEY'') (Refused ''SIMULATOR_NONFINITE_JSON'')) raw of
       Inr v \<Rightarrow> Inr v
     | Inl _ \<Rightarrow> Inl (Refused ''SIMULATOR_JSON''))"

section \<open>Host and device\<close>

definition policy :: "pyval \<Rightarrow> host res" where
  "policy role = (case role of
      PStr r \<Rightarrow> (case map_of HOSTS r of Some h \<Rightarrow> Inr h | None \<Rightarrow> Inl (Refused ''SIMULATOR_NATIVE_MAC_ROLE_REQUIRED''))
    | _ \<Rightarrow> Inl (Refused ''SIMULATOR_NATIVE_MAC_ROLE_REQUIRED''))"

definition uuid :: "pyval \<Rightarrow> pyval res" where
  "uuid v = req (str_and UUID v) ''SIMULATOR_UUID'' (Inr v)"

definition descriptor :: "pyval \<Rightarrow> pyval res" where
  "descriptor row =
     then_do (ensure (allof
         [Inr (is_dict row), get_eq row ''name'' (PStr ''iPhone 17''),
          get_eq row ''deviceTypeIdentifier'' (PStr ''com.apple.CoreSimulator.SimDeviceType.iPhone-17''),
          get_is (\<lambda>x. py_is x True) row ''isAvailable'',
          get_is (\<lambda>x. py_in x (map PStr [''Shutdown'', ''Booted'', ''Booting'', ''Shutting Down''])) row ''state''])
       ''SIMULATOR_DEVICE_UNAVAILABLE_OR_CHANGED'') (
     andthen (get row ''udid'') (\<lambda>u.
     andthen (uuid u) (\<lambda>udid.
     andthen (py_item row ''name'') (\<lambda>name.
     andthen (py_item row ''deviceTypeIdentifier'') (\<lambda>dt.
     andthen (py_item row ''state'') (\<lambda>state.
     Inr (PDict [(''udid'', udid), (''name'', name), (''deviceTypeIdentifier'', dt), (''isAvailable'', PBool True),
                 (''state'', state)])))))))"

definition all_rows :: "pyval \<Rightarrow> pyval list" where
  "all_rows groups = concat (map (elems \<circ> snd) (items groups))"

definition device_rows :: "string \<Rightarrow> pyval res" where
  "device_rows raw =
     andthen (parse raw) (\<lambda>v.
     then_do (ensure (allof [Inr (is_dict v), get_is is_dict v ''devices'',
         item_is (\<lambda>g. len (items g) \<le> 256) v ''devices'']) ''SIMULATOR_DEVICE_INVENTORY'') (
     andthen (py_item v ''devices'') (\<lambda>groups.
     req (list_all (\<lambda>(k, rows). is_list rows \<and> list_all is_dict (elems rows)) (items groups)) ''SIMULATOR_DEVICE_INVENTORY'' (
     then_do (ensure (allof
         [Inr (len (all_rows groups) \<le> 4096), allof (map (\<lambda>row. get_is is_str row ''udid'') (all_rows groups)),
          andthen (each (\<lambda>row. py_item row ''udid'') (all_rows groups)) distinct_vals])
       ''SIMULATOR_DUPLICATE_OR_EXCESSIVE_DEVICE'')
     (Inr groups)))))"

text \<open>\<open>device_rows(raw).get(runtime, [])\<close> filtered by a test of the rows\<close>

definition matching_rows :: "pyval \<Rightarrow> pyval \<Rightarrow> (pyval \<Rightarrow> bool res) \<Rightarrow> pyval list res" where
  "matching_rows groups rt test =
     andthen (get_by groups rt (PList [])) (\<lambda>rows.
     andthen (each test (elems rows)) (\<lambda>bs. Inr (map fst (filter snd (zip (elems rows) bs)))))"

text \<open>\<open>re.escape(major) + r"\.[0-9]+(?:\.[0-9]+)?"\<close>\<close>

definition macos_version :: "string \<Rightarrow> string \<Rightarrow> bool" where
  "macos_version major s \<longleftrightarrow> starts (major @ ''.'') s
     \<and> (let parts = split_on (CHR ''.'') (drop (length major + 1) s) in
        length parts \<le> 2 \<and> list_all (\<lambda>p. p \<noteq> [] \<and> list_all is_digit p) parts)"

definition runtime_original :: "host \<Rightarrow> string \<Rightarrow> pyval res" where
  "runtime_original expected raw =
     andthen (parse raw) (\<lambda>v.
     then_do (ensure (allof [Inr (is_dict v), get_is is_list v ''runtimes'',
         item_is (\<lambda>x. len (elems x) \<le> 256) v ''runtimes'', item_is (\<lambda>x. list_all is_dict (elems x)) v ''runtimes''])
       ''SIMULATOR_RUNTIME_INVENTORY'') (
     andthen (py_item v ''runtimes'') (\<lambda>runtimes.
     let matches = filter (\<lambda>row. get_eq row ''identifier'' (PStr (runtime expected)) = Inr True) (elems runtimes) in
     then_do (ensure (allof [Inr (length matches = 1), get_is (\<lambda>x. py_is x True) (matches ! 0) ''isAvailable'',
         get_eq (matches ! 0) ''version'' (PStr (version expected))]) ''SIMULATOR_RUNTIME_UNAVAILABLE_OR_CHANGED'')
     (Inr (PDict [(''identifier'', PStr (runtime expected)), (''version'', PStr (version expected)), (''isAvailable'', PBool True)])))))"

definition device_original :: "host \<Rightarrow> string \<Rightarrow> pyval res" where
  "device_original expected raw =
     andthen (device_rows raw) (\<lambda>groups.
     andthen (matching_rows groups (PStr (runtime expected)) (\<lambda>row. allof
         [get_eq row ''name'' (PStr ''iPhone 17''), get_eq row ''state'' (PStr ''Shutdown''),
          get_is (\<lambda>x. py_is x True) row ''isAvailable''])) (\<lambda>matches.
     req (length matches = 1) ''SIMULATOR_ONE_ORIGINALLY_SHUTDOWN_IPHONE17_REQUIRED'' (descriptor (matches ! 0))))"

definition original :: "string \<Rightarrow> pyval \<Rightarrow> string \<Rightarrow> pyval res" where
  "original label role raw =
     andthen (policy role) (\<lambda>expected.
     req (len raw \<le> LIMIT) ''SIMULATOR_ORIGINAL_BYTES'' (
     if label = ''simulator-macos-version'' then
       andthen (decode_ascii raw) (\<lambda>text.
       req (macos_version (osMajor expected) (strip text)) ''SIMULATOR_UNADMITTED_MACOS'' (Inr (PStr (strip text))))
     else if label = ''simulator-xcode-version'' then
       req (raw = xcode expected) ''SIMULATOR_UNADMITTED_XCODE'' (Inr (PStr (xcode expected)))
     else if label = ''simulator-first-launch'' then Inr PNone
     else if label = ''simulator-runtimes'' then runtime_original expected raw
     else req (label = ''simulator-devices'') ''SIMULATOR_CLOSED_OBSERVATION'' (device_original expected raw)))"

definition terminal_device :: "string \<Rightarrow> pyval \<Rightarrow> pyval res" where
  "terminal_device raw admitted =
     andthen (device_rows raw) (\<lambda>groups.
     andthen (path admitted [''runtime'', ''identifier'']) (\<lambda>rt.
     andthen (matching_rows groups rt (\<lambda>row. eq_res (get row ''udid'') (path admitted [''device'', ''udid'']))) (\<lambda>matches.
     req (length matches = 1) ''SIMULATOR_OWNED_DEVICE_MISSING'' (
     andthen (descriptor (matches ! 0)) (\<lambda>actual.
     andthen (py_item admitted ''device'') (\<lambda>device.
     andthen (dict_items device) (\<lambda>kvs.
     then_do (ensure (allof (map (\<lambda>(k, w). item_eq actual k w) (filter (\<lambda>(k, w). k \<noteq> ''state'') kvs)))
       ''SIMULATOR_OWNED_DEVICE_CHANGED'')
     (Inr actual))))))))"

definition command :: "string \<Rightarrow> pyval \<Rightarrow> pyval res" where
  "command label selected = (case map_of COMMANDS label of
      Some argv \<Rightarrow> Inr (strs argv)
    | None \<Rightarrow>
        if label \<in> set [PRELAUNCH, BEFORE, AFTER] then Inr (strs (the (map_of COMMANDS ''simulator-devices'')))
        else
        req (label = SHUTDOWN \<and> is_dict selected) ''SIMULATOR_CLOSED_COMMAND'' (
        andthen (path selected [''device'', ''udid'']) (\<lambda>u.
        andthen (uuid u) (\<lambda>udid.
        Inr (PList [PStr ''/usr/bin/xcrun'', PStr ''simctl'', PStr ''shutdown'', udid])))))"

definition phase_reference :: "pyval \<Rightarrow> string \<Rightarrow> string \<Rightarrow> pyval res" where
  "phase_reference row stdout stderr =
     andthen (encoded row) (\<lambda>r. Inr (PDict [(''phaseSha256'', digest r), (''stdoutSha256'', digest stdout), (''stderrSha256'', digest stderr)]))"

section \<open>Contexts\<close>

definition initial_keys :: "string list" where
  "initial_keys = [''historySha256'', ''identitySha256'', ''sourceBudgetSha256'']"

definition initial_context :: "pyval \<Rightarrow> unit res" where
  "initial_context run =
     andthen (get run ''initialOrdinary'') (\<lambda>initial.
     ensure (allof (
       [Inr (closed_dict initial (initial_keys @ [''samplePackagingRequired''])),
        item_is (\<lambda>x. py_is x False) initial ''samplePackagingRequired'',
        andthen (py_get run ''samplePackagingRequired'' (PBool False)) (\<lambda>x. Inr (py_is x False))]
       @ map (\<lambda>k. get_is (hexs 64) initial k) initial_keys
       @ [eq_res (get run ''admissionSha256'') (py_item initial ''identitySha256''),
          eq_res (get run ''jobBudgetSha256'') (py_item initial ''sourceBudgetSha256'')]))
     ''SIMULATOR_INITIAL_CONTEXT'')"

definition scope_context :: "pyval \<Rightarrow> unit res" where
  "scope_context run =
     andthen (get_eq run ''scope'' (PStr ''CLOSED_INITIAL_ORDINARY_TEST_CONTROLLER'')) (\<lambda>initial.
     if initial then initial_context run
     else ensure (allof [get_eq run ''scope'' (PStr ''CLOSED_ORDINARY_TEST_CONTROLLER''), Inr (\<not> has_key ''initialOrdinary'' run)])
       ''SIMULATOR_ORDINARY_CONTEXT'')"

text \<open>An absolute path without NUL and without \<open>..\<close>\<close>

definition plain_path :: "string \<Rightarrow> bool" where
  "plain_path s \<longleftrightarrow> starts ''/'' s \<and> CHR 0x00 \<notin> set s \<and> ''..'' \<notin> set (split_on (CHR ''/'') s)"

definition FULL_COMMAND :: pyval where
  "FULL_COMMAND = strs [''python3'', ''scripts/run-platform-tests.py'', ''full'']"

definition run_context :: "pyval \<Rightarrow> unit res" where
  "run_context run = ensure (allof (
     [get_is is_int run ''schema'', item_eq run ''schema'' (PInt 1), get_eq run ''profile'' (PStr ''full''),
      get_eq run ''command'' FULL_COMMAND, get_eq run ''kind'' (PStr ''command''),
      andthen (get run ''role'') (\<lambda>r. in_keys r (map fst HOSTS)),
      get_is (\<lambda>x. py_is x True) run ''primarySimulatorRequired'', get_is is_dict run ''source'',
      get_is (hexs 32) run ''job'']
     @ map (\<lambda>k. get_is (str_and plain_path) run k) [''root'', ''session'']))
   ''SIMULATOR_ORDINARY_CONTEXT''"

definition canonical_context :: "pyval \<Rightarrow> pyval \<Rightarrow> unit res" where
  "canonical_context run canonical =
     andthen (py_get canonical ''source'' (PDict [])) (\<lambda>source.
     ensure (allof (
       [get_is is_int canonical ''schema'', item_eq canonical ''schema'' (PInt 1),
        eq_res (get canonical ''root'') (get run ''root''), eq_res (get canonical ''host'') (py_item run ''role''),
        get_eq canonical ''preexistingOutputPaths'' (PList []),
        andthen (get canonical ''gradleHome'') (\<lambda>x. andthen (str_item run ''session'') (\<lambda>s.
          Inr (py_eq x (PStr (s @ ''/state/gradle-home''))))),
        get_is (hexs 32) canonical ''id'',
        andthen (py_item run ''source'') (\<lambda>r. andthen (dict_with r [(''status'', PStr []), (''diffSha256'', digest [])]) (\<lambda>e.
          Inr (py_eq source e)))]
       @ map (\<lambda>k. get_is (hexs 40) source k) [''commit'', ''tree'']
       @ [get_is (hexs 64) run ''jobBudgetSha256'']))
     ''SIMULATOR_CANONICAL_CONTEXT'')"

definition contexts :: "string \<Rightarrow> string \<Rightarrow> (pyval \<times> pyval) res" where
  "contexts run_raw canonical_raw =
     andthen (parse run_raw) (\<lambda>run.
     andthen (parse canonical_raw) (\<lambda>canonical.
     req (is_dict run \<and> is_dict canonical) ''SIMULATOR_CONTEXT_JSON'' (
     then_do (scope_context run) (
     then_do (run_context run) (
     then_do (canonical_context run canonical)
     (Inr (run, canonical)))))))"

section \<open>Admission\<close>

definition no_discovery_errors :: "pyval \<Rightarrow> bool res" where
  "no_discovery_errors row = andthen (py_get row ''ownership'' (PDict [])) (\<lambda>ownership. get_eq ownership ''discoveryErrors'' (PList []))"

definition original_phase :: "pyval \<Rightarrow> pyval \<Rightarrow> string \<Rightarrow> pyval \<Rightarrow> unit res" where
  "original_phase run row label developer_dir = ensure (allof
     [item_eq row ''phase'' (PStr label), eq_res (py_item row ''argv'') (command label PNone),
      item_is is_int row ''exitCode'', item_eq row ''exitCode'' (PInt 0), item_is (\<lambda>x. py_is x True) row ''launchAttempted'',
      item_is (\<lambda>x. py_is x True) row ''scopeAttempted'', item_eq row ''retirement'' (PStr ''KNOWN''),
      item_eq row ''errors'' (PList []), get_eq row ''survivors'' (PList []), no_discovery_errors row,
      eq_res (py_item row ''job'') (py_item run ''job''), eq_res (py_item row ''state'') (py_item run ''session''),
      andthen (py_item row ''home'') (\<lambda>h. andthen (str_item run ''session'') (\<lambda>s. Inr (py_eq h (PStr (s @ ''/control-home''))))),
      eq_res (py_item row ''jobBudgetSha256'') (py_item run ''jobBudgetSha256''), get_eq row ''developerDir'' developer_dir])
   ''SIMULATOR_ORIGINAL_PHASE''"

type_synonym observation = "pyval \<times> string \<times> string"

definition take_original ::
  "pyval \<Rightarrow> pyval \<Rightarrow> (string \<times> observation) list \<Rightarrow> string \<Rightarrow> (pyval \<times> pyval) res" where
  "take_original run developer_dir observations label = (case map_of observations label of
      None \<Rightarrow> Inl KeyError
    | Some (row, stdout, stderr) \<Rightarrow>
        then_do (original_phase run row label developer_dir) (
        andthen (py_item run ''role'') (\<lambda>role.
        andthen (original label role stdout) (\<lambda>v.
        andthen (phase_reference row stdout stderr) (\<lambda>r. Inr (v, r))))))"

definition developer_path :: "pyval \<Rightarrow> bool" where
  "developer_path d \<longleftrightarrow> d = PNone \<or> str_and (\<lambda>s. starts ''/'' s \<and> CHR 0x00 \<notin> set s) d"

definition admission_record ::
  "string \<Rightarrow> string \<Rightarrow> (string \<times> observation) list \<Rightarrow> pyval \<Rightarrow> string res" where
  "admission_record run_raw canonical_raw observations developer_dir =
     andthen (contexts run_raw canonical_raw) (\<lambda>(run, canonical).
     req (set (map fst observations) = set PREPARE) ''SIMULATOR_ORIGINAL_SET'' (
     andthen (each (take_original run developer_dir observations) PREPARE) (\<lambda>taken.
     let values = zip PREPARE (map fst taken); references = zip PREPARE (map snd taken) in
     then_do (ensure (andthen (get_is (py_eq developer_dir) run ''developerDir'') (\<lambda>b. Inr (b \<and> developer_path developer_dir)))
       ''SIMULATOR_DEVELOPER_DIR'') (
     andthen (py_item run ''role'') (\<lambda>role.
     andthen (py_item canonical ''source'') (\<lambda>source.
     andthen (py_item run ''jobBudgetSha256'') (\<lambda>budget.
     encoded (PDict [(''schema'', PInt 1), (''scope'', PStr ''ORIGINAL_SHUTDOWN_ORDINARY_FULL_SIMULATOR''), (''role'', role),
       (''contextSha256'', digest run_raw), (''canonicalContextSha256'', digest canonical_raw), (''source'', source),
       (''jobBudgetSha256'', budget), (''developerDir'', developer_dir),
       (''selected'', PDict
         [(''macosVersion'', the (map_of values ''simulator-macos-version'')),
          (''xcodeVersion'', the (map_of values ''simulator-xcode-version'')),
          (''runtime'', the (map_of values ''simulator-runtimes'')), (''device'', the (map_of values ''simulator-devices''))]),
       (''originals'', PDict references)]))))))))"

section \<open>Binding\<close>

definition ADMISSION_KEYS :: "string list" where
  "ADMISSION_KEYS = [''schema'', ''scope'', ''role'', ''contextSha256'', ''canonicalContextSha256'', ''source'',
     ''jobBudgetSha256'', ''developerDir'', ''selected'', ''originals'']"

definition REFERENCE_KEYS :: "string list" where
  "REFERENCE_KEYS = [''phaseSha256'', ''stdoutSha256'', ''stderrSha256'']"

definition admission_unchanged :: "pyval \<Rightarrow> pyval \<Rightarrow> pyval \<Rightarrow> string \<Rightarrow> string \<Rightarrow> unit res" where
  "admission_unchanged admitted run canonical run_raw canonical_raw = ensure (allof
     [Inr (closed_dict admitted ADMISSION_KEYS), item_is is_int admitted ''schema'', item_eq admitted ''schema'' (PInt 1),
      item_eq admitted ''scope'' (PStr ''ORIGINAL_SHUTDOWN_ORDINARY_FULL_SIMULATOR''),
      eq_res (py_item admitted ''role'') (py_item run ''role''), item_eq admitted ''contextSha256'' (digest run_raw),
      item_eq admitted ''canonicalContextSha256'' (digest canonical_raw),
      eq_res (py_item admitted ''source'') (py_item canonical ''source''),
      eq_res (py_item admitted ''jobBudgetSha256'') (py_item run ''jobBudgetSha256''),
      eq_res (py_item admitted ''developerDir'') (get run ''developerDir''),
      item_is (\<lambda>x. closed_dict x PREPARE) admitted ''originals'',
      item_is (\<lambda>x. list_all (\<lambda>(k, row). closed_dict row REFERENCE_KEYS \<and> list_all (hexs 64) (map snd (items row))) (items x))
        admitted ''originals''])
   ''SIMULATOR_ORIGINAL_ADMISSION_CHANGED''"

definition selection_unchanged :: "pyval \<Rightarrow> pyval \<Rightarrow> unit res" where
  "selection_unchanged selected run = ensure (allof
     [Inr (closed_dict selected [''macosVersion'', ''xcodeVersion'', ''runtime'', ''device'']),
      item_is is_str selected ''macosVersion'', item_is is_str selected ''xcodeVersion'',
      andthen (py_item selected ''device'') (\<lambda>d. andthen (descriptor d) (\<lambda>e. Inr (py_eq d e))),
      andthen (path selected [''device'', ''state'']) (\<lambda>x. Inr (py_eq x (PStr ''Shutdown''))),
      andthen (py_item selected ''runtime'') (\<lambda>r. andthen (py_item run ''role'') (\<lambda>role. andthen (policy role) (\<lambda>h.
        Inr (py_eq r (PDict [(''identifier'', PStr (runtime h)), (''version'', PStr (version h)), (''isAvailable'', PBool True)])))))])
   ''SIMULATOR_ORIGINAL_SELECTION_CHANGED''"

definition reservation_unchanged :: "pyval \<Rightarrow> pyval \<Rightarrow> pyval \<Rightarrow> pyval \<Rightarrow> unit res" where
  "reservation_unchanged owner request run canonical = ensure (allof
     [get_eq request ''ownerKind'' (PStr ''audit''),
      andthen (get request ''ownerState'') (\<lambda>x. andthen (str_item run ''session'') (\<lambda>s. Inr (py_eq x (PStr (s @ ''/state''))))),
      eq_res (get request ''home'') (py_item canonical ''gradleHome''), eq_res (get request ''root'') (py_item run ''root''),
      eq_res (get request ''source'') (py_item canonical ''source''), eq_res (get request ''command'') (py_item run ''command''),
      Inr (closed_dict owner [''job'', ''productInvocation'', ''stopInvocation'']),
      eq_res (py_item owner ''job'') (py_item canonical ''id''), item_is (\<lambda>x. x = PNone) owner ''stopInvocation'',
      item_is (hexs 32) owner ''productInvocation''])
   ''SIMULATOR_PRIMARY_RESERVATION_CHANGED''"

text \<open>\<open>selected[k].encode("ascii")\<close>\<close>

definition ascii_item :: "pyval \<Rightarrow> string \<Rightarrow> string res" where
  "ascii_item v k = andthen (str_item v k) decode_ascii"

definition binding_value ::
  "pyval \<Rightarrow> pyval \<Rightarrow> pyval \<Rightarrow> pyval \<Rightarrow> pyval \<Rightarrow> pyval \<Rightarrow> string \<Rightarrow> string \<Rightarrow> string \<Rightarrow> string \<Rightarrow> pyval res" where
  "binding_value run canonical request owner admitted selected run_raw canonical_raw request_raw admission_raw =
     andthen (each (py_item run) [''role'', ''root'', ''session'', ''jobBudgetSha256'']) (\<lambda>r.
     andthen (each (py_item request) [''ownerState'', ''home'']) (\<lambda>q.
     andthen (each (py_item canonical) [''source'', ''id'']) (\<lambda>c.
     andthen (py_item owner ''productInvocation'') (\<lambda>invocation.
     andthen (py_item admitted ''developerDir'') (\<lambda>developer.
     Inr (PDict [(''schema'', PInt 1), (''scope'', PStr SCOPE), (''profile'', PStr ''full''), (''role'', r ! 0),
       (''root'', r ! 1), (''session'', r ! 2), (''state'', q ! 0), (''home'', q ! 1), (''source'', c ! 0), (''job'', c ! 1),
       (''productInvocation'', invocation), (''contextSha256'', digest run_raw), (''canonicalContextSha256'', digest canonical_raw),
       (''custodyRequestSha256'', digest request_raw), (''admissionSha256'', digest admission_raw), (''jobBudgetSha256'', r ! 3),
       (''developerDir'', developer), (''selected'', selected)]))))))"

definition binding_record :: "string \<Rightarrow> string \<Rightarrow> string \<Rightarrow> string \<Rightarrow> string res" where
  "binding_record run_raw canonical_raw request_raw admission_raw =
     andthen (contexts run_raw canonical_raw) (\<lambda>(run, canonical).
     andthen (parse request_raw) (\<lambda>request.
     andthen (parse admission_raw) (\<lambda>admitted.
     req (is_dict request \<and> is_dict admitted) ''SIMULATOR_BINDING_JSON'' (
     then_do (admission_unchanged admitted run canonical run_raw canonical_raw) (
     andthen (py_item admitted ''selected'') (\<lambda>selected.
     then_do (selection_unchanged selected run) (
     andthen (py_item run ''role'') (\<lambda>role.
     andthen (ascii_item selected ''macosVersion'') (\<lambda>macos.
     andthen (original ''simulator-macos-version'' role macos) (\<lambda>_.
     andthen (ascii_item selected ''xcodeVersion'') (\<lambda>xc.
     andthen (original ''simulator-xcode-version'' role xc) (\<lambda>_.
     andthen (py_get request ''owner'' (PDict [])) (\<lambda>owner.
     then_do (reservation_unchanged owner request run canonical) (
     andthen (binding_value run canonical request owner admitted selected run_raw canonical_raw request_raw admission_raw)
     encoded))))))))))))))"

section \<open>Before the launch\<close>

definition prelaunch_phase :: "pyval \<Rightarrow> pyval \<Rightarrow> pyval \<Rightarrow> string \<Rightarrow> string \<Rightarrow> unit res" where
  "prelaunch_phase run binding row run_raw binding_raw = ensure (allof
     [item_eq binding ''contextSha256'' (digest run_raw), get_eq row ''phase'' (PStr PRELAUNCH),
      eq_res (get row ''argv'') (command PRELAUNCH PNone), eq_res (get row ''job'') (py_item run ''job''),
      eq_res (get row ''state'') (py_item run ''session''),
      andthen (get row ''home'') (\<lambda>h. andthen (str_item run ''session'') (\<lambda>s. Inr (py_eq h (PStr (s @ ''/control-home''))))),
      eq_res (get row ''developerDir'') (py_item binding ''developerDir''),
      get_eq row ''simulatorBindingSha256'' (digest binding_raw),
      eq_res (get row ''jobBudgetSha256'') (py_item binding ''jobBudgetSha256''), get_is is_int row ''exitCode'',
      item_eq row ''exitCode'' (PInt 0), get_eq row ''retirement'' (PStr ''KNOWN''),
      get_is (\<lambda>x. py_is x True) row ''launchAttempted'', get_is (\<lambda>x. py_is x True) row ''scopeAttempted'',
      get_eq row ''survivors'' (PList []), get_eq row ''errors'' (PList []), no_discovery_errors row])
   ''SIMULATOR_PRELAUNCH_ORIGINAL_CHANGED''"

definition prelaunch_record :: "string \<Rightarrow> string \<Rightarrow> pyval \<Rightarrow> string \<Rightarrow> string \<Rightarrow> string res" where
  "prelaunch_record run_raw binding_raw row stdout stderr =
     andthen (parse run_raw) (\<lambda>run.
     andthen (parse binding_raw) (\<lambda>binding.
     then_do (prelaunch_phase run binding row run_raw binding_raw) (
     andthen (py_item binding ''selected'') (\<lambda>selected.
     andthen (terminal_device stdout selected) (\<lambda>device.
     then_do (ensure (item_eq device ''state'' (PStr ''Shutdown'')) ''SIMULATOR_PRELAUNCH_EXTERNAL_STATE_CHANGE'') (
     andthen (phase_reference row stdout stderr) (\<lambda>reference.
     encoded (PDict [(''schema'', PInt 1), (''scope'', PStr ''CURRENT_SHUTDOWN_BEFORE_PRIMARY_LAUNCH''),
       (''bindingSha256'', digest binding_raw), (''device'', device), (''original'', reference)]))))))))"

section \<open>After the launch\<close>

text \<open>\<open>[0-9]{4}-[0-9]{2}-[0-9]{2}T[0-9]{2}:[0-9]{2}:[0-9]{2}(?:\.[0-9]{1,6})?(?:Z|\+00:00)\<close>\<close>

definition utc_zone :: "string \<Rightarrow> bool" where
  "utc_zone s \<longleftrightarrow> s = ''Z'' \<or> s = ''+00:00''"

definition utc_text :: "string \<Rightarrow> bool" where
  "utc_text s \<longleftrightarrow> shape ''####-##-##T##:##:##'' (take 19 s)
     \<and> (let r = drop 19 s in
        utc_zone r \<or> (r \<noteq> [] \<and> hd r = CHR ''.''
          \<and> (let ds = takeWhile is_digit (tl r) in 1 \<le> length ds \<and> length ds \<le> 6 \<and> utc_zone (drop (length ds) (tl r)))))"

definition expected_start :: "pyval \<Rightarrow> pyval \<Rightarrow> (string \<times> pyval) list res" where
  "expected_start binding ancestors =
     andthen (py_item binding ''productInvocation'') (\<lambda>invocation.
     andthen (py_item binding ''root'') (\<lambda>root.
     andthen (str_item binding ''root'') (\<lambda>root_text.
     andthen (each (py_item binding) [''role'', ''job'', ''home'']) (\<lambda>b.
     andthen (str_item binding ''state'') (\<lambda>state.
     andthen (str_item binding ''productInvocation'') (\<lambda>invocation_text.
     Inr [(''schema'', PInt 1), (''id'', invocation), (''purpose'', PStr ''ordinary-full''), (''kind'', PStr ''command''),
       (''requestedArgv'', FULL_COMMAND), (''cwd'', root), (''wrapper'', PStr (root_text @ ''/gradlew'')), (''host'', b ! 0),
       (''jobId'', b ! 1), (''gradleHome'', b ! 2), (''ancestorInvocationIds'', ancestors), (''sourceBefore'', PNone),
       (''sourceAfter'', PNone), (''productExitCode'', PNone), (''stopExitCode'', PNone), (''finalExitCode'', PInt 125),
       (''sourceUnchanged'', PBool False), (''ownedSurvivors'', PList []), (''errors'', PList []),
       (''evidenceDirectory'', PStr (state @ ''/evidence/'' @ invocation_text))]))))))"

definition same_typed :: "pyval \<Rightarrow> string \<Rightarrow> pyval \<Rightarrow> bool res" where
  "same_typed v k w = item_is (\<lambda>x. py_type x = py_type w \<and> py_eq x w) v k"

definition start_unchanged :: "pyval \<Rightarrow> (string \<times> pyval) list \<Rightarrow> pyval \<Rightarrow> pyval \<Rightarrow> pyval \<Rightarrow> unit res" where
  "start_unchanged start expected ancestors binding controller_pid = ensure (allof (
     [Inr (closed_dict start (map fst expected @ [''controllerPid'', ''startedUtc'']))]
     @ map (\<lambda>(k, w). same_typed start k w) expected
     @ [Inr (is_list ancestors \<and> elems ancestors \<noteq> [] \<and> len (elems ancestors) < 32), distinct_vals (elems ancestors),
        Inr (list_all (hexs 32) (elems ancestors)),
        item_is (\<lambda>x. \<not> py_in x (elems ancestors)) binding ''productInvocation'',
        item_is (int_and (\<lambda>i. 0 < i)) start ''controllerPid'',
        (if controller_pid = PNone then Inr True else item_eq start ''controllerPid'' controller_pid),
        item_is (str_and utc_text) start ''startedUtc'']))
   ''SIMULATOR_ACTUAL_CANONICAL_START_CHANGED''"

definition canonical_start :: "string \<Rightarrow> string \<Rightarrow> pyval \<Rightarrow> pyval \<Rightarrow> pyval res" where
  "canonical_start binding_raw raw ancestors controller_pid =
     andthen (parse binding_raw) (\<lambda>binding.
     andthen (parse raw) (\<lambda>start.
     andthen (expected_start binding ancestors) (\<lambda>expected.
     then_do (start_unchanged start expected ancestors binding controller_pid)
     (Inr start))))"

definition IDENTITY_KEYS :: "string list" where
  "IDENTITY_KEYS = [''uniqueId'', ''startSeconds'', ''startMicroseconds'', ''pidVersion'']"

definition index_in :: "pyval \<Rightarrow> pyval list \<Rightarrow> bool" where
  "index_in i xs = int_and (\<lambda>n. 0 \<le> n \<and> n < len xs) i"

definition created_native_launch :: "pyval \<Rightarrow> pyval \<Rightarrow> pyval \<Rightarrow> pyval \<Rightarrow> pyval \<Rightarrow> pyval \<Rightarrow> pyval res" where
  "created_native_launch ownership index argv cwd job invocation =
     then_do (ensure (allof
       [Inr (is_dict ownership), get_eq ownership ''backend'' (PStr ''darwin-libproc-audit-token''),
        get_eq ownership ''scope'' (PStr ''controlled-marker-inheriting-descendants''), get_eq ownership ''job'' job,
        get_eq ownership ''invocation'' invocation, get_eq ownership ''discoveryErrors'' (PList []),
        get_is is_list ownership ''launches'', item_is (\<lambda>x. index_in index (elems x)) ownership ''launches''])
       ''SIMULATOR_NATIVE_LAUNCH_REQUIRED'') (
     andthen (py_item ownership ''launches'') (\<lambda>launches.
     andthen (as_int index) (\<lambda>i.
     let launch = elems launches ! nat i in
     then_do (ensure (allof
       [Inr (is_dict launch), get_eq launch ''api'' (PStr ''subprocess.Popen''), get_eq launch ''requestedArgv'' argv,
        get_eq launch ''cwd'' cwd, get_is (\<lambda>x. py_is x False) launch ''shell'', get_is (\<lambda>x. py_is x True) launch ''created'',
        get_is (int_and (\<lambda>n. 0 < n)) launch ''pid'']) ''SIMULATOR_NATIVE_CHILD_NOT_CREATED'') (
     andthen (get ownership ''startedIdentities'') (\<lambda>identities.
     req (is_list identities) ''SIMULATOR_NATIVE_BIRTH_REQUIRED'' (
     andthen (py_item launch ''pid'') (\<lambda>pid.
     let matches = filter (\<lambda>row. is_dict row \<and> get_eq row ''pid'' pid = Inr True) (elems identities) in
     then_do (ensure (allof (
       [Inr (length matches = 1)] @ map (\<lambda>k. get_is (int_and (\<lambda>n. 0 \<le> n)) (matches ! 0) k) IDENTITY_KEYS
       @ [andthen (int_item (matches ! 0) ''uniqueId'') (\<lambda>n. Inr (0 < n))])) ''SIMULATOR_NATIVE_BIRTH_REQUIRED'')
     (Inr (PDict [(''launch'', launch), (''identity'', matches ! 0)])))))))))"

definition IMMUTABLE :: "string list" where
  "IMMUTABLE = [''schema'', ''id'', ''purpose'', ''kind'', ''requestedArgv'', ''cwd'', ''wrapper'', ''host'', ''jobId'',
     ''gradleHome'', ''startedUtc'', ''controllerPid'', ''ancestorInvocationIds'', ''evidenceDirectory'']"

definition authority_required :: "pyval \<Rightarrow> pyval \<Rightarrow> pyval \<Rightarrow> string \<Rightarrow> unit res" where
  "authority_required binding before outer binding_raw = ensure (allof
     [get_eq before ''bindingSha256'' (digest binding_raw),
      eq_res (get before ''device'') (path binding [''selected'', ''device'']),
      get_eq before ''scope'' (PStr ''CURRENT_SHUTDOWN_BEFORE_PRIMARY_LAUNCH''), get_eq outer ''phase'' (PStr ''product''),
      get_eq outer ''retirement'' (PStr ''KNOWN''), get_eq outer ''survivors'' (PList []),
      eq_res (get outer ''job'') (py_item binding ''job''), eq_res (get outer ''state'') (py_item binding ''state''),
      eq_res (get outer ''home'') (py_item binding ''home''), get_eq outer ''simulatorBindingSha256'' (digest binding_raw)])
   ''SIMULATOR_LAUNCH_AUTHORITY_REQUIRED''"

definition product_started :: "pyval \<Rightarrow> pyval \<Rightarrow> pyval \<Rightarrow> unit res" where
  "product_started canonical start binding = ensure (allof (
     [Inr (is_dict canonical)]
     @ map (\<lambda>k. andthen (get canonical k) (\<lambda>x. andthen (py_item start k) (\<lambda>y. Inr (py_type x = py_type y \<and> py_eq x y)))) IMMUTABLE
     @ [eq_res (get canonical ''sourceBefore'') (py_item binding ''source''),
        eq_res (get canonical ''executedArgv'') (py_item start ''requestedArgv''),
        get_eq canonical ''ownedSurvivors'' (PList [])]))
   ''SIMULATOR_CANONICAL_PRODUCT_NOT_STARTED''"

definition outer_native :: "pyval \<Rightarrow> pyval \<Rightarrow> pyval res" where
  "outer_native binding outer =
     andthen (get outer ''ownership'') (\<lambda>ownership.
     andthen (py_item outer ''argv'') (\<lambda>argv.
     andthen (each (py_item binding) [''root'', ''job'']) (\<lambda>b.
     andthen (py_item outer ''invocation'') (\<lambda>invocation.
     created_native_launch ownership (PInt 0) argv (b ! 0) (b ! 1) invocation))))"

definition product_native :: "pyval \<Rightarrow> pyval \<Rightarrow> pyval \<Rightarrow> pyval res" where
  "product_native binding canonical start =
     andthen (get canonical ''ownership'') (\<lambda>ownership.
     andthen (get canonical ''productLaunchIndex'') (\<lambda>index.
     andthen (py_item start ''requestedArgv'') (\<lambda>argv.
     andthen (each (py_item binding) [''root'', ''job'', ''productInvocation'']) (\<lambda>b.
     created_native_launch ownership index argv (b ! 0) (b ! 1) (b ! 2)))))"

definition launch_authority :: "string \<Rightarrow> string \<Rightarrow> string \<Rightarrow> string \<Rightarrow> pyval \<Rightarrow> string res" where
  "launch_authority binding_raw prelaunch_raw start_raw canonical_raw outer =
     andthen (parse binding_raw) (\<lambda>binding.
     andthen (parse prelaunch_raw) (\<lambda>before.
     andthen (parse canonical_raw) (\<lambda>canonical.
     then_do (authority_required binding before outer binding_raw) (
     andthen (outer_native binding outer) (\<lambda>native.
     andthen (py_item outer ''childAncestorInvocationIds'') (\<lambda>ancestors.
     andthen (path native [''launch'', ''pid'']) (\<lambda>pid.
     andthen (canonical_start binding_raw start_raw ancestors pid) (\<lambda>start.
     then_do (product_started canonical start binding) (
     andthen (product_native binding canonical start) (\<lambda>product.
     then_do (ensure (allof [get_is is_int canonical ''productPid'',
         eq_res (py_item canonical ''productPid'') (path product [''launch'', ''pid''])])
       ''SIMULATOR_CANONICAL_PRODUCT_NOT_STARTED'') (
     andthen (encoded outer) (\<lambda>outer_raw.
     andthen (path binding [''selected'', ''device'']) (\<lambda>device.
     encoded (PDict [(''schema'', PInt 1), (''scope'', PStr ''CREATED_PRIMARY_PRODUCT_AFTER_CURRENT_SHUTDOWN''),
       (''bindingSha256'', digest binding_raw), (''prelaunchSha256'', digest prelaunch_raw),
       (''canonicalStartSha256'', digest start_raw), (''canonicalReceiptSha256'', digest canonical_raw),
       (''outerPhaseSha256'', digest outer_raw), (''canonicalNative'', native), (''productNative'', product),
       (''device'', device)]))))))))))))))"

section \<open>Coverage\<close>

definition coverage_identity :: "string \<Rightarrow> string \<Rightarrow> string \<Rightarrow> pyval res" where
  "coverage_identity binding_raw start_raw prelaunch_raw =
     andthen (parse binding_raw) (\<lambda>binding.
     andthen (each (py_item binding) [''admissionSha256'', ''canonicalContextSha256'', ''job'', ''productInvocation'']) (\<lambda>b.
     andthen (path binding [''selected'', ''device'', ''udid'']) (\<lambda>udid.
     andthen (path binding [''selected'', ''runtime'', ''identifier'']) (\<lambda>rt.
     Inr (PDict [(''bindingSha256'', digest binding_raw), (''admissionSha256'', b ! 0), (''canonicalContextSha256'', b ! 1),
       (''job'', b ! 2), (''productInvocation'', b ! 3), (''device'', udid), (''runtime'', rt),
       (''canonicalStartSha256'', digest start_raw), (''prelaunchSha256'', digest prelaunch_raw)])))))"

definition task_rows :: "pyval \<Rightarrow> pyval \<Rightarrow> unit res" where
  "task_rows expected records =
     ensure (andthen (dict_values records) (\<lambda>vs. andthen (py_item expected ''device'') (\<lambda>device.
       Inr (list_all (\<lambda>v. py_eq v (PDict [(''device'', device), (''type'', PStr TASK_TYPE)])) vs))))
     ''SIMULATOR_KGP_PROPERTY_CHANGED''"

definition graph_unchanged :: "pyval \<Rightarrow> pyval \<Rightarrow> unit res" where
  "graph_unchanged tests graph = ensure (allof (
     map (\<lambda>p. andthen (get tests p) (\<lambda>t. if is_dict t then get_is is_bool t ''inGraph'' else Inr False)) TASKS
     @ [andthen (each (\<lambda>p. path tests [p, ''inGraph'']) TASKS) (\<lambda>bs.
          Inr (set (map fst (items graph)) = set (map fst (filter (truth \<circ> snd) (zip TASKS bs)))))]))
   ''SIMULATOR_KGP_GRAPH_CHANGED''"

definition assess_coverage :: "pyval \<Rightarrow> string \<Rightarrow> string \<Rightarrow> string \<Rightarrow> pyval res" where
  "assess_coverage report binding_raw start_raw prelaunch_raw =
     andthen (coverage_identity binding_raw start_raw prelaunch_raw) (\<lambda>expected.
     andthen (get report ''ordinarySimulator'') (\<lambda>actual.
     then_do (ensure (allof (
       [Inr (closed_dict actual (map fst (items expected) @ [''configured'', ''inGraph'', ''unchanged'']))]
       @ map (\<lambda>(k, w). item_eq actual k w) (items expected) @ [item_is (\<lambda>x. py_is x True) actual ''unchanged'']))
       ''SIMULATOR_COVERAGE_BINDING'') (
     andthen (py_item actual ''configured'') (\<lambda>configured.
     andthen (py_item actual ''inGraph'') (\<lambda>graph.
     req (closed_dict configured TASKS \<and> is_dict graph) ''SIMULATOR_KGP_TASK_MODEL_CHANGED'' (
     then_do (check_each (task_rows expected) [configured, graph]) (
     andthen (py_get report ''tests'' (PDict [])) (\<lambda>tests.
     then_do (graph_unchanged tests graph) (
     andthen (parse binding_raw) (\<lambda>binding.
     andthen (item_eq binding ''role'' (PStr ''macos-arm64'')) (\<lambda>arm.
     let suffix = (if arm then '':iosSimulatorArm64Test'' else '':iosX64Test'') in
     req (list_all (\<lambda>p. endswith suffix p \<longrightarrow> p \<in> set (map fst (items graph))) TASKS) ''SIMULATOR_APPLICABLE_GRAPH_MISSING'' (
     Inr expected))))))))))))"

section \<open>Devices\<close>

lemma distinct_eq_strs: "distinct_eq (map PStr us) \<longleftrightarrow> distinct us"
  by (induction us) (auto simp: py_in_def list_ex_iff)

lemma device_rows_ok:
  assumes "device_rows raw = Inr groups"
  obtains us where "list_all2 (\<lambda>row u. py_item row ''udid'' = Inr (PStr u)) (all_rows groups) us" "distinct us"
    "is_dict groups"
proof -
  let ?rows = "all_rows groups"
  obtain v where v: "py_item v ''devices'' = Inr groups" "get_is is_dict v ''devices'' = Inr True"
    and s: "list_all (\<lambda>row. get_is is_str row ''udid'' = Inr True) ?rows"
    and d: "andthen (each (\<lambda>row. py_item row ''udid'') ?rows) distinct_vals = Inr True"
    using assms unfolding device_rows_def req_ok then_do_ok andthen_ok ensure_ok allof_ok
    by (auto simp: list_all_iff allof_ok andthen_ok)
  obtain xs where xs: "list_all2 (\<lambda>row x. py_item row ''udid'' = Inr x) ?rows xs" "distinct_vals xs = Inr True"
    using d by (auto simp: ok_iff)
  have "is_str x" if "x \<in> set xs" for x
  proof -
    obtain n where n: "n < length xs" "xs ! n = x" using \<open>x \<in> set xs\<close> by (auto simp: in_set_conv_nth)
    then have "py_item (?rows ! n) ''udid'' = Inr x" "?rows ! n \<in> set ?rows"
      using xs(1) by (auto simp: list_all2_conv_all_nth)
    then show ?thesis using s by (fastforce simp: list_all_iff get_is_ok get_ok py_item_ok)
  qed
  then have "\<exists>us. xs = map PStr us"
    by (induction xs) (auto simp: type_iff Cons_eq_map_conv)
  then obtain us where us: "xs = map PStr us" by blast
  have "distinct us" using xs(2) by (auto simp: us distinct_vals_def distinct_eq_strs split: if_splits)
  moreover have "list_all2 (\<lambda>row u. py_item row ''udid'' = Inr (PStr u)) ?rows us"
    using xs(1) by (simp add: us list_all2_conv_all_nth)
  moreover have "is_dict groups" using v by (auto simp: get_is_ok get_ok py_item_ok)
  ultimately show ?thesis using that by blast
qed

lemma group_rows:
  assumes "is_dict groups" "get_by groups rt (PList []) = Inr rows" "row \<in> set (elems rows)"
  shows "row \<in> set (all_rows groups)"
proof -
  obtain d where d: "groups = PDict d" using assms(1) by (auto simp: type_iff)
  obtain r where "rt = PStr r" "map_of d r = Some rows"
    using assms(2,3) d by (auto simp: get_by_def py_get_def split: pyval.splits if_splits option.splits)
  then have "(r, rows) \<in> set d" by (simp add: map_of_SomeD)
  then show ?thesis using assms(3) d by (force simp: all_rows_def intro: bexI [of _ "(r, rows)"])
qed

lemma matching_rows_ok:
  assumes "matching_rows groups rt test = Inr ms" "row \<in> set ms"
  obtains rows where "get_by groups rt (PList []) = Inr rows" "row \<in> set (elems rows)" "test row = Inr True"
proof -
  obtain rows bs where r: "get_by groups rt (PList []) = Inr rows" "list_all2 (\<lambda>x b. test x = Inr b) (elems rows) bs"
    "ms = map fst (filter snd (zip (elems rows) bs))"
    using assms(1) by (auto simp: matching_rows_def ok_iff)
  then obtain n where "n < length (elems rows)" "n < length bs" "elems rows ! n = row" "bs ! n"
    using assms(2) by (auto simp: set_zip)
  then show ?thesis using that [OF r(1)] r(2) by (auto simp: list_all2_conv_all_nth)
qed

lemma list_all2_unique:
  assumes "list_all2 P xs us" "distinct us" "\<And>x u v. P x u \<Longrightarrow> P x v \<Longrightarrow> u = v" "x \<in> set xs" "P x u"
    "\<And>y. Q y \<longleftrightarrow> P y u"
  shows "length (filter Q xs) = 1"
  using assms
proof (induction xs us rule: list_all2_induct)
  case (Cons y ys v vs)
  show ?case
  proof (cases "v = u")
    case True
    have "\<not> Q z" if z: "z \<in> set ys" for z
    proof
      assume "Q z"
      obtain w where "w \<in> set vs" "P z w" using z Cons(2) by (metis in_set_conv_nth list_all2_conv_all_nth)
      then have "w = u" using \<open>Q z\<close> Cons.prems by blast
      then show False using \<open>w \<in> set vs\<close> True Cons.prems by simp
    qed
    then have "filter Q ys = []" by (simp add: filter_empty_conv)
    moreover have "Q y" using True Cons by simp
    ultimately show ?thesis by simp
  next
    case False
    then have "\<not> Q y" "x \<noteq> y" using Cons by blast+
    then show ?thesis using Cons by simp
  qed
qed simp

lemma unique_device:
  assumes "device_rows raw = Inr groups" "row \<in> set (all_rows groups)" "get row ''udid'' = Inr (PStr u)"
  shows "length (filter (\<lambda>row. get row ''udid'' = Inr (PStr u)) (all_rows groups)) = 1"
proof -
  obtain us where us: "list_all2 (\<lambda>row u. py_item row ''udid'' = Inr (PStr u)) (all_rows groups) us" "distinct us"
    using device_rows_ok [OF assms(1)] .
  have "py_item x ''udid'' = Inr (PStr u) \<longleftrightarrow> get x ''udid'' = Inr (PStr u)" for x
    by (auto simp: get_ok py_item_ok split: option.splits)
  then show ?thesis using list_all2_unique [OF us, of row u] assms(2,3) by auto
qed

text \<open>What a description of a device contains.\<close>

lemma descriptor_ok:
  assumes "descriptor row = Inr e"
  obtains u s where "e = PDict [(''udid'', PStr u), (''name'', PStr ''iPhone 17''),
      (''deviceTypeIdentifier'', PStr ''com.apple.CoreSimulator.SimDeviceType.iPhone-17''), (''isAvailable'', PBool True),
      (''state'', PStr s)]" "UUID u" "get row ''udid'' = Inr (PStr u)"
    "s \<in> {''Shutdown'', ''Booted'', ''Booting'', ''Shutting Down''}"
proof -
  have "\<exists>d u s. row = PDict d \<and> map_of d ''udid'' = Some (PStr u) \<and> UUID u \<and> map_of d ''name'' = Some (PStr ''iPhone 17'')
      \<and> map_of d ''deviceTypeIdentifier'' = Some (PStr ''com.apple.CoreSimulator.SimDeviceType.iPhone-17'')
      \<and> map_of d ''state'' = Some (PStr s) \<and> s \<in> {''Shutdown'', ''Booted'', ''Booting'', ''Shutting Down''}
      \<and> e = PDict [(''udid'', PStr u), (''name'', PStr ''iPhone 17''),
        (''deviceTypeIdentifier'', PStr ''com.apple.CoreSimulator.SimDeviceType.iPhone-17''), (''isAvailable'', PBool True),
        (''state'', PStr s)]"
    using assms by (auto simp: descriptor_def uuid_def ok_iff type_iff str_and_iff py_in_def split: option.splits
      simp del: allof.simps)
  then show ?thesis using that by auto
qed

lemma terminal_device_ok:
  assumes "terminal_device raw admitted = Inr device"
  obtains groups row u w kvs where "device_rows raw = Inr groups" "row \<in> set (all_rows groups)" "descriptor row = Inr device"
    "get row ''udid'' = Inr u" "path admitted [''device'', ''udid''] = Inr w" "py_eq u w"
    "py_item admitted ''device'' = Inr (PDict kvs)"
    "\<forall>(k, w) \<in> set kvs. k \<noteq> ''state'' \<longrightarrow> (\<exists>x. py_item device k = Inr x \<and> py_eq x w)"
proof -
  let ?test = "\<lambda>row. eq_res (get row ''udid'') (path admitted [''device'', ''udid''])"
  obtain groups rt ms dev kvs where t: "device_rows raw = Inr groups" "matching_rows groups rt ?test = Inr ms" "length ms = 1"
    "descriptor (ms ! 0) = Inr device" "py_item admitted ''device'' = Inr dev" "dict_items dev = Inr kvs"
    "allof (map (\<lambda>(k, w). item_eq device k w) (filter (\<lambda>(k, w). k \<noteq> ''state'') kvs)) = Inr True"
    using assms unfolding terminal_device_def andthen_ok req_ok then_do_ok ensure_ok by auto
  have m: "ms ! 0 \<in> set ms" using t(3) by simp
  obtain rows where r: "get_by groups rt (PList []) = Inr rows" "ms ! 0 \<in> set (elems rows)" "?test (ms ! 0) = Inr True"
    using matching_rows_ok [OF t(2) m] .
  obtain u w where uw: "get (ms ! 0) ''udid'' = Inr u" "path admitted [''device'', ''udid''] = Inr w" "py_eq u w"
    using r(3) by (auto simp: eq_res_ok simp del: path.simps)
  have "is_dict groups" by (rule device_rows_ok [OF t(1)])
  then have a: "ms ! 0 \<in> set (all_rows groups)" using group_rows r by blast
  have d: "dev = PDict kvs" using t(6) by (auto simp: dict_items_def split: pyval.splits)
  have "\<exists>x. py_item device k = Inr x \<and> py_eq x w" if "(k, w) \<in> set kvs" "k \<noteq> ''state''" for k w
    using t(7) that by (auto simp: allof_ok list_all_iff item_eq_ok)
  then show ?thesis using that [OF t(1) a t(4) uw] t(5) d by (auto simp: case_prod_beta)
qed

lemma py_eqd_item: "py_eqd xs ys \<Longrightarrow> map_of xs j = Some x \<Longrightarrow> \<exists>y. map_of ys j = Some y \<and> py_eq x y"
  by (induction xs) (auto split: option.splits if_splits)

lemma selection_device:
  assumes "selection_unchanged selected run = Inr ()"
  obtains d u where "py_item selected ''device'' = Inr (PDict d)"
    "py_eq (PDict d) (PDict [(''udid'', PStr u), (''name'', PStr ''iPhone 17''),
      (''deviceTypeIdentifier'', PStr ''com.apple.CoreSimulator.SimDeviceType.iPhone-17''), (''isAvailable'', PBool True),
      (''state'', PStr ''Shutdown'')])"
    "UUID u" "map_of d ''udid'' = Some (PStr u)"
proof -
  obtain dev e where d: "py_item selected ''device'' = Inr dev" "descriptor dev = Inr e" "py_eq dev e"
    "py_item dev ''state'' = Inr (PStr ''Shutdown'')"
    using assms unfolding selection_unchanged_def ensure_ok allof_ok by (auto simp: andthen_ok)
  obtain kvs where k: "dev = PDict kvs" using d(4) by (auto simp: py_item_ok)
  obtain u s where e: "e = PDict [(''udid'', PStr u), (''name'', PStr ''iPhone 17''),
      (''deviceTypeIdentifier'', PStr ''com.apple.CoreSimulator.SimDeviceType.iPhone-17''), (''isAvailable'', PBool True),
      (''state'', PStr s)]" "UUID u" "get dev ''udid'' = Inr (PStr u)"
    using descriptor_ok [OF d(2)] .
  have "map_of kvs ''udid'' = Some (PStr u)" using e(3) k by (auto simp: split: option.splits)
  moreover have "s = ''Shutdown''"
    using py_eqd_item [of kvs "items e" "''state''" "PStr ''Shutdown''"] d(3,4) k e(1) by (auto simp: py_item_ok)
  ultimately show ?thesis using that d k e by auto
qed

section \<open>Properties\<close>

text \<open>C20. A device is accepted as the one bound to the primary product only if its identity is the
  selected one, has the form of a simulator identity and occurs once in the whole inventory, whatever
  the runtime; if it is an available iPhone 17 of the reviewed device type; and if every field of the
  selected description other than its state has the selected value.  When the selection is moreover
  an unchanged admission and the device is shut down, its description is the selected one.\<close>

theorem terminal_device_admitted:
  assumes "terminal_device raw selected = Inr device"
  shows "\<exists>groups u kvs. device_rows raw = Inr groups \<and> path selected [''device'', ''udid''] = Inr (PStr u) \<and> UUID u
    \<and> length (filter (\<lambda>row. get row ''udid'' = Inr (PStr u)) (all_rows groups)) = 1
    \<and> py_item device ''udid'' = Inr (PStr u) \<and> py_item device ''name'' = Inr (PStr ''iPhone 17'')
    \<and> py_item device ''deviceTypeIdentifier'' = Inr (PStr ''com.apple.CoreSimulator.SimDeviceType.iPhone-17'')
    \<and> py_item device ''isAvailable'' = Inr (PBool True) \<and> py_item selected ''device'' = Inr (PDict kvs)
    \<and> list_all (\<lambda>(k, w). k = ''state'' \<or> (\<exists>x. py_item device k = Inr x \<and> py_eq x w)) kvs
    \<and> (\<forall>run. selection_unchanged selected run = Inr () \<longrightarrow> py_item device ''state'' = Inr (PStr ''Shutdown'') \<longrightarrow>
          py_eq (PDict kvs) device)"
proof -
  obtain groups row x w kvs where t: "device_rows raw = Inr groups" "row \<in> set (all_rows groups)" "descriptor row = Inr device"
    "get row ''udid'' = Inr x" "path selected [''device'', ''udid''] = Inr w" "py_eq x w"
    "py_item selected ''device'' = Inr (PDict kvs)"
    "\<forall>(k, w) \<in> set kvs. k \<noteq> ''state'' \<longrightarrow> (\<exists>x. py_item device k = Inr x \<and> py_eq x w)"
    using terminal_device_ok [OF assms] .
  obtain u s where e: "device = PDict [(''udid'', PStr u), (''name'', PStr ''iPhone 17''),
      (''deviceTypeIdentifier'', PStr ''com.apple.CoreSimulator.SimDeviceType.iPhone-17''), (''isAvailable'', PBool True),
      (''state'', PStr s)]" "UUID u" "get row ''udid'' = Inr (PStr u)"
    using descriptor_ok [OF t(3)] by metis
  have w: "w = PStr u" using t(4,6) e(3) by (cases w) auto
  have eq: "py_eq (PDict kvs) device"
    if sel: "selection_unchanged selected run = Inr ()" and sh: "py_item device ''state'' = Inr (PStr ''Shutdown'')" for run
  proof -
    obtain d v where d: "py_item selected ''device'' = Inr (PDict d)"
      "py_eq (PDict d) (PDict [(''udid'', PStr v), (''name'', PStr ''iPhone 17''),
        (''deviceTypeIdentifier'', PStr ''com.apple.CoreSimulator.SimDeviceType.iPhone-17''), (''isAvailable'', PBool True),
        (''state'', PStr ''Shutdown'')])" "UUID v" "map_of d ''udid'' = Some (PStr v)"
      by (rule selection_device [OF sel])
    have k: "d = kvs" using d(1) t(7) by simp
    have "v = u" using d(4) t(5,7) w k by (simp add: py_item_PDict)
    moreover have "s = ''Shutdown''" using sh unfolding e(1) by (simp add: py_item_PDict)
    ultimately show ?thesis using d(2) unfolding e(1) k by simp
  qed
  have fields: "list_all (\<lambda>(k, w). k = ''state'' \<or> (\<exists>x. py_item device k = Inr x \<and> py_eq x w)) kvs"
    using t(8) unfolding list_all_iff by blast
  have "py_item device ''udid'' = Inr (PStr u)" "py_item device ''name'' = Inr (PStr ''iPhone 17'')"
    "py_item device ''deviceTypeIdentifier'' = Inr (PStr ''com.apple.CoreSimulator.SimDeviceType.iPhone-17'')"
    "py_item device ''isAvailable'' = Inr (PBool True)"
    unfolding e(1) by (simp_all add: py_item_PDict)
  then show ?thesis using t(1,7) t(5) [unfolded w] e(2) unique_device [OF t(1,2) e(3)] fields eq by blast
qed

definition sample_device :: "string \<Rightarrow> pyval" where
  "sample_device u = PDict [(''udid'', PStr u), (''name'', PStr ''iPhone 17''),
     (''deviceTypeIdentifier'', PStr ''com.apple.CoreSimulator.SimDeviceType.iPhone-17''), (''isAvailable'', PBool True),
     (''state'', PStr ''Shutdown'')]"

definition sample_udid :: string where
  "sample_udid = ''0A1B2C3D-0000-1111-2222-00000000000F''"

definition sample_selected :: pyval where
  "sample_selected = PDict [(''macosVersion'', PStr ''26.1''), (''xcodeVersion'', PStr ''Xcode''),
     (''runtime'', PDict [(''identifier'', PStr ''com.apple.CoreSimulator.SimRuntime.iOS-26-5''), (''version'', PStr ''26.5''),
        (''isAvailable'', PBool True)]),
     (''device'', sample_device sample_udid)]"

definition sample_inventory :: string where
  \<open>sample_inventory = ''{"devices":{"com.apple.CoreSimulator.SimRuntime.iOS-26-5":[{"udid":"0A1B2C3D-0000-1111-2222-00000000000F","name":"iPhone 17","deviceTypeIdentifier":"com.apple.CoreSimulator.SimDeviceType.iPhone-17","isAvailable":true,"state":"Shutdown"},{"udid":"B","name":"iPad"}],"other":[{"udid":"C"}]}}''\<close>

theorem terminal_device_admitted_witness:
  "terminal_device sample_inventory sample_selected = Inr (sample_device sample_udid)
   \<and> (\<exists>groups. device_rows sample_inventory = Inr groups \<and> length (all_rows groups) = 3
       \<and> length (filter (\<lambda>row. get row ''udid'' = Inr (PStr sample_udid)) (all_rows groups)) = 1)
   \<and> selection_unchanged sample_selected (PDict [(''role'', PStr ''macos-arm64'')]) = Inr ()"
proof -
  have s: "selection_unchanged sample_selected (PDict [(''role'', PStr ''macos-arm64'')]) = Inr ()" by code_simp
  have t: "terminal_device sample_inventory sample_selected = Inr (sample_device sample_udid)" by code_simp
  have p: "path sample_selected [''device'', ''udid''] = Inr (PStr sample_udid)" by code_simp
  have "(case device_rows sample_inventory of Inr g \<Rightarrow> length (all_rows g) = 3 | Inl _ \<Rightarrow> False)" by code_simp
  then show ?thesis using terminal_device_admitted [OF t] t p s by (auto split: sum.splits simp del: path.simps)
qed

text \<open>C21: in an accepted coverage report every one of the eight simulator tasks is configured for the bound
  device and the Kotlin simulator task type, the tasks in the graph are exactly the reported ones, and every
  task of the host's architecture is among them, again on the bound device.\<close>

theorem coverage_on_bound_device:
  assumes "assess_coverage report binding_raw start_raw prelaunch_raw = Inr expected" "parse binding_raw = Inr binding"
    "path binding [''selected'', ''device'', ''udid''] = Inr u" "py_item binding ''role'' = Inr role"
  shows "\<exists>actual configured graph. get report ''ordinarySimulator'' = Inr actual \<and> py_item actual ''configured'' = Inr configured
    \<and> py_item actual ''inGraph'' = Inr graph
    \<and> (\<forall>p \<in> set TASKS. \<exists>v. py_item configured p = Inr v \<and> py_eq v (PDict [(''device'', u), (''type'', PStr TASK_TYPE)]))
    \<and> (\<forall>p \<in> set TASKS. endswith (if role = PStr ''macos-arm64'' then '':iosSimulatorArm64Test'' else '':iosX64Test'') p
         \<longrightarrow> (\<exists>v. py_item graph p = Inr v \<and> py_eq v (PDict [(''device'', u), (''type'', PStr TASK_TYPE)])))"
proof -
  let ?want = "PDict [(''device'', u), (''type'', PStr TASK_TYPE)]"
  have e: "py_item expected ''device'' = Inr u"
    if "coverage_identity binding_raw start_raw prelaunch_raw = Inr expected" for expected
    using that assms(2,3) by (auto simp: coverage_identity_def ok_iff)
  obtain actual configured graph tests where a: "get report ''ordinarySimulator'' = Inr actual"
    "coverage_identity binding_raw start_raw prelaunch_raw = Inr expected"
    "py_item actual ''configured'' = Inr configured" "py_item actual ''inGraph'' = Inr graph"
    "closed_dict configured TASKS" "is_dict graph" "check_each (task_rows expected) [configured, graph] = Inr ()"
    "graph_unchanged tests graph = Inr ()"
    "list_all (\<lambda>p. endswith (if role = PStr ''macos-arm64'' then '':iosSimulatorArm64Test'' else '':iosX64Test'') p
       \<longrightarrow> p \<in> set (map fst (items graph))) TASKS"
    using assms(1,2,4) unfolding assess_coverage_def Let_def andthen_ok req_ok then_do_ok
    by (elim exE conjE) (simp add: item_eq_ok)
  have rows: "py_eq v ?want" if "task_rows expected r = Inr ()" "py_item r p = Inr v" for r p v
    using that e [OF a(2)] by (fastforce simp: task_rows_def ok_iff dict_values_def list_all_iff dest: map_of_SomeD)
  have t: "task_rows expected configured = Inr ()" "task_rows expected graph = Inr ()" using a(7) by (simp_all add: check_each_ok)
  have "\<exists>v. py_item configured p = Inr v" if "p \<in> set TASKS" for p
    using closed_dict_item [OF a(5) that] by blast
  moreover have "\<exists>v. py_item graph p = Inr v" if "p \<in> set (map fst (items graph))" for p
    using that a(6) weak_map_of_SomeI [of p] by (fastforce simp: type_iff py_item_PDict)
  ultimately show ?thesis using a(1,3,4,9) rows [OF t(1)] rows [OF t(2)] unfolding list_all_iff by meson
qed

definition sample_binding :: string where
  \<open>sample_binding = ''{"admissionSha256":"a","canonicalContextSha256":"c","job":"j","productInvocation":"p","role":"macos-x64","selected":{"device":{"udid":"D"},"runtime":{"identifier":"R"}}}''\<close>

definition sample_binding_value :: pyval where
  "sample_binding_value = PDict [(''admissionSha256'', PStr ''a''), (''canonicalContextSha256'', PStr ''c''), (''job'', PStr ''j''),
     (''productInvocation'', PStr ''p''), (''role'', PStr ''macos-x64''),
     (''selected'', PDict [(''device'', PDict [(''udid'', PStr ''D'')]), (''runtime'', PDict [(''identifier'', PStr ''R'')])])]"

definition sample_report :: pyval where
  "sample_report =
     (let row = PDict [(''device'', PStr ''D''), (''type'', PStr TASK_TYPE)];
          inside = filter (endswith '':iosX64Test'') TASKS in
      PDict [(''ordinarySimulator'', PDict [(''configured'', PDict (map (\<lambda>p. (p, row)) TASKS)),
          (''inGraph'', PDict (map (\<lambda>p. (p, row)) inside)), (''unchanged'', PBool True),
          (''bindingSha256'', digest sample_binding), (''admissionSha256'', PStr ''a''),
          (''canonicalContextSha256'', PStr ''c''), (''job'', PStr ''j''), (''productInvocation'', PStr ''p''), (''device'', PStr ''D''),
          (''runtime'', PStr ''R''), (''canonicalStartSha256'', digest ''s''), (''prelaunchSha256'', digest ''l'')]),
        (''tests'', PDict (map (\<lambda>p. (p, PDict [(''inGraph'', PBool (p \<in> set inside))])) TASKS))])"

lemma sample_binding_read: "parse sample_binding = Inr sample_binding_value"
  by code_simp

lemma sample_expected:
  "coverage_identity sample_binding ''s'' ''l'' = Inr (PDict [(''bindingSha256'', digest sample_binding), (''admissionSha256'', PStr ''a''),
     (''canonicalContextSha256'', PStr ''c''), (''job'', PStr ''j''), (''productInvocation'', PStr ''p''), (''device'', PStr ''D''),
     (''runtime'', PStr ''R''), (''canonicalStartSha256'', digest ''s''), (''prelaunchSha256'', digest ''l'')])"
  by (simp add: coverage_identity_def sample_binding_read sample_binding_value_def py_item_PDict)

lemma sample_graph:
  "graph_unchanged (PDict (map (\<lambda>p. (p, PDict [(''inGraph'', PBool (p \<in> set (filter (endswith '':iosX64Test'') TASKS)))])) TASKS))
     (PDict (map (\<lambda>p. (p, PDict [(''device'', PStr ''D''), (''type'', PStr TASK_TYPE)])) (filter (endswith '':iosX64Test'') TASKS))) = Inr ()"
  by code_simp

theorem coverage_on_bound_device_witness:
  "\<exists>expected. assess_coverage sample_report sample_binding ''s'' ''l'' = Inr expected
   \<and> (\<exists>actual graph v. get sample_report ''ordinarySimulator'' = Inr actual \<and> py_item actual ''inGraph'' = Inr graph
       \<and> py_item graph '':p2p-rpc:iosX64Test'' = Inr v \<and> py_eq v (PDict [(''device'', PStr ''D''), (''type'', PStr TASK_TYPE)]))"
proof -
  have "\<exists>e. assess_coverage sample_report sample_binding ''s'' ''l'' = Inr e"
    unfolding assess_coverage_def sample_expected
    using sample_graph
    by (simp add: sample_report_def Let_def req_def digest_def image_image py_item_PDict ensure_def item_eq_def item_is_def py_is_def check_each_def task_rows_def
        dict_values_def py_get_def then_do_def sample_binding_read sample_binding_value_def closed_dict_def keys_eq_def
        list_all_iff num_eq_def num_val_def)
  then obtain e where a: "assess_coverage sample_report sample_binding ''s'' ''l'' = Inr e" by blast
  have "path sample_binding_value [''selected'', ''device'', ''udid''] = Inr (PStr ''D'')"
    "py_item sample_binding_value ''role'' = Inr (PStr ''macos-x64'')" by code_simp+
  then have "endswith '':iosX64Test'' '':p2p-rpc:iosX64Test'' \<and> '':p2p-rpc:iosX64Test'' \<in> set TASKS \<longrightarrow> ?thesis"
    using coverage_on_bound_device [OF a sample_binding_read] a by fastforce
  moreover have "endswith '':iosX64Test'' '':p2p-rpc:iosX64Test'' \<and> '':p2p-rpc:iosX64Test'' \<in> set TASKS" by code_simp
  ultimately show ?thesis by blast
qed

end
