(* ===== verification/Canonical.thy ===== *)
theory Canonical
  imports PyCheck "HOL-Library.Multiset"
begin

text \<open>
  Canonical records: what a script writes with \<open>sort_keys\<close> and reads back is the same value with its
  keys sorted, and field access does not notice the sorting.  \<open>storable\<close> values are made of \<open>None\<close>, bools,
  ints, well-formed strings, lists and dicts with distinct keys; a storable value that could be written
  at all is read back.
\<close>

fun storable :: "pyval \<Rightarrow> bool"
  and storables :: "pyval list \<Rightarrow> bool"
  and storabled :: "(string \<times> pyval) list \<Rightarrow> bool" where
  "storable PNone = True"
| "storable (PBool b) = True"
| "storable (PInt i) = True"
| "storable (PFloat f) = False"
| "storable (PStr s) = plain_str s"
| "storable (PBytes s) = False"
| "storable (PList vs) = storables vs"
| "storable (PTuple vs) = False"
| "storable (PDict d) = (distinct (map fst d) \<and> storabled d)"
| "storables [] = True"
| "storables (v # vs) = (storable v \<and> storables vs)"
| "storabled [] = True"
| "storabled ((k, v) # d) = (plain_str k \<and> storable v \<and> storabled d)"

lemma storabled_iff: "storabled d \<longleftrightarrow> (\<forall>(k, v) \<in> set d. plain_str k \<and> storable v)"
  by (induction d) auto

lemma storables_iff: "storables vs \<longleftrightarrow> list_all storable vs"
  by (induction vs) auto

lemma storable_canon:
  "storable v \<Longrightarrow> storable (canon v)" "storables vs \<Longrightarrow> storables (map canon vs)" "storabled d \<Longrightarrow> storabled (canon_pairs d)"
  by (induction v and vs and d rule: storable_storables_storabled.induct) (auto simp: distinct_sort_fst storabled_iff)

lemma storable_jok:
  "storable v \<Longrightarrow> jenc v = Inr x \<Longrightarrow> jok v"
  "storables vs \<Longrightarrow> jencs vs = Inr xs \<Longrightarrow> joks vs"
  "storabled d \<Longrightarrow> jencd d = Inr xs \<Longrightarrow> jokd d"
proof (induction v and vs and d arbitrary: x and xs and xs rule: storable_storables_storabled.induct)
  case (3 i)
  then show ?case by (auto simp: jint_def split: if_splits)
qed (auto simp: andthen_ok)

section \<open>Sorting keys\<close>

lemma insort_key_map: "(\<And>x. f (g x) = f x) \<Longrightarrow> insort_key f (g x) (map g xs) = map g (insort_key f x xs)"
  by (induction xs) auto

lemma sort_key_map: "(\<And>x. f (g x) = f x) \<Longrightarrow> sort_key f (map g xs) = map g (sort_key f xs)"
  by (induction xs) (auto simp: insort_key_map)

lemma canon_pairs_sort: "canon_pairs (sort_key fst d) = sort_key fst (canon_pairs d)"
  by (simp add: canon_pairs_map sort_key_map case_prod_beta)

lemma sort_key_sorted: "sorted (map f xs) \<Longrightarrow> sort_key f xs = xs"
  by (induction xs) (auto simp: insort_is_Cons)

lemma canon_idem: "canon (canon v) = canon v" "canon_pairs (canon_pairs d) = canon_pairs d"
proof (induction v and d rule: canon_canon_pairs.induct)
  case (3 d)
  then show ?case by (simp add: canon_pairs_sort sort_key_sorted)
qed simp_all

lemma record_text_canon: "record_text (canon v) = record_text v"
  by (simp add: record_text_def json_dumps_def canon_idem)

lemma record_stored:
  assumes "storable v" "record_text v = Inr raw" "good_hooks h"
  shows "json_loads_bytes h raw = Inr (canon v)"
proof -
  obtain x where x: "jenc (canon v) = Inr x" using assms(2) by (auto simp: record_text_def json_dumps_def andthen_ok)
  have "jok (canon v)" by (rule storable_jok(1) [OF storable_canon(1) [OF assms(1)] x])
  then show ?thesis using record_read_back [of "canon v" raw h] assms(2,3) by (simp add: record_text_canon canon_idem)
qed

section \<open>Fields\<close>

lemma map_of_canon_entries: "map_of (canon_pairs d) k = map_option canon (map_of d k)"
  by (induction d) auto

lemma map_of_sort: "distinct (map fst d) \<Longrightarrow> map_of (sort_key fst d) = map_of d"
  by (simp add: map_of_inject_set distinct_sort_fst)

lemma map_of_canon: "distinct (map fst d) \<Longrightarrow> map_of (sort_key fst (canon_pairs d)) k = map_option canon (map_of d k)"
  by (simp add: map_of_sort map_of_canon_entries)

lemma py_item_canon: "storable v \<Longrightarrow> py_item (canon v) k = (case py_item v k of Inl e \<Rightarrow> Inl e | Inr x \<Rightarrow> Inr (canon x))"
  by (cases v) (auto simp: py_item_def map_of_canon split: option.splits)

lemma get_canon: "storable v \<Longrightarrow> get (canon v) k = (case get v k of Inl e \<Rightarrow> Inl e | Inr x \<Rightarrow> Inr (canon x))"
  by (cases v) (auto simp: get_def py_get_def map_of_canon split: option.splits)

lemma closed_dict_canon: "closed_dict (canon v) ks \<longleftrightarrow> closed_dict v ks"
proof (cases v)
  case (PDict d)
  have "fst ` set (canon_pairs d) = fst ` set d" by (metis fst_canon_pairs list.set_map)
  then show ?thesis by (simp add: PDict closed_dict_def keys_eq_def)
qed (simp_all add: closed_dict_def)

lemma has_key_canon: "has_key k (canon v) \<longleftrightarrow> has_key k v"
proof (cases v)
  case (PDict d)
  have "fst ` set (canon_pairs d) = fst ` set d" by (metis fst_canon_pairs list.set_map)
  then show ?thesis by (simp add: PDict has_key_def)
qed (simp_all add: has_key_def items_def)

lemma is_dict_canon [simp]: "is_dict (canon v) \<longleftrightarrow> is_dict v"
  by (cases v) (simp_all add: is_dict_def)

lemma storable_item: "storable v \<Longrightarrow> py_item v k = Inr x \<Longrightarrow> storable x"
  by (cases v) (auto simp: py_item_def storabled_iff split: option.splits dest!: map_of_SomeD)

section \<open>Well-formed text\<close>

lemma ascii_plain: "list_all (\<lambda>c. cc c < 128) s \<Longrightarrow> plain_str s"
proof -
  have "list_all (\<lambda>c. cc c < 128) s \<Longrightarrow> utf8_points sp s = Some (map cc s)" for sp
    by (induction s) simp_all
  then show "list_all (\<lambda>c. cc c < 128) s \<Longrightarrow> plain_str s" by (simp add: plain_str_def)
qed

lemma digit_ascii: "is_digit c \<Longrightarrow> cc c < 128"
  by (simp add: is_digit_def)

lemma alnum_ascii: "is_alnum c \<Longrightarrow> cc c < 128"
  by (auto simp: is_alnum_def is_digit_def is_lower_def is_upper_def)

lemma hex_ascii: "is_hex c \<Longrightarrow> cc c < 128"
  by (auto simp: is_hex_def is_digit_def)

lemma hexn_plain: "hexn n s \<Longrightarrow> plain_str s"
  by (rule ascii_plain) (auto simp: hexn_def list_all_iff hex_ascii)

lemma shape_ascii: "shape p s \<Longrightarrow> list_all (\<lambda>c. cc c < 128) p \<Longrightarrow> list_all (\<lambda>c. cc c < 128) s"
  unfolding shape_def
proof (induction rule: list_all2_induct)
  case (Cons q p c s)
  then show ?case by (auto simp: fits_def is_digit_def split: if_splits)
qed simp

lemma sha256_plain [simp]: "plain_str (sha256 s)"
  using sha256_hex by (rule hexn_plain)

section \<open>Canonical values are equal\<close>

lemma py_eqd_iff: "py_eqd xs ys \<longleftrightarrow> (\<forall>(k, x) \<in> set xs. \<exists>y. map_of ys k = Some y \<and> py_eq x y)"
  by (induction xs) (auto split: option.splits)

lemma feq_refl [simp]: "feq (Fin i) (Fin i)"
  by simp

lemma py_eq_canon: "storable v \<Longrightarrow> py_eq (canon v) v"
  "storables vs \<Longrightarrow> py_eqs (map canon vs) vs" "storabled d \<Longrightarrow> \<forall>(k, x) \<in> set d. py_eq (canon x) x"
proof (induction v and vs and d rule: storable_storables_storabled.induct)
  case (9 d)
  have "\<exists>y. map_of d k = Some y \<and> py_eq x y" if "(k, x) \<in> set (canon_pairs d)" for k x
  proof -
    obtain z where "(k, z) \<in> set d" "x = canon z" using \<open>(k, x) \<in> set (canon_pairs d)\<close> by (auto simp: canon_pairs_map)
    then show ?thesis using 9 by (auto simp: map_of_is_SomeI)
  qed
  moreover have "length (canon_pairs d) = length d" by (simp add: canon_pairs_map)
  ultimately show ?case by (auto simp: py_eqd_iff)
qed (auto simp: num_eq_def num_val_def)

lemma check_pass: "list_all (\<lambda>c. c = Inr True) cs \<Longrightarrow> check cs code k = k"
  by (simp add: check_def reqr_def allof_ok [THEN iffD2])

lemma then_do_pass [simp]: "then_do (Inr ()) k = k"
  by (simp add: then_do_def)

lemma list_all_canon_values: "storabled d \<Longrightarrow> list_all P (map snd (items (canon (PDict d)))) \<longleftrightarrow> list_all (P \<circ> canon) (map snd d)"
  by (auto simp: list_all_iff canon_pairs_map)

section \<open>Size of a record\<close>

text \<open>An upper bound of the length of the text of a value: a code point takes at most twelve characters.\<close>

fun jbound :: "pyval \<Rightarrow> nat"
  and jbounds :: "pyval list \<Rightarrow> nat"
  and jboundd :: "(string \<times> pyval) list \<Rightarrow> nat" where
  "jbound PNone = 4"
| "jbound (PBool b) = 5"
| "jbound (PInt i) = length (show_int i)"
| "jbound (PFloat f) = 0"
| "jbound (PStr s) = 12 * length s + 2"
| "jbound (PBytes s) = 0"
| "jbound (PList vs) = jbounds vs + 2"
| "jbound (PTuple vs) = jbounds vs + 2"
| "jbound (PDict d) = jboundd d + 2"
| "jbounds [] = 0"
| "jbounds (v # vs) = jbound v + jbounds vs + 1"
| "jboundd [] = 0"
| "jboundd ((k, v) # d) = 12 * length k + jbound v + jboundd d + 4"

lemma escape_point_length: "length (escape_point n) \<le> 12"
  by (simp add: escape_point_def u_escape_def hex4_def Let_def)

lemma utf8_points_length: "utf8_points b s = Some ns \<Longrightarrow> length ns \<le> length s"
  by (induction b s arbitrary: ns rule: utf8_points.induct) (fastforce simp: Let_def split: if_splits option.splits list.splits)+

lemma concat_length: "(\<And>x. length (f x) \<le> k) \<Longrightarrow> length (concat (map f xs)) \<le> k * length xs"
proof (induction xs)
  case (Cons x xs)
  then show ?case using add_mono [OF Cons.prems [of x] Cons.IH] by simp
qed simp

lemma jquote_length: "jquote s = Inr q \<Longrightarrow> length q \<le> 12 * length s + 2"
proof -
  assume "jquote s = Inr q"
  then obtain ns where n: "utf8_points True s = Some ns" "q = CHR 0x22 # concat (map escape_point ns) @ [CHR 0x22]"
    by (auto simp: jquote_def split: option.splits)
  then show ?thesis using concat_length [of escape_point 12 ns] escape_point_length utf8_points_length [OF n(1)] by simp
qed

lemma join_length: "length (join '','' xs) \<le> sum_list (map (\<lambda>x. length x + 1) xs)"
  by (induction "'',''" xs rule: join.induct) auto

lemma jenc_length:
  "storable v \<Longrightarrow> jenc v = Inr x \<Longrightarrow> length x \<le> jbound v"
  "storables vs \<Longrightarrow> jencs vs = Inr xs \<Longrightarrow> sum_list (map (\<lambda>x. length x + 1) xs) \<le> jbounds vs"
  "storabled d \<Longrightarrow> jencd d = Inr xs \<Longrightarrow> sum_list (map (\<lambda>x. length x + 1) xs) \<le> jboundd d"
proof (induction v and vs and d arbitrary: x and xs and xs rule: storable_storables_storabled.induct)
  case (7 vs)
  then obtain xs where "jencs vs = Inr xs" "x = ''['' @ join '','' xs @ '']''" by (auto simp: andthen_ok)
  then show ?case using 7 join_length [of xs] by fastforce
next
  case (9 d)
  then obtain xs where "jencd d = Inr xs" "x = ''{'' @ join '','' xs @ ''}''" by (auto simp: andthen_ok)
  then show ?case using 9 join_length [of xs] by fastforce
next
  case (11 v vs)
  then show ?case by (fastforce simp: andthen_ok)
next
  case (13 k v d)
  then obtain q y ys where y: "jquote k = Inr q" "jenc v = Inr y" "jencd d = Inr ys" "xs = (q @ '':'' @ y) # ys" by (auto simp: andthen_ok)
  then have "length y \<le> jbound v" "sum_list (map (\<lambda>x. length x + 1) ys) \<le> jboundd d" using 13 by auto
  then show ?case using jquote_length [OF y(1)] y(4) by simp
qed (auto simp: jint_def andthen_ok split: if_splits dest: jquote_length)

lemma jboundd_sum: "jboundd d = sum_list (map (\<lambda>(k, v). 12 * length k + jbound v + 4) d)"
  by (induction d) auto

lemma sum_list_sort: "sum_list (map f (sort_key g xs)) = (sum_list (map f xs) :: nat)"
  by (metis mset_map mset_sort sum_mset_sum_list)

lemma jbound_canon: "storable v \<Longrightarrow> jbound (canon v) = jbound v" "storables vs \<Longrightarrow> jbounds (map canon vs) = jbounds vs"
  "storabled d \<Longrightarrow> jboundd (canon_pairs d) = jboundd d"
proof (induction v and vs and d rule: storable_storables_storabled.induct)
  case (9 d)
  then show ?case by (simp add: jboundd_sum sum_list_sort)
qed simp_all

lemma record_text_length: "storable v \<Longrightarrow> record_text v = Inr raw \<Longrightarrow> length raw \<le> jbound v + 1"
  using jenc_length(1) [OF storable_canon(1)] by (fastforce simp: record_text_def json_dumps_def andthen_ok jbound_canon)

lemma jok_storable: "jok v \<Longrightarrow> storable v" "joks vs \<Longrightarrow> storables vs" "jokd d \<Longrightarrow> storabled d"
  by (induction v and vs and d rule: jok_joks_jokd.induct) auto

lemma jok_written: "jok v \<Longrightarrow> \<exists>raw. record_text v = Inr raw"
proof -
  assume v: "jok v"
  have "\<exists>x. json_dumps v = Inr x" by (rule json_roundtrip [OF v strict_hooks_good(2)]) blast
  then show ?thesis by (auto simp: record_text_def)
qed

text \<open>The text of a record.\<close>

definition text_of_record :: "pyval \<Rightarrow> string" where
  "text_of_record v = (case record_text v of Inr raw \<Rightarrow> raw | Inl _ \<Rightarrow> [])"

lemma record_text_of: "jok v \<Longrightarrow> record_text v = Inr (text_of_record v)"
  using jok_written [of v] by (auto simp: text_of_record_def)

text \<open>A storable value with moderate integers can be written.\<close>

fun jints :: "pyval \<Rightarrow> int list"
  and jintss :: "pyval list \<Rightarrow> int list"
  and jintsd :: "(string \<times> pyval) list \<Rightarrow> int list" where
  "jints (PInt i) = [i]"
| "jints (PList vs) = jintss vs"
| "jints (PDict d) = jintsd d"
| "jints _ = []"
| "jintss [] = []"
| "jintss (v # vs) = jints v @ jintss vs"
| "jintsd [] = []"
| "jintsd ((k, v) # d) = jints v @ jintsd d"

lemma show_nat_length: "n < 10 ^ k \<Longrightarrow> 0 < k \<Longrightarrow> length (show_nat n) \<le> k"
proof (induction k arbitrary: n)
  case (Suc k)
  show ?case
  proof (cases "n < 10")
    case True
    then show ?thesis by (simp add: show_nat.simps [of n])
  next
    case False
    then have "0 < k" using Suc.prems by (cases k) auto
    moreover have "n div 10 < 10 ^ k" using Suc.prems by (simp add: less_mult_imp_div_less mult.commute)
    ultimately show ?thesis using Suc.IH [of "n div 10"] False by (simp add: show_nat.simps [of n])
  qed
qed simp

lemma moderate_int: "\<bar>i\<bar> < 10 ^ 12 \<Longrightarrow> length (show_int \<bar>i\<bar>) \<le> 12"
  using show_nat_length [of "nat \<bar>i\<bar>" 12] by (simp add: show_int_def nat_less_iff)

lemma jok_moderate:
  "storable v \<Longrightarrow> \<forall>i \<in> set (jints v). \<bar>i\<bar> < 10 ^ 12 \<Longrightarrow> jok v"
  "storables vs \<Longrightarrow> \<forall>i \<in> set (jintss vs). \<bar>i\<bar> < 10 ^ 12 \<Longrightarrow> joks vs"
  "storabled d \<Longrightarrow> \<forall>i \<in> set (jintsd d). \<bar>i\<bar> < 10 ^ 12 \<Longrightarrow> jokd d"
proof (induction v and vs and d rule: storable_storables_storabled.induct)
  case (3 i)
  then have "length (show_int \<bar>i\<bar>) \<le> 12" by (intro moderate_int) simp
  then show ?case by (simp add: int_max_str_digits_def)
qed auto

text \<open>A bound on the length of the text that does not print the integers.\<close>

fun jweight :: "pyval \<Rightarrow> int"
  and jweights :: "pyval list \<Rightarrow> int"
  and jweightd :: "(string \<times> pyval) list \<Rightarrow> int" where
  "jweight (PInt i) = 13"
| "jweight (PStr s) = 12 * int (length s) + 2"
| "jweight (PList vs) = jweights vs + 2"
| "jweight (PDict d) = jweightd d + 2"
| "jweight v = 5"
| "jweights [] = 0"
| "jweights (v # vs) = jweight v + 1 + jweights vs"
| "jweightd [] = 0"
| "jweightd ((k, v) # d) = 12 * int (length k) + jweight v + 4 + jweightd d"

lemma jbound_moderate:
  "storable v \<Longrightarrow> \<forall>i \<in> set (jints v). \<bar>i\<bar> < 10 ^ 12 \<Longrightarrow> int (jbound v) \<le> jweight v"
  "storables vs \<Longrightarrow> \<forall>i \<in> set (jintss vs). \<bar>i\<bar> < 10 ^ 12 \<Longrightarrow> int (jbounds vs) \<le> jweights vs"
  "storabled d \<Longrightarrow> \<forall>i \<in> set (jintsd d). \<bar>i\<bar> < 10 ^ 12 \<Longrightarrow> int (jboundd d) \<le> jweightd d"
proof (induction v and vs and d rule: storable_storables_storabled.induct)
  case (3 i)
  then have "length (show_int \<bar>i\<bar>) \<le> 12" by (intro moderate_int) simp
  then show ?case by (cases "i < 0") (simp_all add: show_int_def)
qed auto

end
