(* ===== verification/Hosted_Identity.thy ===== *)
theory Hosted_Identity
  imports Canonical
begin

text \<open>
  The closed identities of the hosted test jobs, \<^verbatim>\<open>src/scripts/hosted_test_identity.py\<close>: the strict record
  codec, the worker contracts, the read-only Git queries, the recipient policy, the admission decision
  and the readers of admitted records.

  The native owner of the Git queries is the parameter \<open>runner\<close>: its answer to the \<open>n\<close>-th query, which
  may change from one query to the next; \<open>None\<close> is a query that raised.  The operations of \<open>GitView\<close>
  thread the number of queries made so far.  \<open>same_root\<close> is \<open>Path(os.fsdecode(x)) == self.root\<close>, and the
  environment is the frozen \<open>dict(os.environ)\<close>.

  The lemmas show that an admitted pull request takes its policy from the base commit, which is the first
  parent of the tested merge commit, that the release packaging decision read back from an admission is
  exactly the one the event and the commit message made, and that an admission of the JVM worker is
  routed to the desktop bytes of its own host.  The last two hold for records within the reader's limit
  and a ref of well-formed text.
\<close>

section \<open>Constants\<close>

definition REPOSITORY :: string where "REPOSITORY = ''p2pKit/P2pKit''"
definition POLICY_PATH :: string where "POLICY_PATH = ''.github/test-evidence-recipient.json''"
definition POLICY_LIMIT :: int where "POLICY_LIMIT = 96 * 1024"
definition EVENT_LIMIT :: int where "EVENT_LIMIT = 2 * 1024 * 1024"
definition MESSAGE_LIMIT :: int where "MESSAGE_LIMIT = 64 * 1024"
definition RELEASE_MARKER :: string where "RELEASE_MARKER = ''[release ci]''"

type_synonym worker = "string \<times> string \<times> string list"

definition PROFILES :: "(string \<times> worker) list" where
  "PROFILES = [(''desktop'', (''.github/workflows/desktop-cross-host.yml'', ''verify'', [''cli''])),
     (''full'', (''.github/workflows/ci.yml'', ''complete-gate'', [''cli'', ''diagnostics'']))]"

definition JVM_PROFILE :: string where "JVM_PROFILE = ''jvm-library''"

definition JVM_WORKER :: worker where
  "JVM_WORKER = (''.github/workflows/ci.yml'', ''jvm-library-checks'', [''jvm-library''])"

definition JVM_HOSTS :: "((string \<times> string) \<times> string) list" where
  "JVM_HOSTS = [((''Linux'', ''X64''), ''linux-x64''), ((''Windows'', ''X64''), ''windows-x64'')]"

definition SHA :: "string \<Rightarrow> bool" where "SHA s = hexn 40 s"

text \<open>\<open>[1-9][0-9]{0,19}\<close>\<close>

definition ID :: "string \<Rightarrow> bool" where
  "ID s \<longleftrightarrow> 1 \<le> length s \<and> length s \<le> 20 \<and> list_all is_digit s \<and> hd s \<noteq> CHR ''0''"

section \<open>Records\<close>

definition parse :: "string \<Rightarrow> int \<Rightarrow> pyval res" where
  "parse raw limit =
     req (0 < len raw \<and> len raw \<le> limit) ''IDENTITY_JSON_SIZE'' (
     case json_loads_bytes (strict_hooks (Refused ''IDENTITY_JSON_DUPLICATE'') (Refused ''IDENTITY_JSON_NONFINITE'')) raw of
       Inl e \<Rightarrow> Inl (if e = ValueError then Refused ''IDENTITY_JSON_MALFORMED'' else e)
     | Inr v \<Rightarrow> req (is_dict v) ''IDENTITY_JSON_OBJECT'' (Inr v))"

definition encoded :: "pyval \<Rightarrow> string res" where
  "encoded v = record_text v"

definition sha :: "pyval \<Rightarrow> pyval res" where
  "sha v = req (str_and SHA v) ''IDENTITY_FULL_SHA'' (Inr v)"

definition mapping :: "pyval \<Rightarrow> pyval res" where
  "mapping v = req (is_dict v) ''IDENTITY_EVENT_SHAPE'' (Inr v)"

section \<open>Workers\<close>

definition worker_contract :: "pyval \<Rightarrow> worker res" where
  "worker_contract profile =
     req (str_and (\<lambda>p. p \<in> set (map fst PROFILES @ [JVM_PROFILE])) profile) ''IDENTITY_PROFILE'' (
     if profile = PStr JVM_PROFILE then Inr JVM_WORKER
     else andthen (as_str profile) (\<lambda>p. case map_of PROFILES p of Some w \<Rightarrow> Inr w | None \<Rightarrow> Inl KeyError))"

definition HOSTS :: "((string \<times> string) \<times> string) list" where
  "HOSTS = [((''Linux'', ''X64''), ''linux-x64''), ((''Windows'', ''X64''), ''windows-x64''),
     ((''macOS'', ''ARM64''), ''macos-arm64''), ((''macOS'', ''X64''), ''macos-x64'')]"

text \<open>\<open>host in hosts\<close> and \<open>hosts[host]\<close> for a pair of values\<close>

definition host_of :: "((string \<times> string) \<times> string) list \<Rightarrow> pyval \<times> pyval \<Rightarrow> string option res" where
  "host_of table host = (case host of
      (PStr system, PStr arch) \<Rightarrow> Inr (map_of table (system, arch))
    | (a, b) \<Rightarrow> if hashable a \<and> hashable b then Inr None else Inl TypeError)"

definition worker_host :: "pyval \<Rightarrow> pyval \<times> pyval \<Rightarrow> string res" where
  "worker_host profile host =
     andthen (worker_contract profile) (\<lambda>_.
     andthen (host_of HOSTS host) (\<lambda>role.
     check [Inr (role \<noteq> None), Inr (profile \<noteq> PStr ''full'' \<or> fst host = PStr ''macOS''),
            (if profile \<noteq> PStr JVM_PROFILE then Inr True else andthen (host_of JVM_HOSTS host) (\<lambda>r. Inr (r \<noteq> None)))]
       ''IDENTITY_HOST_LABELS'' (Inr (the role))))"

section \<open>The JVM reader\<close>

definition RUN_KEYS :: "string list" where "RUN_KEYS = [''runId'', ''runAttempt'']"

definition JVM_KEYS :: "string list" where
  "JVM_KEYS = [''schema'', ''scope'', ''profile'', ''suites'', ''source'', ''github'', ''policy'', ''cacheCohort'']"

definition GITHUB_KEYS :: "string list" where
  "GITHUB_KEYS = [''repository'', ''event'', ''ref'', ''workflow'', ''workflowSha'', ''job'', ''runId'', ''runAttempt'',
     ''eventSha256'', ''eventBinding'', ''runnerOS'', ''runnerArch'']"

definition POLICY_KEYS :: "string list" where
  "POLICY_KEYS = [''commit'', ''blob'', ''path'', ''sha256'', ''fingerprint'', ''keySha256'', ''expiresAt'', ''retentionDays'']"

definition EVENTS :: "string list" where
  "EVENTS = [''push'', ''pull_request'', ''schedule'', ''workflow_dispatch'']"

text \<open>\<open>[0-9A-F]{40}\<close>, \<open>[A-Za-z0-9_.-]+/[A-Za-z0-9_.-]+\<close>, \<open>refs/pull/N/merge\<close>, and a reference without control
  characters\<close>

definition fingerprint_text :: "string \<Rightarrow> bool" where
  "fingerprint_text s = shape (replicate 40 (CHR ''X'')) s"

definition repo_char :: "char \<Rightarrow> bool" where
  "repo_char c \<longleftrightarrow> is_alnum c \<or> c \<in> {CHR ''_'', CHR ''.'', CHR ''-''}"

definition repo_name :: "string \<Rightarrow> bool" where
  "repo_name s \<longleftrightarrow> (let parts = split_on (CHR ''/'') s in
     length parts = 2 \<and> list_all (\<lambda>p. p \<noteq> [] \<and> list_all repo_char p) parts)"

definition pull_ref :: "int \<Rightarrow> string" where
  "pull_ref i = ''refs/pull/'' @ show_int i @ ''/merge''"

definition no_control :: "string \<Rightarrow> bool" where
  "no_control s \<longleftrightarrow> \<not> list_ex (\<lambda>c. cc c < 32 \<or> cc c = 127) s"

definition branch_ref :: "string \<Rightarrow> bool" where
  "branch_ref s \<longleftrightarrow> starts ''refs/heads/'' s \<and> s \<noteq> ''refs/heads/audit/complete-2026-09-04''"

definition MAIN_REF :: string where "MAIN_REF = ''refs/heads/main''"

definition WEEKLY :: pyval where "WEEKLY = PStr ''17 4 * * 1''"

text \<open>\<open>a == sha(v[k])\<close>\<close>

definition sha_item_eq :: "pyval res \<Rightarrow> pyval \<Rightarrow> string \<Rightarrow> bool res" where
  "sha_item_eq a v k = eq_res a (andthen (py_item v k) sha)"

definition jvm_binding :: "pyval \<Rightarrow> pyval \<Rightarrow> pyval \<Rightarrow> pyval \<Rightarrow> pyval \<Rightarrow> unit res" where
  "jvm_binding event ref detail policy source =
     (if py_eq event (PStr ''pull_request'') then
        check [Inr (closed_dict detail [''number'', ''base'', ''head'', ''headRepository'']),
               item_is (int_and (\<lambda>i. 0 < i \<and> i \<le> 10 ^ 10)) detail ''number'',
               andthen (int_item detail ''number'') (\<lambda>i. Inr (py_eq ref (PStr (pull_ref i)))),
               sha_item_eq (py_item policy ''commit'') detail ''base'', item_is (str_and repo_name) detail ''headRepository'']
          ''IDENTITY_JVM_PR_BINDING'' (
        andthen (py_item detail ''head'') (\<lambda>h. andthen (sha h) (\<lambda>_. Inr ())))
      else if py_eq event (PStr ''push'') then
        check [Inr (closed_dict detail [''before'']), Inr (py_eq ref (PStr MAIN_REF)),
               eq_res (py_item policy ''commit'') (py_item source ''commit'')] ''IDENTITY_JVM_PUSH_BINDING'' (
        andthen (py_item detail ''before'') (\<lambda>b. andthen (sha b) (\<lambda>_. Inr ())))
      else if py_eq event (PStr ''schedule'') then
        check [Inr (py_eq detail (PDict [(''schedule'', WEEKLY)])), Inr (py_eq ref (PStr MAIN_REF)),
               eq_res (py_item policy ''commit'') (py_item source ''commit'')] ''IDENTITY_JVM_SCHEDULE_BINDING'' (Inr ())
      else
        check [Inr (closed_dict detail [''policyMain'']),
               Inr (str_and (\<lambda>r. 0 < py_len r \<and> int (py_len r) \<le> 256 \<and> branch_ref r \<and> no_control r) ref),
               sha_item_eq (py_item policy ''commit'') detail ''policyMain''] ''IDENTITY_JVM_MANUAL_BINDING'' (Inr ()))"

definition jvm_github :: "pyval \<Rightarrow> pyval \<Rightarrow> unit res" where
  "jvm_github github source =
     check [Inr (closed_dict github GITHUB_KEYS), item_eq github ''repository'' (PStr REPOSITORY),
            andthen (py_item github ''workflow'') (\<lambda>w. item_is (\<lambda>j. py_eq w (PStr (fst JVM_WORKER)) \<and> py_eq j (PStr (fst (snd JVM_WORKER)))) github ''job''),
            eq_res (py_item github ''workflowSha'') (py_item source ''commit''),
            item_is (\<lambda>e. py_in e (map PStr EVENTS)) github ''event''] ''IDENTITY_JVM_GITHUB'' (
     then_do (check_each (\<lambda>k. ensure (item_is (str_and ID) github k) ''IDENTITY_RUN'') RUN_KEYS) (
     check [item_is (hexs 64) github ''eventSha256''] ''IDENTITY_JVM_EVENT_DIGEST'' (Inr ())))"

definition jvm_policy :: "pyval \<Rightarrow> unit res" where
  "jvm_policy policy =
     check [Inr (closed_dict policy POLICY_KEYS), item_eq policy ''path'' (PStr POLICY_PATH),
            item_is is_int policy ''retentionDays'', item_eq policy ''retentionDays'' (PInt 14),
            item_is (int_and (\<lambda>i. 0 < i)) policy ''expiresAt'', item_is (str_and fingerprint_text) policy ''fingerprint'']
       ''IDENTITY_JVM_ORDINARY_ORIGIN'' (
     then_do (check_each (\<lambda>k. andthen (py_item policy k) (\<lambda>v. andthen (sha v) (\<lambda>_. Inr ()))) [''commit'', ''blob''])
     (check_each (\<lambda>k. ensure (item_is (hexs 64) policy k) ''IDENTITY_JVM_POLICY_DIGEST'') [''sha256'', ''keySha256'']))"

definition ORDINARY_SCOPE :: string where
  "ORDINARY_SCOPE = ''ORDINARY_HOSTED_TEST_CUSTODY_IDENTITY''"

definition jvm_library_cohort :: "string \<Rightarrow> (string \<times> string) option res" where
  "jvm_library_cohort raw =
     andthen (parse raw EVENT_LIMIT) (\<lambda>value.
     andthen (get_eq value ''profile'' (PStr JVM_PROFILE)) (\<lambda>jvm.
     if \<not> jvm \<and> \<not> has_key ''cacheCohort'' value then Inr None
     else
     check [Inr (closed_dict value JVM_KEYS), item_is is_int value ''schema'', item_eq value ''schema'' (PInt 1),
            item_eq value ''scope'' (PStr ORDINARY_SCOPE), item_eq value ''profile'' (PStr JVM_PROFILE),
            item_eq value ''suites'' (strs (snd (snd JVM_WORKER))),
            andthen (encoded value) (\<lambda>r. Inr (raw = r))] ''IDENTITY_JVM_RECORD'' (
     andthen (each (\<lambda>k. andthen (py_item value k) mapping) [''github'', ''source'', ''policy'']) (\<lambda>parts.
     let github = parts ! 0; source = parts ! 1; policy = parts ! 2 in
     check [Inr (closed_dict source [''commit'', ''tree''])] ''IDENTITY_JVM_SOURCE'' (
     then_do (check_each (\<lambda>v. andthen (sha v) (\<lambda>_. Inr ())) (map snd (items source))) (
     then_do (jvm_github github source) (
     then_do (jvm_policy policy) (
     andthen (andthen (py_item github ''eventBinding'') mapping) (\<lambda>detail.
     andthen (py_item github ''event'') (\<lambda>event.
     andthen (py_item github ''ref'') (\<lambda>ref.
     then_do (jvm_binding event ref detail policy source) (
     andthen (py_item github ''runnerOS'') (\<lambda>system.
     andthen (py_item github ''runnerArch'') (\<lambda>arch.
     andthen (worker_host (PStr JVM_PROFILE) (system, arch)) (\<lambda>role.
     check [item_eq value ''cacheCohort'' (PDict [(''profile'', PStr ''desktop''), (''role'', PStr role)])] ''IDENTITY_JVM_BYTE_COHORT'' (
     Inr (Some (''desktop'', role))))))))))))))))))"

section \<open>Git\<close>

record git_view =
  executable :: string
  root :: string
  runner :: "nat \<Rightarrow> string list \<Rightarrow> int \<Rightarrow> string option"
  same_root :: "string \<Rightarrow> bool"

type_synonym 'a gitq = "nat \<Rightarrow> ('a \<times> nat) res"

definition bindg :: "'a gitq \<Rightarrow> ('a \<Rightarrow> 'b gitq) \<Rightarrow> 'b gitq" where
  "bindg m k = (\<lambda>n. andthen (m n) (\<lambda>(x, n'). k x n'))"

definition liftg :: "'a res \<Rightarrow> 'a gitq" where
  "liftg r = (\<lambda>n. andthen r (\<lambda>x. Inr (x, n)))"

definition reqg :: "bool \<Rightarrow> string \<Rightarrow> 'a gitq \<Rightarrow> 'a gitq" where
  "reqg c code k = (\<lambda>n. req c code (k n))"

text \<open>\<open>bytes.strip()\<close> and \<open>str.split()\<close>\<close>

definition byte_space :: "char \<Rightarrow> bool" where
  "byte_space c \<longleftrightarrow> cc c = 32 \<or> 9 \<le> cc c \<and> cc c \<le> 13"

definition strip_bytes :: "string \<Rightarrow> string" where
  "strip_bytes s = strip_right byte_space (strip_left byte_space s)"

fun split_words :: "string \<Rightarrow> string \<Rightarrow> string list" where
  "split_words w [] = (if w = [] then [] else [w])"
| "split_words w (c # s) =
     (if py_space c then (if w = [] then split_words [] s else w # split_words [] s) else split_words (w @ [c]) s)"

definition query :: "git_view \<Rightarrow> string list \<Rightarrow> int \<Rightarrow> string gitq" where
  "query git args limit = (\<lambda>n.
     req (0 < limit \<and> limit \<le> EVENT_LIMIT) ''IDENTITY_GIT_OUTPUT_LIMIT'' (
     case runner git n ([executable git, ''--no-replace-objects'', ''--no-pager'', ''-c'', ''core.fsmonitor=false'', ''-C'', root git] @ args) limit of
       None \<Rightarrow> Inl (Refused ''IDENTITY_GIT_QUERY_FAILED'')
     | Some out \<Rightarrow> req (len out \<le> limit) ''IDENTITY_GIT_QUERY_OUTPUT'' (Inr (out, Suc n))))"

definition sha_text :: "pyval \<Rightarrow> string res" where
  "sha_text v = andthen (sha v) as_str"

definition sha_line :: "string \<Rightarrow> pyval res" where
  "sha_line out = andthen (decode_ascii out) (\<lambda>t. sha (PStr (strip t)))"

definition commit :: "git_view \<Rightarrow> string \<Rightarrow> pyval gitq" where
  "commit git ref = bindg (query git [''rev-parse'', ''--verify'', ref @ ''^{commit}''] 4096) (\<lambda>out. liftg (sha_line out))"

definition tree :: "git_view \<Rightarrow> pyval \<Rightarrow> pyval gitq" where
  "tree git c = bindg (liftg (sha_text c)) (\<lambda>t.
     bindg (query git [''rev-parse'', ''--verify'', t @ ''^{tree}''] 4096) (\<lambda>out. liftg (sha_line out)))"

definition parents :: "git_view \<Rightarrow> pyval \<Rightarrow> pyval list gitq" where
  "parents git c = bindg (liftg (sha_text c)) (\<lambda>t.
     bindg (query git [''show'', ''-s'', ''--format=%P'', t] 4096) (\<lambda>out.
     liftg (andthen (decode_ascii out) (\<lambda>x. each (\<lambda>w. sha (PStr w)) (split_words [] (strip x))))))"

definition message :: "git_view \<Rightarrow> pyval \<Rightarrow> string gitq" where
  "message git c = bindg (liftg (sha_text c)) (\<lambda>t. query git [''show'', ''-s'', ''--format=%B'', t] MESSAGE_LIMIT)"

definition clean :: "git_view \<Rightarrow> bool gitq" where
  "clean git = bindg (query git [''status'', ''--porcelain=v1'', ''--untracked-files=all''] EVENT_LIMIT) (\<lambda>out. liftg (Inr (out = [])))"

definition root_matches :: "git_view \<Rightarrow> bool gitq" where
  "root_matches git = bindg (query git [''rev-parse'', ''--show-toplevel''] 4096) (\<lambda>out.
     liftg (Inr (same_root git (strip_right (\<lambda>c. c = CHR 0x0D \<or> c = CHR 0x0A) out))))"

text \<open>\<open>100644 blob ([0-9a-f]{40})\t<path>\x00\<close>, and \<open>[1-9][0-9]{0,n}\<close>\<close>

definition blob_entry :: "string \<Rightarrow> string \<Rightarrow> string option" where
  "blob_entry file value =
     (let blob = take 40 (drop 12 value) in
      if hexn 40 blob \<and> value = ''100644 blob '' @ blob @ [CHR 0x09] @ file @ [CHR 0x00] then Some blob else None)"

definition size_text :: "nat \<Rightarrow> string \<Rightarrow> bool" where
  "size_text n s \<longleftrightarrow> 1 \<le> length s \<and> length s \<le> n \<and> list_all is_digit s \<and> hd s \<noteq> CHR ''0''"

definition git_blob :: "string \<Rightarrow> string" where
  "git_blob raw = sha1 (''blob '' @ show_nat (length raw) @ [CHR 0x00] @ raw)"

definition git_policy :: "git_view \<Rightarrow> pyval \<Rightarrow> (string \<times> string) gitq" where
  "git_policy git c = bindg (liftg (sha_text c)) (\<lambda>t.
     bindg (query git [''ls-tree'', ''-z'', t, ''--'', POLICY_PATH] 4096) (\<lambda>value.
     reqg (blob_entry POLICY_PATH value \<noteq> None) ''MISSING_TRUSTED_RECIPIENT_POLICY'' (
     let blob = the (blob_entry POLICY_PATH value) in
     bindg (query git [''cat-file'', ''-s'', blob] 4096) (\<lambda>s.
     let size = strip_bytes s in
     reqg (size_text 6 size \<and> int_of_digits size \<le> POLICY_LIMIT) ''RECIPIENT_POLICY_SIZE'' (
     bindg (query git [''cat-file'', ''blob'', blob] POLICY_LIMIT) (\<lambda>raw.
     reqg (len raw = int_of_digits size) ''RECIPIENT_POLICY_CHANGED'' (
     reqg (git_blob raw = blob) ''RECIPIENT_POLICY_BLOB'' (
     liftg (Inr (blob, raw))))))))))"

section \<open>The recipient policy\<close>

definition login_text :: "string \<Rightarrow> bool" where
  "login_text s \<longleftrightarrow> 1 \<le> length s \<and> length s \<le> 39 \<and> is_alnum (hd s) \<and> is_alnum (last s)
     \<and> list_all (\<lambda>c. is_alnum c \<or> c = CHR ''-'') s"

definition RECIPIENT_KEYS :: "string list" where
  "RECIPIENT_KEYS = [''schema'', ''repository'', ''purpose'', ''notBefore'', ''expiresAt'', ''retentionDays'', ''retrievalOwner'', ''recipient'']"

definition armored :: "string \<Rightarrow> bool" where
  "armored key \<longleftrightarrow> starts (''-----BEGIN PGP PUBLIC KEY BLOCK-----'' @ [CHR 0x0A]) key
     \<and> endswith ''-----END PGP PUBLIC KEY BLOCK-----'' (strip_right (\<lambda>c. c = CHR 0x0A) key)
     \<and> \<not> contains ''PRIVATE KEY'' key"

definition recipient_key :: "pyval \<Rightarrow> string res" where
  "recipient_key recipient =
     check [Inr (closed_dict recipient [''publicKey'', ''fingerprint'', ''sha256''])] ''RECIPIENT_POLICY_KEY'' (
     check [item_is is_str recipient ''publicKey'', item_is (str_and fingerprint_text) recipient ''fingerprint'',
            item_is (hexs 64) recipient ''sha256''] ''RECIPIENT_POLICY_KEY'' (
     andthen (str_item recipient ''publicKey'') (\<lambda>text.
     case decode_ascii text of
       Inl _ \<Rightarrow> Inl (Refused ''RECIPIENT_POLICY_KEY'')
     | Inr key \<Rightarrow>
         check [Inr (0 < len key \<and> len key \<le> 65536), item_is (\<lambda>x. py_eq (PStr (sha256 key)) x) recipient ''sha256'', Inr (armored key)]
           ''RECIPIENT_POLICY_KEY'' (Inr key))))"

definition policy :: "string \<Rightarrow> int \<Rightarrow> (pyval \<times> string) res" where
  "policy raw now =
     andthen (parse raw POLICY_LIMIT) (\<lambda>value.
     check [Inr (closed_dict value RECIPIENT_KEYS), item_is is_int value ''schema'', item_eq value ''schema'' (PInt 1),
            item_eq value ''repository'' (PStr REPOSITORY), item_eq value ''purpose'' (PStr ''P2PKIT_TEST_TRANSCRIPTS'')]
       ''RECIPIENT_POLICY_CONTRACT'' (
     check [item_is is_int value ''notBefore'', item_is is_int value ''expiresAt'',
            andthen (int_item value ''notBefore'') (\<lambda>b. andthen (int_item value ''expiresAt'') (\<lambda>e. Inr (0 < b \<and> b \<le> now \<and> now < e)))]
       ''RECIPIENT_POLICY_VALIDITY'' (
     check [item_is is_int value ''retentionDays'', item_eq value ''retentionDays'' (PInt 14)] ''RECIPIENT_POLICY_RETENTION'' (
     check [item_is (str_and login_text) value ''retrievalOwner''] ''RECIPIENT_POLICY_RETRIEVAL_OWNER'' (
     andthen (andthen (py_item value ''recipient'') mapping) (\<lambda>recipient.
     andthen (recipient_key recipient) (\<lambda>key.
     Inr (value, key))))))))"

section \<open>Admission\<close>

record Admission =
  admitted_record :: string
  original_event :: string
  original_policy :: string
  public_key :: string
  fingerprint :: pyval
  key_sha256 :: pyval
  expires_at :: pyval

type_synonym environment = "(string \<times> string) list"

definition getenv :: "environment \<Rightarrow> string \<Rightarrow> pyval" where
  "getenv env k = (case map_of env k of Some s \<Rightarrow> PStr s | None \<Rightarrow> PNone)"

definition hosted_caller :: "environment \<Rightarrow> string \<Rightarrow> bool" where
  "hosted_caller env job \<longleftrightarrow> getenv env ''GITHUB_ACTIONS'' = PStr ''true'' \<and> getenv env ''GITHUB_REPOSITORY'' = PStr REPOSITORY
     \<and> getenv env ''GITHUB_SERVER_URL'' = PStr ''https://github.com'' \<and> getenv env ''GITHUB_API_URL'' = PStr ''https://api.github.com''
     \<and> getenv env ''RUNNER_ENVIRONMENT'' = PStr ''github-hosted'' \<and> getenv env ''GITHUB_JOB'' = PStr job"

text \<open>\<open>git.root_matches() and git.clean() and git.commit("HEAD") == source\<close>\<close>

definition source_intact :: "git_view \<Rightarrow> pyval \<Rightarrow> bool gitq" where
  "source_intact git source = bindg (root_matches git) (\<lambda>r. if \<not> r then liftg (Inr False) else
     bindg (clean git) (\<lambda>c. if \<not> c then liftg (Inr False) else
     bindg (commit git ''HEAD'') (\<lambda>h. liftg (Inr (py_eq h source)))))"

type_synonym event_facts = "pyval \<times> pyval \<times> bool"

definition pull_request_facts :: "pyval \<Rightarrow> string \<Rightarrow> (pyval \<times> pyval \<times> pyval \<times> pyval) res" where
  "pull_request_facts event ref =
     andthen (andthen (get event ''pull_request'') mapping) (\<lambda>pr.
     andthen (get event ''number'') (\<lambda>number.
     check [Inr (int_and (\<lambda>i. 0 < i \<and> i \<le> 10 ^ 10) number), get_is is_int pr ''number'', item_eq pr ''number'' number,
            andthen (as_int number) (\<lambda>i. Inr (ref = pull_ref i)), get_eq pr ''state'' (PStr ''open''),
            get_is (\<lambda>x. py_is x False) pr ''merged'',
            andthen (get event ''action'') (\<lambda>a. in_keys a [''opened'', ''reopened'', ''synchronize''])] ''IDENTITY_PR'' (
     andthen (andthen (get pr ''base'') mapping) (\<lambda>base.
     andthen (andthen (get pr ''head'') mapping) (\<lambda>head.
     check [andthen (andthen (get base ''repo'') mapping) (\<lambda>r. get_eq r ''full_name'' (PStr REPOSITORY)), get_eq base ''ref'' (PStr ''main'')]
       ''IDENTITY_PR_BASE'' (
     andthen (andthen (andthen (get head ''repo'') mapping) (\<lambda>r. get r ''full_name'')) (\<lambda>head_repo.
     check [Inr (str_and repo_name head_repo)] ''IDENTITY_PR_HEAD'' (
     andthen (andthen (get base ''sha'') sha) (\<lambda>base_sha.
     andthen (andthen (get head ''sha'') sha) (\<lambda>head_sha.
     Inr (number, base_sha, head_sha, head_repo)))))))))))"

definition pull_request_event :: "git_view \<Rightarrow> pyval \<Rightarrow> string \<Rightarrow> pyval \<Rightarrow> event_facts gitq" where
  "pull_request_event git event ref source =
     bindg (liftg (pull_request_facts event ref)) (\<lambda>(number, base_sha, head_sha, head_repo).
     bindg (parents git source) (\<lambda>ps.
     reqg (py_eqs ps [base_sha, head_sha]) ''IDENTITY_PR_PARENTS'' (
     liftg (Inr (base_sha, PDict [(''number'', number), (''base'', base_sha), (''head'', head_sha), (''headRepository'', head_repo)], False)))))"

definition push_event :: "git_view \<Rightarrow> pyval \<Rightarrow> pyval \<Rightarrow> string \<Rightarrow> pyval \<Rightarrow> event_facts gitq" where
  "push_event git profile event ref source =
     bindg (liftg (
       check [get_eq event ''ref'' (PStr ref), get_eq event ''ref'' (PStr MAIN_REF), get_eq event ''after'' source,
              get_is (\<lambda>x. py_is x False) event ''deleted''] ''IDENTITY_PUSH'' (
       andthen (get event ''before'') sha))) (\<lambda>before.
     if profile = PStr ''desktop'' then
       bindg (message git source) (\<lambda>msg.
       bindg (parents git source) (\<lambda>ps.
       reqg (len msg \<le> MESSAGE_LIMIT) ''IDENTITY_COMMIT_MESSAGE'' (
       liftg (Inr (source, PDict [(''before'', before), (''releaseMessageSha256'', PStr (sha256 msg)), (''releaseParents'', PList ps)],
         length ps = 2 \<and> contains RELEASE_MARKER msg)))))
     else liftg (Inr (source, PDict [(''before'', before)], False)))"

definition schedule_event :: "pyval \<Rightarrow> pyval \<Rightarrow> string \<Rightarrow> pyval \<Rightarrow> event_facts res" where
  "schedule_event profile event ref source =
     check [Inr (profile = PStr ''full'' \<or> profile = PStr JVM_PROFILE), Inr (ref = MAIN_REF), get_eq event ''schedule'' WEEKLY]
       ''IDENTITY_SCHEDULE'' (
     andthen (py_item event ''schedule'') (\<lambda>s. Inr (source, PDict [(''schedule'', s)], False)))"

definition manual_event :: "git_view \<Rightarrow> pyval \<Rightarrow> string \<Rightarrow> event_facts gitq" where
  "manual_event git event ref =
     bindg (liftg (
       check [Inr (branch_ref ref), get_is (\<lambda>x. py_in x [PStr ref, PStr (drop 11 ref)]) event ''ref''] ''IDENTITY_MANUAL_REF'' (
       check [get_is (\<lambda>x. x = PNone \<or> py_eq x (PDict [])) event ''inputs''] ''IDENTITY_MANUAL_INPUTS'' (Inr ())))) (\<lambda>_.
     bindg (commit git ''refs/remotes/origin/main'') (\<lambda>main.
     liftg (Inr (main, PDict [(''policyMain'', main)], False))))"

definition event_facts :: "git_view \<Rightarrow> pyval \<Rightarrow> string \<Rightarrow> pyval \<Rightarrow> string \<Rightarrow> pyval \<Rightarrow> event_facts gitq" where
  "event_facts git profile event_name event ref source =
     (if event_name = ''pull_request'' then pull_request_event git event ref source
      else if event_name = ''push'' then push_event git profile event ref source
      else if event_name = ''schedule'' then liftg (schedule_event profile event ref source)
      else manual_event git event ref)"

definition caller_checks :: "pyval \<Rightarrow> environment \<Rightarrow> (worker \<times> string \<times> string \<times> string \<times> pyval) res" where
  "caller_checks profile env =
     andthen (worker_contract profile) (\<lambda>(workflow, job, scopes).
     req (hosted_caller env job) ''IDENTITY_HOSTED_CALLER'' (
     andthen (worker_host profile (getenv env ''RUNNER_OS'', getenv env ''RUNNER_ARCH'')) (\<lambda>role.
     then_do (check_each (\<lambda>k. ensure (Inr (str_and ID (getenv env k))) ''IDENTITY_RUN'') [''GITHUB_RUN_ID'', ''GITHUB_RUN_ATTEMPT'']) (
     req (str_and (\<lambda>e. e \<in> set EVENTS) (getenv env ''GITHUB_EVENT_NAME'')) ''IDENTITY_EVENT'' (
     req (str_and (\<lambda>r. 0 < py_len r \<and> int (py_len r) \<le> 256 \<and> no_control r) (getenv env ''GITHUB_REF'')) ''IDENTITY_REF'' (
     andthen (as_str (getenv env ''GITHUB_EVENT_NAME'')) (\<lambda>event_name.
     andthen (as_str (getenv env ''GITHUB_REF'')) (\<lambda>ref.
     andthen (sha (getenv env ''GITHUB_SHA'')) (\<lambda>source.
     req (py_eq (getenv env ''GITHUB_WORKFLOW_SHA'') source
          \<and> getenv env ''GITHUB_WORKFLOW_REF'' = PStr (REPOSITORY @ ''/'' @ workflow @ ''@'' @ ref)) ''IDENTITY_WORKFLOW'' (
     Inr ((workflow, job, scopes), role, event_name, ref, source)))))))))))"

definition policy_binding :: "pyval \<Rightarrow> string \<Rightarrow> string \<Rightarrow> pyval \<Rightarrow> pyval res" where
  "policy_binding policy_commit blob policy_raw pol =
     andthen (path pol [''recipient'', ''fingerprint'']) (\<lambda>f.
     andthen (path pol [''recipient'', ''sha256'']) (\<lambda>k.
     andthen (py_item pol ''expiresAt'') (\<lambda>e.
     Inr (PDict [(''commit'', policy_commit), (''blob'', PStr blob), (''path'', PStr POLICY_PATH), (''sha256'', PStr (sha256 policy_raw)),
       (''fingerprint'', f), (''keySha256'', k), (''expiresAt'', e), (''retentionDays'', PInt 14)]))))"

definition github_binding :: "environment \<Rightarrow> worker \<Rightarrow> string \<Rightarrow> string \<Rightarrow> pyval \<Rightarrow> string \<Rightarrow> pyval \<Rightarrow> pyval" where
  "github_binding env w event_name ref source event_raw detail =
     PDict [(''repository'', PStr REPOSITORY), (''event'', PStr event_name), (''ref'', PStr ref), (''workflow'', PStr (fst w)),
       (''workflowSha'', source), (''job'', PStr (fst (snd w))), (''runId'', getenv env ''GITHUB_RUN_ID''),
       (''runAttempt'', getenv env ''GITHUB_RUN_ATTEMPT''), (''eventSha256'', PStr (sha256 event_raw)), (''eventBinding'', detail),
       (''runnerOS'', getenv env ''RUNNER_OS''), (''runnerArch'', getenv env ''RUNNER_ARCH'')]"

definition profile_extra :: "pyval \<Rightarrow> string \<Rightarrow> bool \<Rightarrow> (string \<times> pyval) list" where
  "profile_extra profile role sample_required =
     (if profile = PStr ''desktop'' then [(''samplePackagingRequired'', PBool sample_required)] else [])
     @ (if profile = PStr JVM_PROFILE then [(''cacheCohort'', PDict [(''profile'', PStr ''desktop''), (''role'', PStr role)])] else [])"

definition admission_of :: "pyval \<Rightarrow> string \<Rightarrow> string \<Rightarrow> string \<Rightarrow> pyval \<Rightarrow> Admission res" where
  "admission_of record event_raw policy_raw key pol =
     andthen (encoded record) (\<lambda>raw.
     andthen (path pol [''recipient'', ''fingerprint'']) (\<lambda>f.
     andthen (path pol [''recipient'', ''sha256'']) (\<lambda>k.
     andthen (py_item pol ''expiresAt'') (\<lambda>e.
     Inr \<lparr>admitted_record = raw, original_event = event_raw, original_policy = policy_raw, public_key = key,
          fingerprint = f, key_sha256 = k, expires_at = e\<rparr>))))"

definition admit :: "pyval \<Rightarrow> environment \<Rightarrow> string \<Rightarrow> git_view \<Rightarrow> int \<Rightarrow> Admission gitq" where
  "admit profile env event_raw git now =
     bindg (liftg (caller_checks profile env)) (\<lambda>(w, role, event_name, ref, source).
     bindg (source_intact git source) (\<lambda>ok. reqg ok ''IDENTITY_SOURCE'' (
     bindg (tree git source) (\<lambda>t.
     bindg (liftg (parse event_raw EVENT_LIMIT)) (\<lambda>event.
     bindg (liftg (andthen (andthen (get event ''repository'') mapping) (\<lambda>repo.
       check [get_eq repo ''full_name'' (PStr REPOSITORY), get_eq repo ''default_branch'' (PStr ''main'')] ''IDENTITY_REPOSITORY'' (Inr ())))) (\<lambda>_.
     bindg (event_facts git profile event_name event ref source) (\<lambda>(policy_commit, detail, sample_required).
     bindg (git_policy git policy_commit) (\<lambda>(blob, policy_raw).
     bindg (liftg (policy policy_raw now)) (\<lambda>(pol, key).
     bindg (source_intact git source) (\<lambda>again. reqg again ''IDENTITY_SOURCE_CHANGED'' (
     bindg (tree git source) (\<lambda>t'. reqg (py_eq t' t) ''IDENTITY_SOURCE_CHANGED'' (
     liftg (
       andthen (policy_binding policy_commit blob policy_raw pol) (\<lambda>pb.
       admission_of (PDict ([(''schema'', PInt 1), (''scope'', PStr ORDINARY_SCOPE), (''profile'', profile), (''suites'', strs (snd (snd w))),
           (''source'', PDict [(''commit'', source), (''tree'', t)]),
           (''github'', github_binding env w event_name ref source event_raw detail), (''policy'', pb)]
         @ profile_extra profile role sample_required)) event_raw policy_raw key pol)))))))))))))))"

definition sample_packaging_required :: "Admission \<Rightarrow> bool res" where
  "sample_packaging_required admitted =
     andthen (parse (admitted_record admitted) EVENT_LIMIT) (\<lambda>record.
     andthen (get record ''profile'') (\<lambda>p.
     andthen (worker_contract p) (\<lambda>_.
     andthen (py_item record ''profile'') (\<lambda>profile.
     if \<not> py_eq profile (PStr ''desktop'') then
       req (\<not> has_key ''samplePackagingRequired'' record) ''IDENTITY_SAMPLE_INTENT'' (
       if py_eq profile (PStr JVM_PROFILE) then
         andthen (jvm_library_cohort (admitted_record admitted)) (\<lambda>c. req (c \<noteq> None) ''IDENTITY_JVM_BYTE_COHORT'' (Inr False))
       else Inr False)
     else
       andthen (get record ''samplePackagingRequired'') (\<lambda>required.
       req (is_bool required) ''IDENTITY_SAMPLE_INTENT'' (Inr (truth required)))))))"

section \<open>Sequences of queries\<close>

lemma bindg_ok [ok_iff]: "bindg m k n = Inr r \<longleftrightarrow> (\<exists>x n1. m n = Inr (x, n1) \<and> k x n1 = Inr r)"
  by (auto simp: bindg_def andthen_ok)

lemma liftg_ok [ok_iff]: "liftg r n = Inr (x, m) \<longleftrightarrow> r = Inr x \<and> m = n"
  by (auto simp: liftg_def andthen_ok)

lemma reqg_ok [ok_iff]: "reqg c code k n = Inr r \<longleftrightarrow> c \<and> k n = Inr r"
  by (simp add: reqg_def req_ok)

lemma sha_ok [ok_iff]: "sha v = Inr w \<longleftrightarrow> (\<exists>s. v = PStr s \<and> hexn 40 s \<and> w = v)"
  by (auto simp: sha_def ok_iff str_and_iff SHA_def)

lemma mapping_ok [ok_iff]: "mapping v = Inr w \<longleftrightarrow> is_dict v \<and> w = v"
  by (auto simp: mapping_def ok_iff)

text \<open>Everything an admission went through, in order.\<close>

definition admitted_value ::
  "pyval \<Rightarrow> environment \<Rightarrow> string \<Rightarrow> worker \<Rightarrow> string \<Rightarrow> string \<Rightarrow> string \<Rightarrow> pyval \<Rightarrow> pyval \<Rightarrow> pyval \<Rightarrow> bool \<Rightarrow> pyval \<Rightarrow> pyval" where
  "admitted_value profile env event_raw w role event_name ref source t detail sample pb =
     PDict ([(''schema'', PInt 1), (''scope'', PStr ORDINARY_SCOPE), (''profile'', profile), (''suites'', strs (snd (snd w))),
       (''source'', PDict [(''commit'', source), (''tree'', t)]),
       (''github'', github_binding env w event_name ref source event_raw detail), (''policy'', pb)]
     @ profile_extra profile role sample)"

lemma admit_ok:
  assumes "admit profile env event_raw git now n = Inr (a, m)"
  obtains w role event_name ref source t event pc detail sample blob pol key pb n1 n2 n3 n4 n5 where
    "caller_checks profile env = Inr (w, role, event_name, ref, source)"
    "tree git source n1 = Inr (t, n2)" "parse event_raw EVENT_LIMIT = Inr event"
    "event_facts git profile event_name event ref source n2 = Inr ((pc, detail, sample), n3)"
    "git_policy git pc n3 = Inr ((blob, original_policy a), n4)" "policy (original_policy a) now = Inr (pol, key)"
    "source_intact git source n4 = Inr (True, n5)"
    "policy_binding pc blob (original_policy a) pol = Inr pb" "original_event a = event_raw"
    "encoded (admitted_value profile env event_raw w role event_name ref source t detail sample pb) = Inr (admitted_record a)"
proof -
  obtain w role event_name ref source t event pc detail sample blob praw pol key pb n1 n2 n3 n4 n5 where
    "caller_checks profile env = Inr (w, role, event_name, ref, source)"
    "tree git source n1 = Inr (t, n2)" "parse event_raw EVENT_LIMIT = Inr event"
    "event_facts git profile event_name event ref source n2 = Inr ((pc, detail, sample), n3)"
    "git_policy git pc n3 = Inr ((blob, praw), n4)" "policy praw now = Inr (pol, key)"
    "source_intact git source n4 = Inr (True, n5)" "policy_binding pc blob praw pol = Inr pb"
    and a: "admission_of (admitted_value profile env event_raw w role event_name ref source t detail sample pb) event_raw praw key pol = Inr a"
    using assms unfolding admit_def bindg_ok liftg_ok reqg_ok andthen_ok admitted_value_def
    by (elim exE conjE) (auto simp: ok_iff simp del: allof.simps path.simps)
  moreover have "original_event a = event_raw" "original_policy a = praw"
    "encoded (admitted_value profile env event_raw w role event_name ref source t detail sample pb) = Inr (admitted_record a)"
    using a by (auto simp: admission_of_def andthen_ok)
  ultimately show ?thesis using that by metis
qed

section \<open>What the checks establish\<close>

lemma worker_contract_ok:
  assumes "worker_contract profile = Inr w"
  obtains p where "profile = PStr p" "p \<in> {''desktop'', ''full'', ''jvm-library''}" "storable (strs (snd (snd w)))" "plain_str (fst w)" "plain_str (fst (snd w))"
    "p = ''jvm-library'' \<Longrightarrow> w = JVM_WORKER"
proof -
  have d: "storable (strs [''cli''])" "plain_str ''.github/workflows/desktop-cross-host.yml''" "plain_str ''verify''"
    and f: "storable (strs [''cli'', ''diagnostics''])" "plain_str ''.github/workflows/ci.yml''" "plain_str ''complete-gate''"
    and j: "storable (strs [''jvm-library''])" "plain_str ''jvm-library-checks''" by code_simp+
  show ?thesis using assms that d f j
    by (fastforce simp: worker_contract_def ok_iff str_and_iff PROFILES_def JVM_PROFILE_def JVM_WORKER_def split: option.splits if_splits)
qed

lemma host_of_ok: "host_of table (a, b) = Inr (Some r) \<Longrightarrow> \<exists>x y. a = PStr x \<and> b = PStr y \<and> ((x, y), r) \<in> set table"
  by (auto simp: host_of_def split: pyval.splits if_splits dest: map_of_SomeD)

lemma worker_host_ok:
  assumes "worker_host profile (a, b) = Inr role"
  obtains x y where "a = PStr x" "b = PStr y" "((x, y), role) \<in> set HOSTS"
    "profile = PStr JVM_PROFILE \<Longrightarrow> host_of JVM_HOSTS (a, b) = Inr (Some role)"
proof -
  have h: "host_of HOSTS (a, b) = Inr (Some role)"
    and j: "profile = PStr JVM_PROFILE \<Longrightarrow> \<exists>r. host_of JVM_HOSTS (a, b) = Inr (Some r)"
    using assms by (auto simp: worker_host_def ok_iff simp del: allof.simps)
  obtain x y where xy: "a = PStr x" "b = PStr y" "((x, y), role) \<in> set HOSTS" using host_of_ok [OF h] by blast
  have "host_of JVM_HOSTS (a, b) = Inr (Some role)" if "profile = PStr JVM_PROFILE"
    using j [OF that] h by (auto simp: xy host_of_def HOSTS_def JVM_HOSTS_def split: if_splits)
  then show ?thesis using that xy by blast
qed

lemma ID_plain: "ID s \<Longrightarrow> plain_str s"
  by (rule ascii_plain) (auto simp: ID_def list_all_iff digit_ascii)

lemma hosts_plain: "((x, y), role) \<in> set HOSTS \<Longrightarrow> plain_str x \<and> plain_str y \<and> plain_str role"
proof -
  have "list_all (\<lambda>((x, y), r). plain_str x \<and> plain_str y \<and> plain_str r) HOSTS" by code_simp
  then show "((x, y), role) \<in> set HOSTS \<Longrightarrow> ?thesis" by (auto simp: list_all_iff)
qed

lemma caller_checks_ok:
  assumes "caller_checks profile env = Inr (w, role, event_name, ref, source)"
  obtains p run_id attempt system arch s where "profile = PStr p" "p \<in> {''desktop'', ''full'', ''jvm-library''}" "worker_contract profile = Inr w"
    "getenv env ''GITHUB_RUN_ID'' = PStr run_id" "ID run_id" "getenv env ''GITHUB_RUN_ATTEMPT'' = PStr attempt" "ID attempt"
    "getenv env ''RUNNER_OS'' = PStr system" "getenv env ''RUNNER_ARCH'' = PStr arch" "((system, arch), role) \<in> set HOSTS"
    "worker_host profile (PStr system, PStr arch) = Inr role"
    "getenv env ''GITHUB_EVENT_NAME'' = PStr event_name" "event_name \<in> set EVENTS" "getenv env ''GITHUB_REF'' = PStr ref"
    "0 < py_len ref" "int (py_len ref) \<le> 256" "no_control ref"
    "source = PStr s" "hexn 40 s" "getenv env ''GITHUB_SHA'' = PStr s"
proof -
  have c: "worker_contract profile = Inr w" "worker_host profile (getenv env ''RUNNER_OS'', getenv env ''RUNNER_ARCH'') = Inr role"
    "str_and ID (getenv env ''GITHUB_RUN_ID'')" "str_and ID (getenv env ''GITHUB_RUN_ATTEMPT'')"
    "getenv env ''GITHUB_EVENT_NAME'' = PStr event_name" "event_name \<in> set EVENTS" "getenv env ''GITHUB_REF'' = PStr ref"
    "0 < py_len ref" "int (py_len ref) \<le> 256" "no_control ref" "sha (getenv env ''GITHUB_SHA'') = Inr source"
    using assms unfolding caller_checks_def andthen_ok req_ok then_do_ok by (auto simp: ok_iff str_and_iff)
  obtain p where p: "profile = PStr p" "p \<in> {''desktop'', ''full'', ''jvm-library''}" using worker_contract_ok [OF c(1)] by metis
  obtain system arch where h: "getenv env ''RUNNER_OS'' = PStr system" "getenv env ''RUNNER_ARCH'' = PStr arch" "((system, arch), role) \<in> set HOSTS"
    using worker_host_ok [OF c(2)] by metis
  obtain run_id attempt where r: "getenv env ''GITHUB_RUN_ID'' = PStr run_id" "ID run_id" "getenv env ''GITHUB_RUN_ATTEMPT'' = PStr attempt" "ID attempt"
    using c(3,4) by (auto simp: str_and_iff)
  obtain s where s: "source = PStr s" "hexn 40 s" "getenv env ''GITHUB_SHA'' = PStr s" using c(11) by (auto simp: sha_ok)
  show ?thesis using that [OF p c(1) r h _ c(5-10) s] c(2) h by simp
qed

lemma sha_line_ok: "sha_line out = Inr v \<Longrightarrow> \<exists>s. v = PStr s \<and> hexn 40 s"
  by (auto simp: sha_line_def ok_iff)

lemma commit_ok: "commit git r n = Inr (v, m) \<Longrightarrow> \<exists>s. v = PStr s \<and> hexn 40 s"
  by (auto simp: commit_def ok_iff dest: sha_line_ok)

lemma tree_ok: "tree git c n = Inr (v, m) \<Longrightarrow> \<exists>s. v = PStr s \<and> hexn 40 s"
  by (auto simp: tree_def ok_iff dest: sha_line_ok)

lemma parents_ok: "parents git c n = Inr (vs, m) \<Longrightarrow> list_all (\<lambda>v. \<exists>s. v = PStr s \<and> hexn 40 s) vs"
  by (auto simp: parents_def ok_iff list_all2_conv_all_nth list_all_length)

lemma git_policy_ok: "git_policy git c n = Inr ((blob, raw), m) \<Longrightarrow> hexn 40 blob \<and> git_blob raw = blob"
  by (auto simp: git_policy_def ok_iff Let_def blob_entry_def split: if_splits)

lemma fingerprint_plain: "fingerprint_text s \<Longrightarrow> plain_str s"
  by (rule ascii_plain, rule shape_ascii, simp add: fingerprint_text_def) (simp add: list_all_iff, code_simp)

lemma policy_ok:
  assumes "policy raw now = Inr (pol, key)"
  obtains f k e where "path pol [''recipient'', ''fingerprint''] = Inr (PStr f)" "fingerprint_text f"
    "path pol [''recipient'', ''sha256''] = Inr (PStr k)" "hexn 64 k" "py_item pol ''expiresAt'' = Inr (PInt e)" "0 < e" "now < e"
proof -
  have "\<exists>f k e. path pol [''recipient'', ''fingerprint''] = Inr (PStr f) \<and> fingerprint_text f
    \<and> path pol [''recipient'', ''sha256''] = Inr (PStr k) \<and> hexn 64 k \<and> py_item pol ''expiresAt'' = Inr (PInt e) \<and> 0 < e \<and> now < e"
    using assms unfolding policy_def recipient_key_def
    by (auto simp: ok_iff str_and_iff hexs_def type_iff int_item_def as_int_def simp del: allof.simps split: sum.splits)
  then show ?thesis using that by blast
qed

text \<open>The facts an event contributes: a policy commit, a binding, and the packaging decision.\<close>

lemma repo_plain: "repo_name s \<Longrightarrow> plain_str s"
proof -
  have j: "x \<in> set s \<Longrightarrow> x \<noteq> c \<Longrightarrow> \<exists>p \<in> set (split_on c s). x \<in> set p" for x c and s :: string
  proof (induction s)
    case (Cons a s)
    then show ?case by (cases "split_on c s") auto
  qed simp
  assume r: "repo_name s"
  have "cc c < 128" if c: "c \<in> set s" for c
  proof (cases "c = CHR ''/''")
    case True
    then show ?thesis by (simp add: cc_def)
  next
    case False
    then obtain p where "p \<in> set (split_on (CHR ''/'') s)" "c \<in> set p" using j [OF c] by blast
    then have "repo_char c" using r by (auto simp: repo_name_def Let_def list_all_iff)
    then show ?thesis by (auto simp: repo_char_def alnum_ascii) (simp_all add: cc_def)
  qed
  then show ?thesis by (intro ascii_plain) (simp add: list_all_iff)
qed

lemma py_eqs_strs: "py_eqs ps (map PStr xs) \<longleftrightarrow> ps = map PStr xs"
proof (induction ps arbitrary: xs)
  case (Cons p ps)
  then show ?case by (cases xs) auto
qed auto

lemma pull_request_facts_ok:
  assumes "pull_request_facts event ref = Inr (number, base_sha, head_sha, head_repo)"
  obtains pr base i b hd repo where "get event ''pull_request'' = Inr pr" "get pr ''base'' = Inr base" "get base ''ref'' = Inr (PStr ''main'')"
    "get base ''sha'' = Inr (PStr b)" "hexn 40 b" "hexn 40 hd" "repo_name repo" "0 < i" "i \<le> 10 ^ 10" "ref = pull_ref i"
    "number = PInt i" "base_sha = PStr b" "head_sha = PStr hd" "head_repo = PStr repo"
proof -
  obtain pr base head where p: "get event ''pull_request'' = Inr pr" "get pr ''base'' = Inr base" "get base ''ref'' = Inr (PStr ''main'')"
    "get base ''sha'' = Inr base_sha" "sha base_sha = Inr base_sha" "sha head_sha = Inr head_sha" "str_and repo_name head_repo"
    "int_and (\<lambda>i. 0 < i \<and> i \<le> 10 ^ 10) number" "andthen (as_int number) (\<lambda>i. Inr (ref = pull_ref i)) = Inr True"
    using assms unfolding pull_request_facts_def andthen_ok check_ok list.pred_inject
    by (elim exE conjE) (simp add: sha_ok mapping_ok get_eq_ok, blast)
  then show ?thesis using that by (auto simp: sha_ok str_and_iff int_and_iff as_int_def)
qed

lemma pull_request_ok:
  assumes "pull_request_event git event ref source n = Inr ((pc, detail, sample), m)"
  obtains pr base i b hd repo where "get event ''pull_request'' = Inr pr" "get pr ''base'' = Inr base" "get base ''ref'' = Inr (PStr ''main'')"
    "get base ''sha'' = Inr (PStr b)" "hexn 40 b" "hexn 40 hd" "repo_name repo" "0 < i" "i \<le> 10 ^ 10" "ref = pull_ref i"
    "parents git source n = Inr ([PStr b, PStr hd], m)" "pc = PStr b" "\<not> sample"
    "detail = PDict [(''number'', PInt i), (''base'', PStr b), (''head'', PStr hd), (''headRepository'', PStr repo)]"
proof -
  obtain number base_sha head_sha head_repo ps where f: "pull_request_facts event ref = Inr (number, base_sha, head_sha, head_repo)"
    "parents git source n = Inr (ps, m)" "py_eqs ps [base_sha, head_sha]" "pc = base_sha" "\<not> sample"
    "detail = PDict [(''number'', number), (''base'', base_sha), (''head'', head_sha), (''headRepository'', head_repo)]"
    using assms by (auto simp: pull_request_event_def bindg_ok liftg_ok reqg_ok)
  obtain pr base i b hd repo where p: "get event ''pull_request'' = Inr pr" "get pr ''base'' = Inr base" "get base ''ref'' = Inr (PStr ''main'')"
    "get base ''sha'' = Inr (PStr b)" "hexn 40 b" "hexn 40 hd" "repo_name repo" "0 < i" "i \<le> 10 ^ 10" "ref = pull_ref i"
    "number = PInt i" "base_sha = PStr b" "head_sha = PStr hd" "head_repo = PStr repo"
    using pull_request_facts_ok [OF f(1)] .
  have "ps = [PStr b, PStr hd]" using f(3) p py_eqs_strs [of ps "[b, hd]"] by simp
  then show ?thesis using that [OF p(1-10)] f p by simp
qed

lemma push_ok:
  assumes "push_event git profile event ref source n = Inr ((pc, detail, sample), m)"
  shows "ref = MAIN_REF \<and> pc = source"
    and "profile \<noteq> PStr ''desktop'' \<Longrightarrow> \<exists>b. hexn 40 b \<and> detail = PDict [(''before'', PStr b)] \<and> \<not> sample"
    and "profile = PStr ''desktop'' \<Longrightarrow> \<exists>b msg ps n2. hexn 40 b \<and> message git source n = Inr (msg, n2) \<and> parents git source n2 = Inr (ps, m)
       \<and> (sample \<longleftrightarrow> length ps = 2 \<and> contains RELEASE_MARKER msg)
       \<and> detail = PDict [(''before'', PStr b), (''releaseMessageSha256'', PStr (sha256 msg)), (''releaseParents'', PList ps)]"
proof -
  let ?rest = "\<lambda>before. if profile = PStr ''desktop'' then
       bindg (message git source) (\<lambda>msg. bindg (parents git source) (\<lambda>ps. reqg (len msg \<le> MESSAGE_LIMIT) ''IDENTITY_COMMIT_MESSAGE'' (
       liftg (Inr (source, PDict [(''before'', before), (''releaseMessageSha256'', PStr (sha256 msg)), (''releaseParents'', PList ps)],
         length ps = 2 \<and> contains RELEASE_MARKER msg)))))
     else liftg (Inr (source, PDict [(''before'', before)], False))"
  obtain before where p: "get event ''ref'' = Inr (PStr ref)" "get event ''ref'' = Inr (PStr MAIN_REF)" "sha before = Inr before"
    "?rest before n = Inr ((pc, detail, sample), m)"
    using assms unfolding push_event_def bindg_ok liftg_ok check_ok andthen_ok list.pred_inject
    by (elim exE conjE) (simp add: sha_ok get_eq_ok, blast)
  obtain b where b: "before = PStr b" "hexn 40 b" using p(3) by (auto simp: sha_ok)
  show "ref = MAIN_REF \<and> pc = source" using p(1,2,4) by (auto simp: bindg_ok liftg_ok reqg_ok split: if_splits)
  show "\<exists>b. hexn 40 b \<and> detail = PDict [(''before'', PStr b)] \<and> \<not> sample" if "profile \<noteq> PStr ''desktop''"
    using p(4) that b by (auto simp: liftg_ok)
  show "\<exists>b msg ps n2. hexn 40 b \<and> message git source n = Inr (msg, n2) \<and> parents git source n2 = Inr (ps, m)
       \<and> (sample \<longleftrightarrow> length ps = 2 \<and> contains RELEASE_MARKER msg)
       \<and> detail = PDict [(''before'', PStr b), (''releaseMessageSha256'', PStr (sha256 msg)), (''releaseParents'', PList ps)]"
    if d: "profile = PStr ''desktop''"
  proof -
    obtain msg ps n2 where "message git source n = Inr (msg, n2)" "parents git source n2 = Inr (ps, m)"
      "PDict [(''before'', before), (''releaseMessageSha256'', PStr (sha256 msg)), (''releaseParents'', PList ps)] = detail"
      "(length ps = 2 \<and> contains RELEASE_MARKER msg) = sample"
      using p(4) d by (auto simp: bindg_ok liftg_ok reqg_ok)
    then show ?thesis using b by blast
  qed
qed

lemma schedule_ok:
  assumes "schedule_event profile event ref source = Inr (pc, detail, sample)"
  shows "ref = MAIN_REF \<and> pc = source \<and> detail = PDict [(''schedule'', WEEKLY)] \<and> \<not> sample"
  using assms unfolding schedule_event_def
  by (auto simp: ok_iff WEEKLY_def simp del: allof.simps)

lemma manual_ok:
  assumes "manual_event git event ref n = Inr ((pc, detail, sample), m)"
  shows "\<exists>s. pc = PStr s \<and> hexn 40 s \<and> branch_ref ref \<and> detail = PDict [(''policyMain'', pc)] \<and> \<not> sample"
  using assms unfolding manual_event_def by (auto simp: ok_iff simp del: allof.simps dest!: commit_ok)

lemma event_facts_ok:
  assumes "event_facts git profile event_name event ref (PStr s) n = Inr ((pc, detail, sample), m)" "hexn 40 s"
  shows "(\<exists>c. pc = PStr c \<and> hexn 40 c) \<and> storable detail \<and> is_dict detail \<and> (sample \<longrightarrow> profile = PStr ''desktop'' \<and> event_name = ''push'')"
proof -
  have k: "plain_str ''number''" "plain_str ''base''" "plain_str ''head''" "plain_str ''headRepository''" "plain_str ''before''"
    "plain_str ''releaseMessageSha256''" "plain_str ''releaseParents''" "plain_str ''schedule''" "plain_str ''policyMain''" "storable WEEKLY"
    by code_simp+
  consider "event_name = ''pull_request''" | "event_name = ''push''" | "event_name = ''schedule''"
    | "event_name \<notin> {''pull_request'', ''push'', ''schedule''}" by blast
  then show ?thesis
  proof cases
    case 1
    then have e: "pull_request_event git event ref (PStr s) n = Inr ((pc, detail, sample), m)" using assms by (simp add: event_facts_def)
    show ?thesis by (rule pull_request_ok [OF e]) (simp add: k hexn_plain repo_plain)
  next
    case 2
    then have e: "push_event git profile event ref (PStr s) n = Inr ((pc, detail, sample), m)" using assms by (simp add: event_facts_def)
    have p: "storables ps" if "parents git c j = Inr (ps, i)" for c j ps i
      using parents_ok [OF that] by (auto simp: storables_iff list_all_iff hexn_plain)
    have "storable detail \<and> is_dict detail \<and> (sample \<longrightarrow> profile = PStr ''desktop'')"
    proof (cases "profile = PStr ''desktop''")
      case True
      then obtain b msg ps n2 where "hexn 40 b" "parents git (PStr s) n2 = Inr (ps, m)"
        "detail = PDict [(''before'', PStr b), (''releaseMessageSha256'', PStr (sha256 msg)), (''releaseParents'', PList ps)]"
        using push_ok(3) [OF e] by blast
      then show ?thesis using True k p by (simp add: hexn_plain)
    next
      case False
      then show ?thesis using push_ok(2) [OF e] k by (auto simp: hexn_plain)
    qed
    then show ?thesis using push_ok(1) [OF e] 2 assms(2) by simp
  next
    case 3
    then have "schedule_event profile event ref (PStr s) = Inr (pc, detail, sample)" using assms by (simp add: event_facts_def liftg_ok)
    then show ?thesis using schedule_ok assms(2) k by fastforce
  next
    case 4
    then have "manual_event git event ref n = Inr ((pc, detail, sample), m)" using assms by (simp add: event_facts_def)
    then show ?thesis using manual_ok k by (fastforce simp: hexn_plain)
  qed
qed

section \<open>Admitted records are read back\<close>

lemma policy_binding_ok:
  assumes "policy_binding pc blob raw pol = Inr pb" "policy raw now = Inr (pol, key)"
  obtains f k e where "pb = PDict [(''commit'', pc), (''blob'', PStr blob), (''path'', PStr POLICY_PATH), (''sha256'', PStr (sha256 raw)),
      (''fingerprint'', PStr f), (''keySha256'', PStr k), (''expiresAt'', PInt e), (''retentionDays'', PInt 14)]"
    "fingerprint_text f" "hexn 64 k" "0 < e"
proof -
  obtain f k e where p: "path pol [''recipient'', ''fingerprint''] = Inr (PStr f)" "fingerprint_text f"
    "path pol [''recipient'', ''sha256''] = Inr (PStr k)" "hexn 64 k" "py_item pol ''expiresAt'' = Inr (PInt e)" "0 < e" "now < e"
    using policy_ok [OF assms(2)] .
  then show ?thesis using that [of f k e] assms(1) by (simp add: policy_binding_def del: path.simps)
qed

text \<open>The keys and constants of a record are plain text.\<close>

lemma record_text_plain:
  "list_all plain_str (GITHUB_KEYS @ POLICY_KEYS @ JVM_KEYS @ EVENTS @ [''tree'', ''samplePackagingRequired'', ''role''])"
  "plain_str REPOSITORY" "plain_str POLICY_PATH" "plain_str ORDINARY_SCOPE" "plain_str ''desktop''" "plain_str ''full''" "plain_str ''jvm-library''"
  by code_simp+

lemmas keys_plain = record_text_plain(1) [unfolded list_all_append GITHUB_KEYS_def POLICY_KEYS_def JVM_KEYS_def EVENTS_def, simplified]

lemma admitted_storable:
  assumes "caller_checks profile env = Inr (w, role, event_name, ref, source)" "plain_str ref"
    and "\<exists>x. t = PStr x \<and> hexn 40 x" "\<exists>x. pc = PStr x \<and> hexn 40 x" "storable detail" "hexn 40 blob"
    and "policy_binding pc blob raw pol = Inr pb" "policy raw now = Inr (pol, key)"
  shows "storable (admitted_value profile env event_raw w role event_name ref source t detail sample pb)"
proof -
  obtain p run_id attempt system arch s where c: "profile = PStr p" "p \<in> {''desktop'', ''full'', ''jvm-library''}" "worker_contract profile = Inr w"
    "getenv env ''GITHUB_RUN_ID'' = PStr run_id" "ID run_id" "getenv env ''GITHUB_RUN_ATTEMPT'' = PStr attempt" "ID attempt"
    "getenv env ''RUNNER_OS'' = PStr system" "getenv env ''RUNNER_ARCH'' = PStr arch" "((system, arch), role) \<in> set HOSTS"
    "worker_host profile (PStr system, PStr arch) = Inr role"
    "getenv env ''GITHUB_EVENT_NAME'' = PStr event_name" "event_name \<in> set EVENTS" "getenv env ''GITHUB_REF'' = PStr ref"
    "0 < py_len ref" "int (py_len ref) \<le> 256" "no_control ref"
    "source = PStr s" "hexn 40 s" "getenv env ''GITHUB_SHA'' = PStr s"
    using caller_checks_ok [OF assms(1)] .
  have w: "storable (strs (snd (snd w)))" "plain_str (fst w)" "plain_str (fst (snd w))" using worker_contract_ok [OF c(3)] by metis+
  have h: "plain_str system" "plain_str arch" "plain_str role" using hosts_plain [OF c(10)] by blast+
  have e: "plain_str event_name" using c(13) keys_plain by (auto simp: EVENTS_def)
  have p: "plain_str p" using c(2) record_text_plain by auto
  obtain f k x where b: "pb = PDict [(''commit'', pc), (''blob'', PStr blob), (''path'', PStr POLICY_PATH), (''sha256'', PStr (sha256 raw)),
      (''fingerprint'', PStr f), (''keySha256'', PStr k), (''expiresAt'', PInt x), (''retentionDays'', PInt 14)]"
    "fingerprint_text f" "hexn 64 k" "0 < x"
    using policy_binding_ok [OF assms(7,8)] .
  have "storable pb" using b assms(4,6) keys_plain record_text_plain by (auto simp: hexn_plain fingerprint_plain)
  moreover have "storable (github_binding env w event_name ref source event_raw detail)"
    using c(4-9,18,19) w h e assms(2,5) keys_plain record_text_plain by (simp add: github_binding_def ID_plain hexn_plain)
  moreover have "storable (PDict [(''commit'', source), (''tree'', t)])" using c(18,19) assms(3) keys_plain by (auto simp: hexn_plain)
  ultimately show ?thesis using w h p c(1) keys_plain record_text_plain
    by (simp add: admitted_value_def profile_extra_def JVM_PROFILE_def)
qed

lemma admit_reads_back:
  assumes "admit profile env event_raw git now n = Inr (a, m)" "getenv env ''GITHUB_REF'' = PStr ref" "plain_str ref"
    "len (admitted_record a) \<le> EVENT_LIMIT"
  obtains w role event_name source t event pc detail sample pb blob pol key n2 n3 where
    "caller_checks profile env = Inr (w, role, event_name, ref, source)" "\<exists>x. t = PStr x \<and> hexn 40 x"
    "event_facts git profile event_name event ref source n2 = Inr ((pc, detail, sample), n3)"
    "policy_binding pc blob (original_policy a) pol = Inr pb" "policy (original_policy a) now = Inr (pol, key)" "hexn 40 blob"
    "storable (admitted_value profile env event_raw w role event_name ref source t detail sample pb)"
    "parse (admitted_record a) EVENT_LIMIT = Inr (canon (admitted_value profile env event_raw w role event_name ref source t detail sample pb))"
    "encoded (admitted_value profile env event_raw w role event_name ref source t detail sample pb) = Inr (admitted_record a)"
proof (rule admit_ok [OF assms(1)])
  fix w role event_name r source t event pc detail sample blob pol key pb n1 n2 n3 n4 n5
  let ?v = "admitted_value profile env event_raw w role event_name r source t detail sample pb"
  assume a: "caller_checks profile env = Inr (w, role, event_name, r, source)" "tree git source n1 = Inr (t, n2)"
    "event_facts git profile event_name event r source n2 = Inr ((pc, detail, sample), n3)"
    "git_policy git pc n3 = Inr ((blob, original_policy a), n4)" "policy (original_policy a) now = Inr (pol, key)"
    "policy_binding pc blob (original_policy a) pol = Inr pb" "encoded ?v = Inr (admitted_record a)"
  have r: "r = ref" using caller_checks_ok [OF a(1)] assms(2) by (metis pyval.inject(4))
  obtain s where s: "source = PStr s" "hexn 40 s" using caller_checks_ok [OF a(1)] by metis
  have f: "\<exists>x. pc = PStr x \<and> hexn 40 x" "storable detail" using event_facts_ok a(3) s by blast+
  have blob: "hexn 40 blob" using git_policy_ok [OF a(4)] by blast
  have st: "storable ?v" using admitted_storable [OF a(1) _ tree_ok [OF a(2)] f blob a(6,5)] r assms(3) by simp
  have "json_loads_bytes h (admitted_record a) = Inr (canon ?v)" if "good_hooks h" for h
    using record_stored [OF st _ that] a(7) by (simp add: encoded_def)
  moreover have "0 < len (admitted_record a)" using a(7) by (auto simp: encoded_def record_text_def andthen_ok len_def)
  moreover have "is_dict ?v" by (simp add: admitted_value_def)
  ultimately have "parse (admitted_record a) EVENT_LIMIT = Inr (canon ?v)"
    using assms(4) by (simp add: parse_def)
  then show thesis using that [OF a(1) [unfolded r] tree_ok [OF a(2)] a(3) [unfolded r] a(6,5) blob] st a(7) r by simp
qed

section \<open>Properties\<close>

text \<open>C22: an admitted pull request takes the recipient policy from its base commit, never from the
  candidate: the base is the event's, on \<open>main\<close>, and Git reported it as the first parent of the
  tested merge commit; the policy bytes are the blob of that commit.\<close>

theorem pull_request_policy_base:
  assumes "admit profile env event_raw git now n = Inr (a, m)" "getenv env ''GITHUB_EVENT_NAME'' = PStr ''pull_request''"
  shows "\<exists>event pr base b hd blob j k l. parse event_raw EVENT_LIMIT = Inr event \<and> get event ''pull_request'' = Inr pr
    \<and> get pr ''base'' = Inr base \<and> get base ''ref'' = Inr (PStr ''main'') \<and> get base ''sha'' = Inr (PStr b)
    \<and> parents git (getenv env ''GITHUB_SHA'') j = Inr ([PStr b, PStr hd], k)
    \<and> git_policy git (PStr b) k = Inr ((blob, original_policy a), l) \<and> git_blob (original_policy a) = blob"
proof (rule admit_ok [OF assms(1)])
  fix w role event_name r source t event pc detail sample blob pol key pb n1 n2 n3 n4 n5
  assume a: "caller_checks profile env = Inr (w, role, event_name, r, source)" "parse event_raw EVENT_LIMIT = Inr event"
    "event_facts git profile event_name event r source n2 = Inr ((pc, detail, sample), n3)"
    "git_policy git pc n3 = Inr ((blob, original_policy a), n4)"
  have "event_name = ''pull_request''" "source = getenv env ''GITHUB_SHA''"
    using caller_checks_ok [OF a(1)] assms(2) by (metis pyval.inject(4))+
  then have e: "pull_request_event git event r (getenv env ''GITHUB_SHA'') n2 = Inr ((pc, detail, sample), n3)"
    using a(3) by (simp add: event_facts_def)
  show ?thesis by (rule pull_request_ok [OF e]) (use a(2,4) git_policy_ok [OF a(4)] in blast)
qed

text \<open>The parts of an admission of the JVM worker pass the checks of its reader.\<close>

lemma canon_item: "storable v \<Longrightarrow> py_item v k = Inr x \<Longrightarrow> py_item (canon v) k = Inr (canon x)"
  by (simp add: py_item_canon)

lemma jvm_policy_pass:
  assumes "storable pb" "pb = PDict [(''commit'', PStr c), (''blob'', PStr b), (''path'', PStr POLICY_PATH), (''sha256'', PStr d),
      (''fingerprint'', PStr f), (''keySha256'', PStr k), (''expiresAt'', PInt e), (''retentionDays'', PInt 14)]"
    "hexn 40 c" "hexn 40 b" "hexn 64 d" "fingerprint_text f" "hexn 64 k" "0 < e"
  shows "jvm_policy (canon pb) = Inr ()"
proof -
  have i: "py_item (canon pb) ''commit'' = Inr (PStr c)" "py_item (canon pb) ''blob'' = Inr (PStr b)" "py_item (canon pb) ''path'' = Inr (PStr POLICY_PATH)"
    "py_item (canon pb) ''sha256'' = Inr (PStr d)" "py_item (canon pb) ''fingerprint'' = Inr (PStr f)" "py_item (canon pb) ''keySha256'' = Inr (PStr k)"
    "py_item (canon pb) ''expiresAt'' = Inr (PInt e)" "py_item (canon pb) ''retentionDays'' = Inr (PInt 14)"
    using canon_item [OF assms(1)] by (simp_all add: assms(2) py_item_PDict)
  have "closed_dict (canon pb) POLICY_KEYS" unfolding closed_dict_canon by (simp add: assms(2) closed_dict_def keys_eq_def POLICY_KEYS_def)
  then show ?thesis using assms(3-8) unfolding jvm_policy_def
    by (subst check_pass) (simp_all add: item_eq_def item_is_def i check_each_def ensure_def sha_def SHA_def hexs_def)
qed

lemma jvm_github_pass:
  assumes "storable g" "g = github_binding env JVM_WORKER event_name ref (PStr s) event_raw detail" "event_name \<in> set EVENTS"
    "getenv env ''GITHUB_RUN_ID'' = PStr run_id" "ID run_id" "getenv env ''GITHUB_RUN_ATTEMPT'' = PStr attempt" "ID attempt"
    "py_item src ''commit'' = Inr (PStr s)"
  shows "jvm_github (canon g) src = Inr ()"
proof -
  have i: "py_item (canon g) ''repository'' = Inr (PStr REPOSITORY)" "py_item (canon g) ''workflow'' = Inr (PStr (fst JVM_WORKER))"
    "py_item (canon g) ''job'' = Inr (PStr (fst (snd JVM_WORKER)))" "py_item (canon g) ''workflowSha'' = Inr (PStr s)"
    "py_item (canon g) ''event'' = Inr (PStr event_name)" "py_item (canon g) ''runId'' = Inr (PStr run_id)"
    "py_item (canon g) ''runAttempt'' = Inr (PStr attempt)" "py_item (canon g) ''eventSha256'' = Inr (PStr (sha256 event_raw))"
    using canon_item [OF assms(1)] assms(4,6) by (simp_all add: assms(2) github_binding_def py_item_PDict)
  have "closed_dict (canon g) GITHUB_KEYS"
    unfolding closed_dict_canon by (simp add: assms(2) github_binding_def closed_dict_def keys_eq_def GITHUB_KEYS_def)
  moreover have "py_in (PStr event_name) (map PStr EVENTS)" using assms(3) by (auto simp: py_in_def list_ex_iff)
  ultimately show ?thesis using assms(5,7,8) sha256_hex unfolding jvm_github_def
    by (subst check_pass) (simp_all add: item_eq_def item_is_def eq_res_def i check_each_def ensure_def hexs_def RUN_KEYS_def check_pass)
qed

lemma jvm_binding_pass:
  assumes "event_facts git (PStr JVM_PROFILE) event_name event ref (PStr s) n = Inr ((pc, detail, sample), m)" "hexn 40 s"
    "py_item pol ''commit'' = Inr pc" "py_item src ''commit'' = Inr (PStr s)" "storable detail"
    "0 < py_len ref" "int (py_len ref) \<le> 256" "no_control ref" "event_name \<in> set EVENTS"
  shows "jvm_binding (PStr event_name) (PStr ref) (canon detail) pol src = Inr ()"
proof -
  note item = canon_item [OF assms(5)]
  consider "event_name = ''pull_request''" | "event_name = ''push''" | "event_name = ''schedule''" | "event_name = ''workflow_dispatch''"
    using assms(9) by (auto simp: EVENTS_def)
  then show ?thesis
  proof cases
    case 1
    then have e: "pull_request_event git event ref (PStr s) n = Inr ((pc, detail, sample), m)" using assms(1) by (simp add: event_facts_def)
    show ?thesis
    proof (rule pull_request_ok [OF e])
      fix i b hd repo
      assume d: "hexn 40 b" "hexn 40 hd" "repo_name repo" "0 < i" "i \<le> 10 ^ 10" "ref = pull_ref i" "pc = PStr b"
        "detail = PDict [(''number'', PInt i), (''base'', PStr b), (''head'', PStr hd), (''headRepository'', PStr repo)]"
      have i: "py_item (canon detail) ''number'' = Inr (PInt i)" "py_item (canon detail) ''base'' = Inr (PStr b)"
        "py_item (canon detail) ''head'' = Inr (PStr hd)" "py_item (canon detail) ''headRepository'' = Inr (PStr repo)"
        using item by (simp_all add: d(8) py_item_PDict)
      have "closed_dict (canon detail) [''number'', ''base'', ''head'', ''headRepository'']"
        unfolding closed_dict_canon by (simp add: d(8) closed_dict_def keys_eq_def)
      then show ?thesis using 1 d(1-7) assms(3) unfolding jvm_binding_def
        by (simp add: check_pass item_is_def int_item_def as_int_def sha_item_eq_def eq_res_def sha_def SHA_def i)
    qed
  next
    case 2
    then have e: "push_event git (PStr JVM_PROFILE) event ref (PStr s) n = Inr ((pc, detail, sample), m)" using assms(1) by (simp add: event_facts_def)
    obtain b where b: "hexn 40 b" "detail = PDict [(''before'', PStr b)]" using push_ok(2) [OF e] by (auto simp: JVM_PROFILE_def)
    then show ?thesis using 2 push_ok(1) [OF e] assms(3,4) unfolding jvm_binding_def
      by (simp add: check_pass closed_dict_def keys_eq_def eq_res_def py_item_PDict sha_def SHA_def)
  next
    case 3
    then have "schedule_event (PStr JVM_PROFILE) event ref (PStr s) = Inr (pc, detail, sample)" using assms(1) by (simp add: event_facts_def liftg_ok)
    then have d: "ref = MAIN_REF" "pc = PStr s" "detail = PDict [(''schedule'', WEEKLY)]" using schedule_ok by blast+
    show ?thesis using 3 assms(3,4) unfolding jvm_binding_def d by (simp add: check_pass eq_res_def WEEKLY_def)
  next
    case 4
    then have "manual_event git event ref n = Inr ((pc, detail, sample), m)" using assms(1) by (simp add: event_facts_def)
    then obtain c where c: "pc = PStr c" "hexn 40 c" "branch_ref ref" "detail = PDict [(''policyMain'', PStr c)]" using manual_ok by blast
    then show ?thesis using 4 assms(3,6-8) unfolding jvm_binding_def
      by (simp add: check_pass closed_dict_def keys_eq_def sha_item_eq_def eq_res_def py_item_PDict sha_def SHA_def)
  qed
qed

lemma jvm_routed:
  assumes "admit (PStr JVM_PROFILE) env event_raw git now n = Inr (a, m)" "getenv env ''GITHUB_REF'' = PStr ref" "plain_str ref"
    "len (admitted_record a) \<le> EVENT_LIMIT"
  shows "\<exists>role. host_of JVM_HOSTS (getenv env ''RUNNER_OS'', getenv env ''RUNNER_ARCH'') = Inr (Some role)
    \<and> jvm_library_cohort (admitted_record a) = Inr (Some (''desktop'', role))"
proof (rule admit_reads_back [OF assms])
  fix w role event_name source t event pc detail sample pb blob pol key n2 n3
  let ?v = "admitted_value (PStr JVM_PROFILE) env event_raw w role event_name ref source t detail sample pb"
  let ?g = "github_binding env w event_name ref source event_raw detail" and ?s = "PDict [(''commit'', source), (''tree'', t)]"
  assume r: "caller_checks (PStr JVM_PROFILE) env = Inr (w, role, event_name, ref, source)" "\<exists>x. t = PStr x \<and> hexn 40 x"
    "event_facts git (PStr JVM_PROFILE) event_name event ref source n2 = Inr ((pc, detail, sample), n3)"
    "policy_binding pc blob (original_policy a) pol = Inr pb" "policy (original_policy a) now = Inr (pol, key)" "hexn 40 blob"
    "storable ?v" "parse (admitted_record a) EVENT_LIMIT = Inr (canon ?v)" "encoded ?v = Inr (admitted_record a)"
  obtain p run_id attempt system arch s where c: "PStr JVM_PROFILE = PStr p" "p \<in> {''desktop'', ''full'', ''jvm-library''}" "worker_contract (PStr JVM_PROFILE) = Inr w"
    "getenv env ''GITHUB_RUN_ID'' = PStr run_id" "ID run_id" "getenv env ''GITHUB_RUN_ATTEMPT'' = PStr attempt" "ID attempt"
    "getenv env ''RUNNER_OS'' = PStr system" "getenv env ''RUNNER_ARCH'' = PStr arch" "((system, arch), role) \<in> set HOSTS"
    "worker_host (PStr JVM_PROFILE) (PStr system, PStr arch) = Inr role"
    "getenv env ''GITHUB_EVENT_NAME'' = PStr event_name" "event_name \<in> set EVENTS" "getenv env ''GITHUB_REF'' = PStr ref"
    "0 < py_len ref" "int (py_len ref) \<le> 256" "no_control ref"
    "source = PStr s" "hexn 40 s" "getenv env ''GITHUB_SHA'' = PStr s"
    using caller_checks_ok [OF r(1)] .
  have w: "w = JVM_WORKER" using c(3) by (simp add: worker_contract_def JVM_PROFILE_def)
  obtain f k e where pb: "pb = PDict [(''commit'', pc), (''blob'', PStr blob), (''path'', PStr POLICY_PATH), (''sha256'', PStr (sha256 (original_policy a))),
      (''fingerprint'', PStr f), (''keySha256'', PStr k), (''expiresAt'', PInt e), (''retentionDays'', PInt 14)]"
    "fingerprint_text f" "hexn 64 k" "0 < e"
    using policy_binding_ok [OF r(4,5)] .
  obtain x where x: "pc = PStr x" "hexn 40 x" "storable detail" using event_facts_ok r(3) c(18,19) by blast
  have items: "py_item ?v ''schema'' = Inr (PInt 1)" "py_item ?v ''scope'' = Inr (PStr ORDINARY_SCOPE)"
    "py_item ?v ''profile'' = Inr (PStr JVM_PROFILE)" "py_item ?v ''suites'' = Inr (strs [''jvm-library''])"
    "py_item ?v ''source'' = Inr ?s" "py_item ?v ''github'' = Inr ?g" "py_item ?v ''policy'' = Inr pb"
    "py_item ?v ''cacheCohort'' = Inr (PDict [(''profile'', PStr ''desktop''), (''role'', PStr role)])"
    by (simp_all add: admitted_value_def profile_extra_def JVM_PROFILE_def w JVM_WORKER_def py_item_PDict)
  have st: "storable ?g" "storable ?s" "storable pb" "storable (PDict [(''profile'', PStr ''desktop''), (''role'', PStr role)])"
    using storable_item [OF r(7)] items by blast+
  note ci = items [THEN canon_item [OF r(7)]]
  have gi: "py_item (canon ?g) ''event'' = Inr (PStr event_name)" "py_item (canon ?g) ''ref'' = Inr (PStr ref)"
    "py_item (canon ?g) ''eventBinding'' = Inr (canon detail)" "py_item (canon ?g) ''runnerOS'' = Inr (PStr system)"
    "py_item (canon ?g) ''runnerArch'' = Inr (PStr arch)"
    using canon_item [OF st(1)] c(8,9) by (simp_all add: github_binding_def py_item_PDict)
  have si: "py_item (canon ?s) ''commit'' = Inr (PStr s)" using canon_item [OF st(2)] c(18) by (simp add: py_item_PDict)
  have pi: "py_item (canon pb) ''commit'' = Inr pc" using canon_item [OF st(3)] pb(1) x by (simp add: py_item_PDict)
  have closed: "closed_dict (canon ?v) JVM_KEYS" "closed_dict (canon ?s) [''commit'', ''tree'']"
    unfolding closed_dict_canon
    by (simp_all add: closed_dict_def keys_eq_def admitted_value_def profile_extra_def JVM_PROFILE_def JVM_KEYS_def)
  have vals: "check_each (\<lambda>v. andthen (sha v) (\<lambda>_. Inr ())) (map snd (items (canon ?s))) = Inr ()"
    using r(2) c(18,19) by (auto simp: check_each_ok list_all_iff canon_pairs_map sha_def SHA_def)
  have b: "jvm_binding (PStr event_name) (PStr ref) (canon detail) (canon pb) (canon ?s) = Inr ()"
    using jvm_binding_pass [of git event_name event ref s n2 pc detail sample n3] r(3) c(13,15-19) x pi si by simp
  have g: "jvm_github (canon ?g) (canon ?s) = Inr ()"
    using jvm_github_pass [of ?g env event_name ref s event_raw detail] st(1) c(4-7,13,18) w si by simp
  have q: "jvm_policy (canon pb) = Inr ()" using jvm_policy_pass [OF st(3)] pb x sha256_hex r(6) by simp
  have d: "is_dict detail" using event_facts_ok r(3) c(18,19) by blast
  have enc: "encoded (canon ?v) = Inr (admitted_record a)" using r(9) by (simp add: encoded_def record_text_canon)
  have co: "py_eq (canon (PDict [(''profile'', PStr ''desktop''), (''role'', PStr role)])) (PDict [(''profile'', PStr ''desktop''), (''role'', PStr role)])"
    by (rule py_eq_canon(1) [OF st(4)])
  have gd: "get (canon ?v) ''profile'' = Inr (PStr JVM_PROFILE)" using ci(3) by (auto simp: py_item_ok)
  have parts: "is_dict (canon ?g)" "is_dict (canon ?s)" "is_dict (canon pb)" by (simp_all add: github_binding_def pb(1))
  have top: "list_all (\<lambda>c. c = Inr True)
      [Inr (closed_dict (canon ?v) JVM_KEYS), item_is is_int (canon ?v) ''schema'', item_eq (canon ?v) ''schema'' (PInt 1),
       item_eq (canon ?v) ''scope'' (PStr ORDINARY_SCOPE), item_eq (canon ?v) ''profile'' (PStr JVM_PROFILE),
       item_eq (canon ?v) ''suites'' (strs (snd (snd JVM_WORKER))), andthen (encoded (canon ?v)) (\<lambda>r. Inr (admitted_record a = r))]"
    using closed(1) ci enc by (simp add: item_eq_def item_is_def strs_def JVM_WORKER_def)
  have "jvm_library_cohort (admitted_record a) = Inr (Some (''desktop'', role))"
    unfolding jvm_library_cohort_def
    using top closed(2) vals g q b c(11) co gd parts d
    by (simp add: r(8) get_eq_def get_is_def check_pass ci gi mapping_def Let_def item_eq_def item_is_def del: canon.simps)
  moreover have "host_of JVM_HOSTS (getenv env ''RUNNER_OS'', getenv env ''RUNNER_ARCH'') = Inr (Some role)"
    using worker_host_ok [OF c(11)] c(8,9) by metis
  ultimately show ?thesis by blast
qed


text \<open>C23. A record the admission writes for the JVM worker is accepted by its reader, which routes it to
  the desktop bytes of exactly the host that was admitted, provided that the ref in the environment is
  well-formed text and the record is within the reader's limit of \<open>EVENT_LIMIT\<close> bytes.  The second
  condition is not implied by the admission: the name of the head repository has no bound of its own.\<close>

theorem jvm_admission_routed:
  assumes "admit (PStr JVM_PROFILE) env event_raw git now n = Inr (a, m)" "getenv env ''GITHUB_REF'' = PStr ref" "plain_str ref"
    "len (admitted_record a) \<le> EVENT_LIMIT"
  shows "\<exists>role. host_of JVM_HOSTS (getenv env ''RUNNER_OS'', getenv env ''RUNNER_ARCH'') = Inr (Some role)
    \<and> jvm_library_cohort (admitted_record a) = Inr (Some (''desktop'', role))"
  by (rule jvm_routed [OF assms])

text \<open>C24. For an admission whose ref is well-formed text and whose record is within the reader's limit of
  \<open>EVENT_LIMIT\<close> bytes (a longer one is refused by the reader), the packaging decision read back is the one
  that was admitted: for a push of the desktop profile it is whether the commit has two parents and its
  message carries the release marker, as Git reported them, and it is negative for every other such
  admission.\<close>

theorem sample_packaging_decision:
  assumes "admit profile env event_raw git now n = Inr (a, m)" "getenv env ''GITHUB_REF'' = PStr ref" "plain_str ref"
    "len (admitted_record a) \<le> EVENT_LIMIT"
  shows "if profile = PStr ''desktop'' \<and> getenv env ''GITHUB_EVENT_NAME'' = PStr ''push''
    then \<exists>msg ps i j k. message git (getenv env ''GITHUB_SHA'') i = Inr (msg, j) \<and> parents git (getenv env ''GITHUB_SHA'') j = Inr (ps, k)
      \<and> sample_packaging_required a = Inr (length ps = 2 \<and> contains RELEASE_MARKER msg)
    else sample_packaging_required a = Inr False"
proof (rule admit_reads_back [OF assms])
  fix w role event_name source t event pc detail sample pb blob pol key n2 n3
  let ?v = "admitted_value profile env event_raw w role event_name ref source t detail sample pb"
  assume r: "caller_checks profile env = Inr (w, role, event_name, ref, source)"
    "event_facts git profile event_name event ref source n2 = Inr ((pc, detail, sample), n3)"
    "storable ?v" "parse (admitted_record a) EVENT_LIMIT = Inr (canon ?v)"
  have c: "worker_contract profile = Inr w" "getenv env ''GITHUB_EVENT_NAME'' = PStr event_name"
    using caller_checks_ok [OF r(1)] by metis+
  obtain p where p: "profile = PStr p" "p \<in> {''desktop'', ''full'', ''jvm-library''}" using worker_contract_ok [OF c(1)] by metis
  obtain s where s: "source = PStr s" "hexn 40 s" "getenv env ''GITHUB_SHA'' = PStr s" using caller_checks_ok [OF r(1)] by metis
  have "py_item ?v ''profile'' = Inr profile" by (simp add: admitted_value_def py_item_PDict)
  then have i: "py_item (canon ?v) ''profile'' = Inr profile" using canon_item [OF r(3)] p(1) by fastforce
  then have g: "get (canon ?v) ''profile'' = Inr profile" by (auto simp: py_item_ok)
  have dec: "sample_packaging_required a = Inr sample" if d: "p = ''desktop''"
  proof -
    have "py_item ?v ''samplePackagingRequired'' = Inr (PBool sample)"
      by (simp add: admitted_value_def profile_extra_def p(1) d py_item_PDict)
    then have "py_item (canon ?v) ''samplePackagingRequired'' = Inr (PBool sample)" using canon_item [OF r(3)] by fastforce
    then have "get (canon ?v) ''samplePackagingRequired'' = Inr (PBool sample)" by (auto simp: py_item_ok)
    then show ?thesis unfolding sample_packaging_required_def using g i c(1) p(1) d by (simp add: r(4) truth_def del: canon.simps)
  qed
  have other: "sample_packaging_required a = Inr False" if d: "p \<noteq> ''desktop''"
  proof -
    have "\<not> has_key ''samplePackagingRequired'' (canon ?v)"
      unfolding has_key_canon by (auto simp: has_key_def admitted_value_def profile_extra_def p(1) d)
    moreover have "\<exists>x. jvm_library_cohort (admitted_record a) = Inr (Some x)" if "p = ''jvm-library''"
      using jvm_routed [of env event_raw git now n a m ref] assms p(1) that by (auto simp: JVM_PROFILE_def)
    ultimately show ?thesis unfolding sample_packaging_required_def using g i c(1) p d
      by (auto simp: r(4) JVM_PROFILE_def simp del: canon.simps)
  qed
  show ?thesis
  proof (cases "p = ''desktop'' \<and> event_name = ''push''")
    case True
    then have e: "push_event git (PStr ''desktop'') event ref (PStr s) n2 = Inr ((pc, detail, sample), n3)"
      using r(2) p(1) s(1) by (simp add: event_facts_def)
    obtain msg ps j where "message git (PStr s) n2 = Inr (msg, j)" "parents git (PStr s) j = Inr (ps, n3)"
      "sample \<longleftrightarrow> length ps = 2 \<and> contains RELEASE_MARKER msg"
      using push_ok(3) [OF e] by blast
    then have "message git (PStr s) n2 = Inr (msg, j) \<and> parents git (PStr s) j = Inr (ps, n3)
        \<and> sample_packaging_required a = Inr (length ps = 2 \<and> contains RELEASE_MARKER msg)"
      using True dec by simp
    then show ?thesis using True p(1) s(3) c(2) by simp blast
  next
    case False
    then have "\<not> sample" using event_facts_ok r(2) s p(1) by blast
    then show ?thesis using False p(1) c(2) dec other by (cases "p = ''desktop''") auto
  qed
qed

section \<open>Samples\<close>

text \<open>A repository in which every reference is the same commit, with a recipient policy.\<close>

definition sample_sha :: string where "sample_sha = replicate 40 (CHR ''a'')"

definition sample_key :: string where
  "sample_key = ''-----BEGIN PGP PUBLIC KEY BLOCK-----'' @ [CHR 0x0A] @ ''-----END PGP PUBLIC KEY BLOCK-----''"

definition sample_policy :: pyval where
  "sample_policy = PDict [(''expiresAt'', PInt 100), (''notBefore'', PInt 1), (''purpose'', PStr ''P2PKIT_TEST_TRANSCRIPTS''),
     (''recipient'', PDict [(''fingerprint'', PStr (replicate 40 (CHR ''A''))), (''publicKey'', PStr sample_key), (''sha256'', PStr (sha256 sample_key))]),
     (''repository'', PStr REPOSITORY), (''retentionDays'', PInt 14), (''retrievalOwner'', PStr ''Owner''), (''schema'', PInt 1)]"

definition sample_policy_raw :: string where
  "sample_policy_raw = text_of_record sample_policy"

definition sample_git :: "string \<Rightarrow> string \<Rightarrow> git_view" where
  "sample_git ps msg = \<lparr>executable = ''git'', root = ''/w'', runner = (\<lambda>n argv limit.
     let args = drop 7 argv in
     if args ! 0 = ''status'' then Some []
     else if args ! 0 = ''ls-tree'' then Some (''100644 blob '' @ git_blob sample_policy_raw @ [CHR 0x09] @ POLICY_PATH @ [CHR 0x00])
     else if args ! 0 = ''cat-file'' then Some (if args ! 1 = ''-s'' then show_nat (length sample_policy_raw) else sample_policy_raw)
     else if args ! 0 = ''show'' then Some (if args ! 2 = ''--format=%P'' then ps else msg)
     else Some sample_sha), same_root = (\<lambda>_. True)\<rparr>"

lemma sample_policy_jok: "jok sample_policy"
proof -
  have k: "list_all plain_str [''expiresAt'', ''notBefore'', ''purpose'', ''recipient'', ''fingerprint'', ''publicKey'', ''sha256'', ''repository'',
      ''retentionDays'', ''retrievalOwner'', ''schema'', ''P2PKIT_TEST_TRANSCRIPTS'', ''Owner'', REPOSITORY, sample_key, replicate 40 (CHR ''A'')]"
    by code_simp
  have i: "length (show_int 100) \<le> int_max_str_digits" "length (show_int 1) \<le> int_max_str_digits" "length (show_int 14) \<le> int_max_str_digits"
    by (simp_all add: show_int_def show_nat.simps int_max_str_digits_def)
  show ?thesis using k i by (simp add: sample_policy_def)
qed

lemma sample_policy_text: "record_text sample_policy = Inr sample_policy_raw"
  using record_text_of [OF sample_policy_jok] by (simp add: sample_policy_raw_def)

lemma sample_policy_canon: "canon sample_policy = sample_policy"
  by (simp add: sample_policy_def)

lemma sample_policy_length: "0 < length sample_policy_raw" "length sample_policy_raw \<le> 5000"
proof -
  have l: "length (sha256 x) = 64" for x using sha256_hex [of x] by (simp add: hexn_def)
  have k: "length sample_key = 71" "length REPOSITORY = 13" by code_simp+
  show "0 < length sample_policy_raw" using sample_policy_text by (auto simp: record_text_def andthen_ok)
  have "jbound sample_policy \<le> 4999"
    by (simp add: sample_policy_def l k show_int_def show_nat.simps)
  then show "length sample_policy_raw \<le> 5000"
    using record_text_length [OF jok_storable(1) [OF sample_policy_jok] sample_policy_text] by simp
qed

lemma sample_policy_read: "policy sample_policy_raw 50 = Inr (sample_policy, sample_key)"
proof -
  have "json_loads_bytes h sample_policy_raw = Inr sample_policy" if "good_hooks h" for h
    using record_stored [OF jok_storable(1) [OF sample_policy_jok] sample_policy_text that] by (simp add: sample_policy_canon)
  then have p: "parse sample_policy_raw POLICY_LIMIT = Inr sample_policy"
    using sample_policy_length by (simp add: parse_def len_def POLICY_LIMIT_def) (simp add: sample_policy_def)
  have t: "fingerprint_text (replicate 40 (CHR ''A''))" "armored sample_key" "len sample_key = 71" "decode_ascii sample_key = Inr sample_key"
    "login_text ''Owner''" by code_simp+
  have c: "closed_dict sample_policy RECIPIENT_KEYS"
    by (simp add: sample_policy_def closed_dict_def keys_eq_def RECIPIENT_KEYS_def insert_commute)
  let ?r = "PDict [(''fingerprint'', PStr (replicate 40 (CHR ''A''))), (''publicKey'', PStr sample_key), (''sha256'', PStr (sha256 sample_key))]"
  have i: "py_item sample_policy ''schema'' = Inr (PInt 1)" "py_item sample_policy ''repository'' = Inr (PStr REPOSITORY)"
    "py_item sample_policy ''purpose'' = Inr (PStr ''P2PKIT_TEST_TRANSCRIPTS'')" "py_item sample_policy ''notBefore'' = Inr (PInt 1)"
    "py_item sample_policy ''expiresAt'' = Inr (PInt 100)" "py_item sample_policy ''retentionDays'' = Inr (PInt 14)"
    "py_item sample_policy ''retrievalOwner'' = Inr (PStr ''Owner'')" "py_item sample_policy ''recipient'' = Inr ?r"
    by (simp_all add: sample_policy_def py_item_PDict)
  have ri: "py_item ?r ''fingerprint'' = Inr (PStr (replicate 40 (CHR ''A'')))" "py_item ?r ''publicKey'' = Inr (PStr sample_key)"
    "py_item ?r ''sha256'' = Inr (PStr (sha256 sample_key))" by (simp_all add: py_item_PDict)
  have rc: "closed_dict ?r [''publicKey'', ''fingerprint'', ''sha256'']" by (simp add: closed_dict_def keys_eq_def insert_commute)
  have rk: "recipient_key ?r = Inr sample_key"
    using rc t sha256_hex unfolding recipient_key_def
    by (simp only: check_pass list.pred_inject item_is_def ri str_item_def andthen_simps as_str_def pyval.case t sum.case)
       (simp add: check_pass item_is_def ri hexs_def t)
  show ?thesis using c t(5) rk unfolding policy_def p andthen_simps
    by (simp add: check_pass item_eq_def item_is_def int_item_def as_int_def mapping_def i)
qed

lemma sample_sha_hex: "hexn 40 sample_sha" "sha_line sample_sha = Inr (PStr sample_sha)" "sha_text (PStr sample_sha) = Inr sample_sha" "len sample_sha = 40"
  by code_simp+

lemma sample_query:
  "query (sample_git ps msg) args limit n =
     req (0 < limit \<and> limit \<le> EVENT_LIMIT) ''IDENTITY_GIT_OUTPUT_LIMIT'' (
     case runner (sample_git ps msg) n ([''git'', ''--no-replace-objects'', ''--no-pager'', ''-c'', ''core.fsmonitor=false'', ''-C'', ''/w''] @ args) limit of
       None \<Rightarrow> Inl (Refused ''IDENTITY_GIT_QUERY_FAILED'')
     | Some out \<Rightarrow> req (len out \<le> limit) ''IDENTITY_GIT_QUERY_OUTPUT'' (Inr (out, Suc n)))"
  by (simp add: query_def sample_git_def)

lemma sample_rev: "query (sample_git ps msg) (''rev-parse'' # r) 4096 n = Inr (sample_sha, Suc n)"
  using sample_sha_hex(4) by (simp add: sample_query) (simp add: sample_git_def EVENT_LIMIT_def)

lemma sample_intact: "\<exists>m. source_intact (sample_git ps msg) (PStr sample_sha) n = Inr (True, m)"
proof -
  have "query (sample_git ps msg) [''status'', ''--porcelain=v1'', ''--untracked-files=all''] EVENT_LIMIT n = Inr ([], Suc n)" for n
    by (simp add: sample_query) (simp add: sample_git_def EVENT_LIMIT_def len_def)
  then show ?thesis using sample_rev sample_sha_hex(2)
    by (simp add: source_intact_def root_matches_def clean_def commit_def bindg_def liftg_def) (simp add: sample_git_def)
qed

lemma sample_tree: "tree (sample_git ps msg) (PStr sample_sha) n = Inr (PStr sample_sha, Suc n)"
  using sample_rev sample_sha_hex by (simp add: tree_def bindg_def liftg_def)

lemma blob_entry_of: "hexn 40 b \<Longrightarrow> blob_entry file (''100644 blob '' @ b @ [CHR 0x09] @ file @ [CHR 0x00]) = Some b"
  by (simp add: blob_entry_def Let_def hexn_def)

lemma strip_digits: "list_all is_digit s \<Longrightarrow> strip_bytes s = s"
proof -
  have l: "list_all is_digit s \<Longrightarrow> strip_left byte_space s = s" for s
    by (cases s) (auto simp: byte_space_def is_digit_def)
  then show "list_all is_digit s \<Longrightarrow> ?thesis"
    using l [of s] l [of "rev s"] by (simp add: strip_bytes_def strip_right_def)
qed

lemma sample_git_policy:
  "git_policy (sample_git ps msg) (PStr sample_sha) n = Inr ((git_blob sample_policy_raw, sample_policy_raw), n + 3)"
proof -
  let ?git = "sample_git ps msg" and ?b = "git_blob sample_policy_raw" and ?z = "show_nat (length sample_policy_raw)"
  have b: "hexn 40 ?b" by (simp add: git_blob_def sha1_hex)
  have z: "length ?z \<le> 4" "list_all is_digit ?z" "hd ?z \<noteq> CHR ''0''" "int_of_digits ?z = len sample_policy_raw"
    using show_nat_length [of "length sample_policy_raw" 4] sample_policy_length hd_show_nat by (simp_all add: len_def)
  have p: "len POLICY_PATH = 36" by code_simp
  have q1: "query ?git [''ls-tree'', ''-z'', sample_sha, ''--'', POLICY_PATH] 4096 n
      = Inr (''100644 blob '' @ ?b @ [CHR 0x09] @ POLICY_PATH @ [CHR 0x00], Suc n)"
    using b p by (simp add: sample_query) (simp add: sample_git_def EVENT_LIMIT_def len_def hexn_def)
  have q2: "query ?git [''cat-file'', ''-s'', ?b] 4096 (Suc n) = Inr (?z, Suc (Suc n))"
    using z by (simp add: sample_query) (simp add: sample_git_def EVENT_LIMIT_def len_def)
  have q3: "query ?git [''cat-file'', ''blob'', ?b] POLICY_LIMIT (Suc (Suc n)) = Inr (sample_policy_raw, n + 3)"
    using sample_policy_length by (simp add: sample_query) (simp add: sample_git_def EVENT_LIMIT_def POLICY_LIMIT_def len_def)
  have s: "size_text 6 ?z" using z(1-3) by (cases ?z) (auto simp: size_text_def)
  show ?thesis unfolding git_policy_def bindg_def liftg_def reqg_def sample_sha_hex(3) andthen_simps prod.case q1
    using s z sample_policy_length blob_entry_of [OF b, of POLICY_PATH] b
    by (simp add: Let_def strip_digits q2 q3 POLICY_LIMIT_def [symmetric] del: append.simps) (simp add: POLICY_LIMIT_def len_def)
qed

definition sample_record :: "pyval \<Rightarrow> environment \<Rightarrow> string \<Rightarrow> worker \<Rightarrow> string \<Rightarrow> string \<Rightarrow> string \<Rightarrow> pyval \<Rightarrow> bool \<Rightarrow> pyval" where
  "sample_record profile env event_raw w role event_name ref detail sample =
     admitted_value profile env event_raw w role event_name ref (PStr sample_sha) (PStr sample_sha) detail sample
       (PDict [(''commit'', PStr sample_sha), (''blob'', PStr (git_blob sample_policy_raw)), (''path'', PStr POLICY_PATH),
          (''sha256'', PStr (sha256 sample_policy_raw)), (''fingerprint'', PStr (replicate 40 (CHR ''A''))),
          (''keySha256'', PStr (sha256 sample_key)), (''expiresAt'', PInt 100), (''retentionDays'', PInt 14)])"

lemma sample_admit:
  assumes "caller_checks profile env = Inr (w, role, event_name, ref, PStr sample_sha)" "plain_str ref"
    "parse event_raw EVENT_LIMIT = Inr event" "get event ''repository'' = Inr (PDict [(''full_name'', PStr REPOSITORY), (''default_branch'', PStr ''main'')])"
    "\<And>n. \<exists>m. event_facts (sample_git ps msg) profile event_name event ref (PStr sample_sha) n = Inr ((PStr sample_sha, detail, sample), m)"
    "\<forall>i \<in> set (jints detail). \<bar>i\<bar> < 10 ^ 12"
    "jbound (sample_record profile env event_raw w role event_name ref detail sample) < 100000"
  shows "\<exists>a m. admit profile env event_raw (sample_git ps msg) 50 0 = Inr (a, m) \<and> len (admitted_record a) \<le> EVENT_LIMIT"
proof -
  let ?git = "sample_git ps msg" and ?v = "sample_record profile env event_raw w role event_name ref detail sample"
  obtain m1 where 1: "source_intact ?git (PStr sample_sha) 0 = Inr (True, m1)" using sample_intact by blast
  obtain m2 where 2: "event_facts ?git profile event_name event ref (PStr sample_sha) (Suc m1) = Inr ((PStr sample_sha, detail, sample), m2)"
    using assms(5) by blast
  obtain m3 where 3: "source_intact ?git (PStr sample_sha) (m2 + 3) = Inr (True, m3)" using sample_intact by blast
  have i: "py_item sample_policy ''expiresAt'' = Inr (PInt 100)" "path sample_policy [''recipient'', ''fingerprint''] = Inr (PStr (replicate 40 (CHR ''A'')))"
    "path sample_policy [''recipient'', ''sha256''] = Inr (PStr (sha256 sample_key))"
    by (simp_all add: sample_policy_def py_item_PDict)
  let ?pb = "PDict [(''commit'', PStr sample_sha), (''blob'', PStr (git_blob sample_policy_raw)), (''path'', PStr POLICY_PATH),
          (''sha256'', PStr (sha256 sample_policy_raw)), (''fingerprint'', PStr (replicate 40 (CHR ''A''))),
          (''keySha256'', PStr (sha256 sample_key)), (''expiresAt'', PInt 100), (''retentionDays'', PInt 14)]"
  have pb: "policy_binding (PStr sample_sha) (git_blob sample_policy_raw) sample_policy_raw sample_policy = Inr ?pb"
    unfolding policy_binding_def i andthen_simps by (rule refl)
  have d: "storable detail" using event_facts_ok [OF 2 sample_sha_hex(1)] by blast
  have st: "storable ?v" unfolding sample_record_def
    by (rule admitted_storable [OF assms(1,2) _ _ d _ pb sample_policy_read]) (simp_all add: sample_sha_hex git_blob_def sha1_hex)
  have "\<bar>j\<bar> < 10 ^ 12" if "j \<in> set (jints ?v)" for j
  proof -
    have "jints (strs xs) = []" for xs by (induction xs) (simp_all add: strs_def)
    moreover have "jints (getenv env k) = []" for k by (simp add: getenv_def split: option.splits)
    moreover have "jints profile = []" using caller_checks_ok [OF assms(1)] by (metis jints.simps(7))
    ultimately show ?thesis using that assms(6)
      by (auto simp: sample_record_def admitted_value_def github_binding_def profile_extra_def split: if_splits)
  qed
  then have "jok ?v" using jok_moderate(1) [OF st] by blast
  then obtain raw where raw: "record_text ?v = Inr raw" using jok_written by blast
  have "length raw \<le> 100000" using record_text_length [OF st raw] assms(7) by simp
  then have len: "len raw \<le> EVENT_LIMIT" by (simp add: len_def EVENT_LIMIT_def)
  have repo: "andthen (andthen (get event ''repository'') mapping) (\<lambda>repo.
       check [get_eq repo ''full_name'' (PStr REPOSITORY), get_eq repo ''default_branch'' (PStr ''main'')] ''IDENTITY_REPOSITORY'' (Inr ())) = Inr ()"
    by (simp add: assms(4) mapping_def check_pass get_eq_def get_is_def)
  let ?a = "\<lparr>admitted_record = raw, original_event = event_raw, original_policy = sample_policy_raw, public_key = sample_key,
          fingerprint = PStr (replicate 40 (CHR ''A'')), key_sha256 = PStr (sha256 sample_key), expires_at = PInt 100\<rparr>"
  have adm: "admission_of ?v event_raw sample_policy_raw sample_key sample_policy = Inr ?a"
    unfolding admission_of_def encoded_def raw i andthen_simps by (rule refl)
  have "admit profile env event_raw ?git 50 0 = Inr (?a, Suc m3)"
    using adm unfolding admit_def bindg_def liftg_def reqg_def sample_record_def admitted_value_def
    by (simp add: assms(1,3) 1 2 3 sample_tree sample_git_policy sample_policy_read repo pb del: append.simps)
  then show ?thesis using len by auto
qed

definition sample_env :: "worker \<Rightarrow> string \<Rightarrow> string \<Rightarrow> environment" where
  "sample_env w event_name ref = [(''GITHUB_ACTIONS'', ''true''), (''GITHUB_REPOSITORY'', REPOSITORY), (''GITHUB_SERVER_URL'', ''https://github.com''),
     (''GITHUB_API_URL'', ''https://api.github.com''), (''RUNNER_ENVIRONMENT'', ''github-hosted''), (''GITHUB_JOB'', fst (snd w)),
     (''RUNNER_OS'', ''Linux''), (''RUNNER_ARCH'', ''X64''), (''GITHUB_RUN_ID'', ''12''), (''GITHUB_RUN_ATTEMPT'', ''1''),
     (''GITHUB_EVENT_NAME'', event_name), (''GITHUB_REF'', ref), (''GITHUB_SHA'', sample_sha), (''GITHUB_WORKFLOW_SHA'', sample_sha),
     (''GITHUB_WORKFLOW_REF'', REPOSITORY @ ''/'' @ fst w @ ''@'' @ ref)]"

definition DESKTOP_WORKER :: worker where
  "DESKTOP_WORKER = (''.github/workflows/desktop-cross-host.yml'', ''verify'', [''cli''])"

definition sample_repo :: pyval where
  "sample_repo = PDict [(''full_name'', PStr REPOSITORY), (''default_branch'', PStr ''main'')]"

definition sample_parents :: string where
  "sample_parents = sample_sha @ '' '' @ replicate 40 (CHR ''b'')"

lemma sample_getenv:
  "getenv (sample_env w e r) ''GITHUB_RUN_ID'' = PStr ''12''" "getenv (sample_env w e r) ''GITHUB_RUN_ATTEMPT'' = PStr ''1''"
  "getenv (sample_env w e r) ''RUNNER_OS'' = PStr ''Linux''" "getenv (sample_env w e r) ''RUNNER_ARCH'' = PStr ''X64''"
  "getenv (sample_env w e r) ''GITHUB_REF'' = PStr r" "getenv (sample_env w e r) ''GITHUB_EVENT_NAME'' = PStr e"
  "getenv (sample_env w e r) ''GITHUB_SHA'' = PStr sample_sha"
  by (simp_all add: getenv_def sample_env_def)

lemma sample_lengths: "length (sha256 x) = 64" "length (git_blob x) = 40" "length sample_sha = 40" "length POLICY_PATH = 36" "length REPOSITORY = 13"
  "length ORDINARY_SCOPE = 37" "length RELEASE_MARKER = 12" "length MAIN_REF = 15" "length JVM_PROFILE = 11"
proof -
  show "length (sha256 x) = 64" using sha256_hex [of x] by (simp add: hexn_def)
  show "length (git_blob x) = 40" using sha1_hex by (simp add: git_blob_def hexn_def)
qed code_simp+

lemmas sample_bounds = sample_record_def admitted_value_def github_binding_def profile_extra_def strs_def sample_getenv sample_lengths
  show_int_def show_nat.simps

lemma sample_parents_read: "parents (sample_git sample_parents msg) (PStr sample_sha) n = Inr ([PStr sample_sha, PStr (replicate 40 (CHR ''b''))], Suc n)"
proof -
  have "andthen (decode_ascii sample_parents) (\<lambda>x. each (\<lambda>w. sha (PStr w)) (split_words [] (strip x))) = Inr [PStr sample_sha, PStr (replicate 40 (CHR ''b''))]"
    "len sample_parents = 81" by code_simp+
  moreover have "query (sample_git sample_parents msg) [''show'', ''-s'', ''--format=%P'', sample_sha] 4096 n = Inr (sample_parents, Suc n)"
    if "len sample_parents = 81" using that by (simp add: sample_query) (simp add: sample_git_def EVENT_LIMIT_def)
  ultimately show ?thesis by (simp add: parents_def bindg_def liftg_def sample_sha_hex)
qed

text \<open>A pull request, the weekly run of the JVM worker, and a push of a release merge.\<close>

definition sample_pull :: string where
  \<open>sample_pull = ''{"number":7,"action":"opened","repository":{"full_name":"p2pKit/P2pKit","default_branch":"main"},"pull_request":{"number":7,"state":"open","merged":false,"base":{"repo":{"full_name":"p2pKit/P2pKit"},"ref":"main","sha":"'' @ sample_sha @ ''"},"head":{"repo":{"full_name":"u/r"},"sha":"bbbbbbbbbbbbbbbbbbbbbbbbbbbbbbbbbbbbbbbb"}}}''\<close>

definition sample_weekly :: string where
  \<open>sample_weekly = ''{"repository":{"full_name":"p2pKit/P2pKit","default_branch":"main"},"schedule":"17 4 * * 1"}''\<close>

definition sample_push :: string where
  \<open>sample_push = ''{"repository":{"full_name":"p2pKit/P2pKit","default_branch":"main"},"ref":"refs/heads/main","after":"'' @ sample_sha @ ''","deleted":false,"before":"'' @ sample_sha @ ''"}''\<close>

definition pull_detail :: pyval where
  "pull_detail = PDict [(''number'', PInt 7), (''base'', PStr sample_sha), (''head'', PStr (replicate 40 (CHR ''b''))), (''headRepository'', PStr ''u/r'')]"

lemma sample_pull_admitted:
  "\<exists>a m. admit (PStr ''desktop'') (sample_env DESKTOP_WORKER ''pull_request'' ''refs/pull/7/merge'') sample_pull (sample_git sample_parents []) 50 0 = Inr (a, m)
     \<and> len (admitted_record a) \<le> EVENT_LIMIT"
proof -
  have c: "caller_checks (PStr ''desktop'') (sample_env DESKTOP_WORKER ''pull_request'' ''refs/pull/7/merge'')
      = Inr (DESKTOP_WORKER, ''linux-x64'', ''pull_request'', ''refs/pull/7/merge'', PStr sample_sha)" by code_simp
  have p: "(case parse sample_pull EVENT_LIMIT of Inr e \<Rightarrow> get e ''repository'' = Inr sample_repo
      \<and> pull_request_facts e ''refs/pull/7/merge'' = Inr (PInt 7, PStr sample_sha, PStr (replicate 40 (CHR ''b'')), PStr ''u/r'') | Inl _ \<Rightarrow> False)" by code_simp
  obtain e where e: "parse sample_pull EVENT_LIMIT = Inr e" "get e ''repository'' = Inr sample_repo"
    "pull_request_facts e ''refs/pull/7/merge'' = Inr (PInt 7, PStr sample_sha, PStr (replicate 40 (CHR ''b'')), PStr ''u/r'')"
    using p by (auto split: sum.splits)
  have f: "event_facts (sample_git sample_parents []) (PStr ''desktop'') ''pull_request'' e ''refs/pull/7/merge'' (PStr sample_sha) n
      = Inr ((PStr sample_sha, pull_detail, False), Suc n)" for n
    by (simp add: event_facts_def pull_request_event_def bindg_def liftg_def reqg_def e(3) sample_parents_read pull_detail_def)
  have "plain_str ''refs/pull/7/merge''" by code_simp
  then show ?thesis
    by (rule sample_admit [where detail = pull_detail and sample = False, OF c _ e(1) e(2) [unfolded sample_repo_def]])
      (simp_all add: f pull_detail_def DESKTOP_WORKER_def sample_bounds)
qed

theorem pull_request_policy_base_witness:
  "\<exists>a m event pr base. admit (PStr ''desktop'') (sample_env DESKTOP_WORKER ''pull_request'' ''refs/pull/7/merge'') sample_pull (sample_git sample_parents []) 50 0 = Inr (a, m)
     \<and> parse sample_pull EVENT_LIMIT = Inr event \<and> get event ''pull_request'' = Inr pr \<and> get pr ''base'' = Inr base \<and> get base ''ref'' = Inr (PStr ''main'')"
  using sample_pull_admitted pull_request_policy_base sample_getenv(6) by meson

lemma sample_weekly_admitted:
  "\<exists>a m. admit (PStr JVM_PROFILE) (sample_env JVM_WORKER ''schedule'' MAIN_REF) sample_weekly (sample_git [] []) 50 0 = Inr (a, m)
     \<and> len (admitted_record a) \<le> EVENT_LIMIT"
proof -
  have c: "caller_checks (PStr JVM_PROFILE) (sample_env JVM_WORKER ''schedule'' MAIN_REF)
      = Inr (JVM_WORKER, ''linux-x64'', ''schedule'', MAIN_REF, PStr sample_sha)" by code_simp
  have p: "(case parse sample_weekly EVENT_LIMIT of Inr e \<Rightarrow> get e ''repository'' = Inr sample_repo
      \<and> schedule_event (PStr JVM_PROFILE) e MAIN_REF (PStr sample_sha) = Inr (PStr sample_sha, PDict [(''schedule'', WEEKLY)], False) | Inl _ \<Rightarrow> False)"
    by code_simp
  obtain e where e: "parse sample_weekly EVENT_LIMIT = Inr e" "get e ''repository'' = Inr sample_repo"
    "schedule_event (PStr JVM_PROFILE) e MAIN_REF (PStr sample_sha) = Inr (PStr sample_sha, PDict [(''schedule'', WEEKLY)], False)"
    using p by (auto split: sum.splits)
  have f: "event_facts (sample_git [] []) (PStr JVM_PROFILE) ''schedule'' e MAIN_REF (PStr sample_sha) n
      = Inr ((PStr sample_sha, PDict [(''schedule'', WEEKLY)], False), n)" for n
    by (simp add: event_facts_def liftg_def e(3))
  have "plain_str MAIN_REF" by code_simp
  then show ?thesis
    by (rule sample_admit [where detail = "PDict [(''schedule'', WEEKLY)]" and sample = False, OF c _ e(1) e(2) [unfolded sample_repo_def]])
      (simp_all add: f WEEKLY_def JVM_WORKER_def sample_bounds)
qed

theorem jvm_admission_routed_witness:
  "\<exists>a m. admit (PStr JVM_PROFILE) (sample_env JVM_WORKER ''schedule'' MAIN_REF) sample_weekly (sample_git [] []) 50 0 = Inr (a, m)
     \<and> jvm_library_cohort (admitted_record a) = Inr (Some (''desktop'', ''linux-x64''))"
proof -
  have "plain_str MAIN_REF" "host_of JVM_HOSTS (PStr ''Linux'', PStr ''X64'') = Inr (Some ''linux-x64'')" by code_simp+
  then show ?thesis using sample_weekly_admitted jvm_admission_routed sample_getenv(3-5) by (metis option.inject sum.inject(2))
qed

definition sample_message :: string where
  "sample_message = ''Merge '' @ RELEASE_MARKER"

definition push_detail :: pyval where
  "push_detail = PDict [(''before'', PStr sample_sha), (''releaseMessageSha256'', PStr (sha256 sample_message)),
     (''releaseParents'', PList [PStr sample_sha, PStr (replicate 40 (CHR ''b''))])]"

lemma sample_message_read: "message (sample_git ps sample_message) (PStr sample_sha) n = Inr (sample_message, Suc n)"
  by (simp add: message_def bindg_def liftg_def sample_sha_hex sample_query MESSAGE_LIMIT_def)
    (simp add: sample_git_def EVENT_LIMIT_def len_def sample_message_def sample_lengths)

lemma sample_push_admitted:
  "\<exists>a m. admit (PStr ''desktop'') (sample_env DESKTOP_WORKER ''push'' MAIN_REF) sample_push (sample_git sample_parents sample_message) 50 0 = Inr (a, m)
     \<and> len (admitted_record a) \<le> EVENT_LIMIT"
proof -
  have c: "caller_checks (PStr ''desktop'') (sample_env DESKTOP_WORKER ''push'' MAIN_REF)
      = Inr (DESKTOP_WORKER, ''linux-x64'', ''push'', MAIN_REF, PStr sample_sha)" by code_simp
  have p: "(case parse sample_push EVENT_LIMIT of Inr e \<Rightarrow> get e ''repository'' = Inr sample_repo
      \<and> check [get_eq e ''ref'' (PStr MAIN_REF), get_eq e ''ref'' (PStr MAIN_REF), get_eq e ''after'' (PStr sample_sha),
              get_is (\<lambda>x. py_is x False) e ''deleted''] ''IDENTITY_PUSH'' (andthen (get e ''before'') sha) = Inr (PStr sample_sha) | Inl _ \<Rightarrow> False)"
    by code_simp
  obtain e where e: "parse sample_push EVENT_LIMIT = Inr e" "get e ''repository'' = Inr sample_repo"
    "check [get_eq e ''ref'' (PStr MAIN_REF), get_eq e ''ref'' (PStr MAIN_REF), get_eq e ''after'' (PStr sample_sha),
              get_is (\<lambda>x. py_is x False) e ''deleted''] ''IDENTITY_PUSH'' (andthen (get e ''before'') sha) = Inr (PStr sample_sha)"
    using p by (auto split: sum.splits)
  have m: "contains RELEASE_MARKER sample_message" "len sample_message \<le> MESSAGE_LIMIT" by code_simp+
  have f: "event_facts (sample_git sample_parents sample_message) (PStr ''desktop'') ''push'' e MAIN_REF (PStr sample_sha) n
      = Inr ((PStr sample_sha, push_detail, True), Suc (Suc n))" for n
    by (simp add: event_facts_def push_event_def bindg_def liftg_def reqg_def e(3) sample_message_read sample_parents_read push_detail_def m)
  have "plain_str MAIN_REF" by code_simp
  then show ?thesis
    by (rule sample_admit [where detail = push_detail and sample = True, OF c _ e(1) e(2) [unfolded sample_repo_def]])
      (simp_all add: f push_detail_def DESKTOP_WORKER_def sample_bounds)
qed

theorem sample_packaging_decision_witness:
  "\<exists>a m. admit (PStr ''desktop'') (sample_env DESKTOP_WORKER ''push'' MAIN_REF) sample_push (sample_git sample_parents sample_message) 50 0 = Inr (a, m)
     \<and> sample_packaging_required a = Inr True"
proof -
  obtain a m where a: "admit (PStr ''desktop'') (sample_env DESKTOP_WORKER ''push'' MAIN_REF) sample_push (sample_git sample_parents sample_message) 50 0 = Inr (a, m)"
    "len (admitted_record a) \<le> EVENT_LIMIT" using sample_push_admitted by blast
  have "plain_str MAIN_REF" "contains RELEASE_MARKER sample_message" by code_simp+
  then show ?thesis using sample_packaging_decision [OF a(1) sample_getenv(5) _ a(2)] a(1)
    by (auto simp: sample_getenv sample_message_read sample_parents_read)
qed

end
