(* ===== verification/Bootstrap_Identity.thy ===== *)
theory Bootstrap_Identity
  imports Hosted_Identity
begin

text \<open>
  The manual identity of the cache producer, \<^verbatim>\<open>src/scripts/hosted_cache_bootstrap_identity.py\<close>: the closed
  selections, the reader that routes a retained record to its cache cohort, and the admission decision.
  The Git queries, the policy and the record codec are those of the ordinary identities.

  The theory holds definitions only; the recipient matchers use its closed set of selections.
\<close>

section \<open>Constants\<close>

definition PROFILE :: string where "PROFILE = ''cache-bootstrap''"
definition SCOPE :: string where "SCOPE = ''CACHE_BOOTSTRAP_HOSTED_IDENTITY_V1''"
definition WORKFLOW :: string where "WORKFLOW = ''.github/workflows/dependency-cache-bootstrap.yml''"
definition JOB :: string where "JOB = ''populate''"

definition SELECTIONS :: "(string \<times> string \<times> string \<times> string \<times> string) list" where
  "SELECTIONS =
     [(''desktop-linux-x64'', ''desktop'', ''linux-x64'', ''Linux'', ''X64''),
      (''desktop-windows-x64'', ''desktop'', ''windows-x64'', ''Windows'', ''X64''),
      (''desktop-macos-arm64'', ''desktop'', ''macos-arm64'', ''macOS'', ''ARM64''),
      (''desktop-macos-x64'', ''desktop'', ''macos-x64'', ''macOS'', ''X64''),
      (''full-macos-arm64'', ''full'', ''macos-arm64'', ''macOS'', ''ARM64''),
      (''full-macos-x64'', ''full'', ''macos-x64'', ''macOS'', ''X64'')]"

definition INPUTS :: "string list" where "INPUTS = [''selection'', ''expected_sha'', ''expected_tree'']"
definition COMMAND :: "string list" where "COMMAND = [''help'', ''--console=plain'', ''--no-configure-on-demand'']"

definition PRODUCER_SCOPE :: string where
  "PRODUCER_SCOPE = ''CONFIGURATION_ONLY_NOT_COMPLETE_DEPENDENCIES_OR_TESTS''"

definition CACHE_FIELDS :: "string list" where
  "CACHE_FIELDS = [''selection'', ''cacheCohort'', ''producerCommand'', ''producerScope'', ''testAcceptance'']"

section \<open>Selections and cohorts\<close>

definition selection :: "pyval \<Rightarrow> (string \<times> string \<times> string \<times> string) res" where
  "selection v = (case v of
      PStr s \<Rightarrow> (case map_of SELECTIONS s of Some r \<Rightarrow> Inr r | None \<Rightarrow> Inl (Refused ''BOOTSTRAP_SELECTION''))
    | _ \<Rightarrow> Inl (Refused ''BOOTSTRAP_SELECTION''))"

definition any_key :: "string list \<Rightarrow> pyval \<Rightarrow> bool" where
  "any_key ks v \<longleftrightarrow> list_ex (\<lambda>k. has_key k v) ks"

definition nested_marker :: "pyval \<Rightarrow> bool res" where
  "nested_marker github =
     (if \<not> is_dict github then Inr False
      else andthen (get github ''eventBinding'') (\<lambda>binding.
        anyof [get_eq github ''workflow'' (PStr WORKFLOW), get_eq github ''job'' (PStr JOB),
               Inr (is_dict binding \<and> any_key [''selection'', ''expectedCommit'', ''expectedTree''] binding)]))"

definition BOOTSTRAP_KEYS :: "string list" where
  "BOOTSTRAP_KEYS = [''schema'', ''scope'', ''profile'', ''source'', ''github'', ''policy''] @ CACHE_FIELDS"

definition event_binding :: "pyval \<Rightarrow> pyval \<Rightarrow> pyval \<Rightarrow> pyval \<Rightarrow> pyval" where
  "event_binding main sel c t =
     PDict [(''policyMain'', main), (''selection'', sel), (''expectedCommit'', c), (''expectedTree'', t)]"

definition cohort_of :: "pyval \<Rightarrow> string \<Rightarrow> (string \<times> string) res" where
  "cohort_of value admitted_raw =
     check [Inr (closed_dict value BOOTSTRAP_KEYS), item_is is_int value ''schema'', item_eq value ''schema'' (PInt 1),
            item_eq value ''scope'' (PStr SCOPE), item_eq value ''profile'' (PStr PROFILE)] ''BOOTSTRAP_CACHE_IDENTITY'' (
     andthen (py_item value ''selection'') (\<lambda>sel.
     andthen (selection sel) (\<lambda>(profile, role, system, architecture).
     check [item_eq value ''cacheCohort'' (PDict [(''profile'', PStr profile), (''role'', PStr role)]),
            item_eq value ''producerCommand'' (strs COMMAND), item_eq value ''producerScope'' (PStr PRODUCER_SCOPE),
            item_eq value ''testAcceptance'' (PStr ''NOT_PERFORMED'')] ''BOOTSTRAP_CACHE_COHORT_OR_EXECUTION_CHANGED'' (
     andthen (each (\<lambda>k. andthen (py_item value k) mapping) [''source'', ''github'', ''policy'']) (\<lambda>parts.
     let source = parts ! 0; github = parts ! 1; policy = parts ! 2 in
     check [Inr (closed_dict source [''commit'', ''tree''])] ''BOOTSTRAP_CACHE_SOURCE'' (
     andthen (andthen (py_item source ''commit'') sha) (\<lambda>c.
     andthen (andthen (py_item source ''tree'') sha) (\<lambda>t.
     andthen (andthen (get policy ''commit'') sha) (\<lambda>main.
     check [get_eq github ''repository'' (PStr REPOSITORY), get_eq github ''event'' (PStr ''workflow_dispatch''),
            get_eq github ''workflow'' (PStr WORKFLOW), get_eq github ''workflowSha'' c, get_eq github ''job'' (PStr JOB),
            andthen (get github ''runnerOS'') (\<lambda>os. get_is (\<lambda>a. py_eq os (PStr system) \<and> py_eq a (PStr architecture)) github ''runnerArch''),
            get_eq github ''eventBinding'' (event_binding main sel c t)] ''BOOTSTRAP_CACHE_HOST_OR_SOURCE_CHANGED'' (
     check [andthen (encoded value) (\<lambda>r. Inr (admitted_raw = r))] ''BOOTSTRAP_CACHE_ORIGINAL_RECORD_ENCODING'' (
     Inr (profile, role))))))))))))"

definition cache_cohort :: "string \<Rightarrow> (string \<times> string) option res" where
  "cache_cohort admitted_raw =
     andthen (parse admitted_raw EVENT_LIMIT) (\<lambda>value.
     andthen (get value ''github'') (\<lambda>github.
     andthen (nested_marker github) (\<lambda>nested.
     andthen (anyof [get_eq value ''scope'' (PStr SCOPE), get_eq value ''profile'' (PStr PROFILE),
                     Inr (any_key CACHE_FIELDS value), Inr nested]) (\<lambda>bootstrap.
     if \<not> bootstrap then
       check [if has_key ''scope'' value then item_eq value ''scope'' (PStr ORDINARY_SCOPE) else Inr True] ''BOOTSTRAP_OR_ORDINARY_SCOPE'' (
       Inr None)
     else andthen (cohort_of value admitted_raw) (\<lambda>c. Inr (Some c))))))"

section \<open>Admission\<close>

text \<open>\<open>len("refs/heads/") < len(ref) <= 256\<close> and the rest of the reference check\<close>

definition bootstrap_ref :: "string \<Rightarrow> bool" where
  "bootstrap_ref r \<longleftrightarrow> starts ''refs/heads/'' r \<and> 11 < py_len r \<and> int (py_len r) \<le> 256
     \<and> r \<noteq> ''refs/heads/audit/complete-2026-09-04'' \<and> no_control r"

definition bootstrap_caller :: "environment \<Rightarrow> (string \<times> pyval) res" where
  "bootstrap_caller env =
     req (hosted_caller env JOB) ''BOOTSTRAP_HOSTED_CALLER'' (
     req (getenv env ''GITHUB_EVENT_NAME'' = PStr ''workflow_dispatch'') ''BOOTSTRAP_MANUAL_ONLY'' (
     then_do (check_each (\<lambda>k. ensure (Inr (str_and ID (getenv env k))) ''BOOTSTRAP_RUN'') [''GITHUB_RUN_ID'', ''GITHUB_RUN_ATTEMPT'']) (
     req (str_and bootstrap_ref (getenv env ''GITHUB_REF'')) ''BOOTSTRAP_REF'' (
     andthen (as_str (getenv env ''GITHUB_REF'')) (\<lambda>ref.
     andthen (sha (getenv env ''GITHUB_SHA'')) (\<lambda>source.
     req (py_eq (getenv env ''GITHUB_WORKFLOW_SHA'') source
          \<and> getenv env ''GITHUB_WORKFLOW_REF'' = PStr (REPOSITORY @ ''/'' @ WORKFLOW @ ''@'' @ ref)) ''BOOTSTRAP_WORKFLOW'' (
     Inr (ref, source))))))))"

type_synonym manual_facts = "pyval \<times> (string \<times> string \<times> string \<times> string) \<times> pyval"

definition bootstrap_event :: "environment \<Rightarrow> string \<Rightarrow> string \<Rightarrow> pyval \<Rightarrow> manual_facts res" where
  "bootstrap_event env event_raw ref source =
     andthen (parse event_raw EVENT_LIMIT) (\<lambda>event.
     andthen (andthen (get event ''repository'') mapping) (\<lambda>repository.
     check [get_eq repository ''full_name'' (PStr REPOSITORY), get_eq repository ''default_branch'' (PStr ''main'')] ''BOOTSTRAP_REPOSITORY'' (
     check [get_is (\<lambda>x. py_in x [PStr ref, PStr (drop 11 ref)]) event ''ref''] ''BOOTSTRAP_EVENT_REF'' (
     andthen (get event ''inputs'') (\<lambda>inputs.
     req (closed_dict inputs INPUTS) ''BOOTSTRAP_INPUTS'' (
     andthen (py_item inputs ''selection'') (\<lambda>sel.
     andthen (selection sel) (\<lambda>(cohort, role, system, architecture).
     req (getenv env ''RUNNER_OS'' = PStr system \<and> getenv env ''RUNNER_ARCH'' = PStr architecture) ''BOOTSTRAP_HOST_LABELS'' (
     check [andthen (andthen (py_item inputs ''expected_sha'') sha) (\<lambda>s. Inr (py_eq s source))] ''BOOTSTRAP_EXPECTED_SOURCE'' (
     andthen (andthen (py_item inputs ''expected_tree'') sha) (\<lambda>expected_tree.
     Inr (sel, (cohort, role, system, architecture), expected_tree))))))))))))"

definition main_ancestry :: "git_view \<Rightarrow> pyval \<Rightarrow> pyval gitq" where
  "main_ancestry git source =
     bindg (query git [''rev-parse'', ''--is-shallow-repository''] 4096) (\<lambda>out.
     reqg (strip_bytes out = ''false'') ''BOOTSTRAP_FULL_HISTORY'' (
     bindg (commit git ''refs/remotes/origin/main'') (\<lambda>main.
     bindg (liftg (sha_text main)) (\<lambda>main_text.
     bindg (liftg (as_str source)) (\<lambda>source_text.
     bindg (query git [''merge-base'', main_text, source_text] 4096) (\<lambda>base.
     reqg (strip_bytes base = main_text) ''BOOTSTRAP_MAIN_ANCESTRY'' (liftg (Inr main))))))))"

definition bootstrap_record ::
  "environment \<Rightarrow> string \<Rightarrow> string \<Rightarrow> pyval \<Rightarrow> pyval \<Rightarrow> manual_facts \<Rightarrow> pyval \<Rightarrow> pyval \<Rightarrow> pyval" where
  "bootstrap_record env event_raw ref source t facts main pb =
     (case facts of (sel, (cohort, role, system, architecture), expected_tree) \<Rightarrow>
      PDict [(''schema'', PInt 1), (''scope'', PStr SCOPE), (''profile'', PStr PROFILE), (''selection'', sel),
        (''cacheCohort'', PDict [(''profile'', PStr cohort), (''role'', PStr role)]), (''producerCommand'', strs COMMAND),
        (''producerScope'', PStr PRODUCER_SCOPE), (''testAcceptance'', PStr ''NOT_PERFORMED''),
        (''source'', PDict [(''commit'', source), (''tree'', t)]),
        (''github'', PDict [(''repository'', PStr REPOSITORY), (''event'', PStr ''workflow_dispatch''), (''ref'', PStr ref),
           (''workflow'', PStr WORKFLOW), (''workflowSha'', source), (''job'', PStr JOB), (''runId'', getenv env ''GITHUB_RUN_ID''),
           (''runAttempt'', getenv env ''GITHUB_RUN_ATTEMPT''), (''eventSha256'', PStr (sha256 event_raw)),
           (''eventBinding'', event_binding main sel source t), (''runnerOS'', PStr system), (''runnerArch'', PStr architecture)]),
        (''policy'', pb)])"

definition bootstrap_admit :: "environment \<Rightarrow> string \<Rightarrow> git_view \<Rightarrow> int \<Rightarrow> Admission gitq" where
  "bootstrap_admit env event_raw git now =
     bindg (liftg (bootstrap_caller env)) (\<lambda>(ref, source).
     bindg (liftg (bootstrap_event env event_raw ref source)) (\<lambda>facts.
     bindg (source_intact git source) (\<lambda>ok. reqg ok ''BOOTSTRAP_SOURCE'' (
     bindg (tree git source) (\<lambda>t.
     reqg (py_eq t (snd (snd facts))) ''BOOTSTRAP_EXPECTED_TREE'' (
     bindg (main_ancestry git source) (\<lambda>main.
     bindg (git_policy git main) (\<lambda>(blob, policy_raw).
     bindg (liftg (policy policy_raw now)) (\<lambda>(pol, key).
     bindg (source_intact git source) (\<lambda>again. reqg again ''BOOTSTRAP_SOURCE_OR_MAIN_CHANGED'' (
     bindg (tree git source) (\<lambda>t'. reqg (py_eq t' t) ''BOOTSTRAP_SOURCE_OR_MAIN_CHANGED'' (
     bindg (commit git ''refs/remotes/origin/main'') (\<lambda>main'. reqg (py_eq main' main) ''BOOTSTRAP_SOURCE_OR_MAIN_CHANGED'' (
     liftg (andthen (policy_binding main blob policy_raw pol) (\<lambda>pb.
       admission_of (bootstrap_record env event_raw ref source t facts main pb) event_raw policy_raw key pol)))))))))))))))))"

end
