(* ===== verification/Recipient_Exception.thy ===== *)
theory Recipient_Exception
  imports Bootstrap_Identity
begin

text \<open>
  The dormant joint statement matcher of the initial recipient,
  \<^verbatim>\<open>src/scripts/hosted_initial_recipient_exception.py\<close>: the owner comment, its closed declaration, the finite
  run roster, the current pull request and the binding of one use.  Captured files and query results
  are byte strings (the guards \<open>type(x) is bytes\<close> hold by typing); everything parsed from them, the
  comment number and the digest given by the caller are arbitrary values.  Python sets that only
  collect are lists without duplicates.  The checks that the staged matcher repeats with its own error
  codes take the prefix of the codes as an argument.

  The lemmas show the order of comment times: accepted times are ordered as their calendar fields.  What
  the recheck of a match is, is shown with the staged matchers in \<open>Recipient_Stages\<close>.
\<close>

section \<open>Constants\<close>

definition SCOPE :: string where "SCOPE = ''P2PKIT_INITIAL_RECIPIENT_EXCEPTION_V1''"
definition COMMAND :: string where "COMMAND = ''/p2pkit authorize-initial-recipient ''"
definition OWNER_LOGIN :: string where "OWNER_LOGIN = ''Apdelrahman1911''"
definition OWNER_ID :: int where "OWNER_ID = 104788132"
definition ISSUE :: int where "ISSUE = 437"
definition BASE_COMMIT :: string where "BASE_COMMIT = ''3bc76f956f8f47447b51a62474fc878b9c43173c''"
definition BASE_TREE :: string where "BASE_TREE = ''2a1105fde1d1ac299448489501e29d7a0d4a407a''"

definition BASE :: pyval where
  "BASE = PDict [(''commit'', PStr BASE_COMMIT), (''tree'', PStr BASE_TREE)]"

definition SOURCE_BRANCH :: string where
  "SOURCE_BRANCH = ''work/release-foundation-20260926-1WzHcOIr''"

definition SOURCE_REF :: string where
  "SOURCE_REF = ''refs/heads/'' @ SOURCE_BRANCH"

definition POLICY_SHA256 :: string where
  "POLICY_SHA256 = ''a1e4cc4862d46d7887b9cf41e73127939f41342042afe0aee00c3b603b38953b''"

definition LIMIT :: int where "LIMIT = 64 * 1024"

definition ROLES :: "(string \<times> string \<times> string) list" where
  "ROLES = [(''linux-x64'', ''Linux'', ''X64''), (''windows-x64'', ''Windows'', ''X64''),
     (''macos-arm64'', ''macOS'', ''ARM64''), (''macos-x64'', ''macOS'', ''X64'')]"

definition API :: string where "API = ''https://api.github.com/repos/'' @ REPOSITORY"
definition WEB :: string where "WEB = ''https://github.com/'' @ REPOSITORY"
definition RECIPIENT :: string where "RECIPIENT = ''INITIAL_RECIPIENT_''"

section \<open>Fields, numbers and times\<close>

text \<open>\<open>require\<close> with the prefix of the module's codes, and \<open>fields\<close>\<close>

definition check_as :: "string \<Rightarrow> bool res list \<Rightarrow> string \<Rightarrow> 'a res \<Rightarrow> 'a res" where
  "check_as pre cs code k = check cs (pre @ code) k"

definition fields_as :: "string \<Rightarrow> pyval \<Rightarrow> string list \<Rightarrow> string \<Rightarrow> 'a res \<Rightarrow> 'a res" where
  "fields_as pre v ks code k = req (closed_dict v ks) (pre @ code) k"

definition source :: "pyval \<Rightarrow> pyval res" where
  "source v =
     fields_as RECIPIENT v [''commit'', ''tree''] ''SOURCE_FIELDS'' (
     andthen (andthen (py_item v ''commit'') sha) (\<lambda>_.
     andthen (andthen (py_item v ''tree'') sha) (\<lambda>_. Inr v)))"

definition number :: "pyval \<Rightarrow> pyval res" where
  "number v = check_as RECIPIENT [Inr (int_and (\<lambda>i. 0 < i \<and> i \<le> 10 ^ 10) v)] ''NUMBER'' (Inr v)"

definition run :: "pyval \<Rightarrow> (string \<times> string) res" where
  "run v =
     then_do (check_each (\<lambda>k. ensure (get_is (str_and ID) v k) (RECIPIENT @ ''RUN'')) [''runId'', ''runAttempt'']) (
     andthen (str_item v ''runId'') (\<lambda>i. andthen (str_item v ''runAttempt'') (\<lambda>a. Inr (i, a))))"

definition owner :: "pyval \<Rightarrow> bool res" where
  "owner v = allof [Inr (is_dict v), get_eq v ''login'' (PStr OWNER_LOGIN), get_is is_int v ''id'',
     item_eq v ''id'' (PInt OWNER_ID), get_eq v ''type'' (PStr ''User'')]"

text \<open>
  \<open>datetime\<close>: the proleptic Gregorian calendar.  \<open>strptime\<close> of the fixed shape accepts exactly the
  existing dates from year 1 and the times of day without a leap second.
\<close>

definition is_leap :: "int \<Rightarrow> bool" where
  "is_leap y \<longleftrightarrow> y mod 4 = 0 \<and> (y mod 100 \<noteq> 0 \<or> y mod 400 = 0)"

definition days_in_month :: "int \<Rightarrow> int \<Rightarrow> int" where
  "days_in_month y m = (if m = 2 then if is_leap y then 29 else 28 else if m \<in> {4, 6, 9, 11} then 30 else 31)"

definition days_before_year :: "int \<Rightarrow> int" where
  "days_before_year y = (let z = y - 1 in z * 365 + z div 4 - z div 100 + z div 400)"

definition days_before_month :: "int \<Rightarrow> int \<Rightarrow> int" where
  "days_before_month y m = sum_list (map (days_in_month y) [1..m - 1])"

definition ordinal :: "int \<Rightarrow> int \<Rightarrow> int \<Rightarrow> int" where
  "ordinal y m d = days_before_year y + days_before_month y m + d"

definition valid_time :: "int \<Rightarrow> int \<Rightarrow> int \<Rightarrow> int \<Rightarrow> int \<Rightarrow> int \<Rightarrow> bool" where
  "valid_time y m d h mi s \<longleftrightarrow> 1 \<le> y \<and> 1 \<le> m \<and> m \<le> 12 \<and> 1 \<le> d \<and> d \<le> days_in_month y m
     \<and> 0 \<le> h \<and> h < 24 \<and> 0 \<le> mi \<and> mi < 60 \<and> 0 \<le> s \<and> s < 60"

definition utc_seconds :: "int \<Rightarrow> int \<Rightarrow> int \<Rightarrow> int \<Rightarrow> int \<Rightarrow> int \<Rightarrow> int" where
  "utc_seconds y m d h mi s = (ordinal y m d - ordinal 1970 1 1) * 86400 + h * 3600 + mi * 60 + s"

definition digits_at :: "nat \<Rightarrow> nat \<Rightarrow> string \<Rightarrow> int" where
  "digits_at i n s = int_of_digits (take n (drop i s))"

definition time_fields :: "string \<Rightarrow> int list" where
  "time_fields s = [digits_at 0 4 s, digits_at 5 2 s, digits_at 8 2 s, digits_at 11 2 s, digits_at 14 2 s, digits_at 17 2 s]"

definition timestamp :: "pyval \<Rightarrow> int res" where
  "timestamp v =
     check_as RECIPIENT [Inr (str_and (shape ''####-##-##T##:##:##Z'') v)] ''COMMENT_TIME'' (
     andthen (as_str v) (\<lambda>t. case time_fields t of
       [y, m, d, h, mi, s] \<Rightarrow> if valid_time y m d h mi s then Inr (utc_seconds y m d h mi s)
                             else Inl (Refused (RECIPIENT @ ''COMMENT_TIME''))
     | _ \<Rightarrow> Inl ValueError))"

section \<open>The owner statement\<close>

text \<open>The recorded place, author and times of the selected comment.\<close>

definition comment_at :: "string \<Rightarrow> pyval \<Rightarrow> int \<Rightarrow> int res" where
  "comment_at pre v i =
     check_as pre [get_is is_int v ''id'', item_eq v ''id'' (PInt i), get_eq v ''url'' (PStr (API @ ''/issues/comments/'' @ show_int i)),
       get_eq v ''issue_url'' (PStr (API @ ''/issues/'' @ show_int ISSUE)),
       get_eq v ''html_url'' (PStr (WEB @ ''/issues/'' @ show_int ISSUE @ ''#issuecomment-'' @ show_int i))] ''COMMENT_LOCATION'' (
     check_as pre [andthen (get v ''user'') owner, Inr (has_key ''performed_via_github_app'' v),
       item_is (\<lambda>x. x = PNone) v ''performed_via_github_app''] ''COMMENT_OWNER'' (
     andthen (andthen (get v ''created_at'') timestamp) (\<lambda>created.
     check_as pre [Inr (0 < created), eq_res (get v ''created_at'') (get v ''updated_at'')] ''COMMENT_EDITED'' (
     Inr created))))"

text \<open>
  The body: one command, the digest of its encoding (\<open>encode\<close> raises \<open>UnicodeError\<close> where \<open>None\<close>), and
  the canonical text of the declaration after the command.
\<close>

definition comment_declaration :: "string \<Rightarrow> (string \<Rightarrow> string option) \<Rightarrow> string \<Rightarrow> pyval \<Rightarrow> string \<Rightarrow> pyval res" where
  "comment_declaration pre encode command v body_sha256 =
     andthen (get v ''body'') (\<lambda>b.
     check_as pre [Inr (str_and (\<lambda>s. starts command s \<and> int (py_len s) \<le> LIMIT) b)] ''COMMENT_BODY'' (
     andthen (as_str b) (\<lambda>body.
     case encode body of None \<Rightarrow> Inl (Refused (pre @ ''COMMENT_BODY'')) | Some raw \<Rightarrow>
     check_as pre [Inr (sha256 raw = body_sha256)] ''COMMENT_DIGEST'' (
     andthen (parse (drop (length command) raw) LIMIT) (\<lambda>declaration.
     check_as pre [andthen (encoded declaration) (\<lambda>r. Inr (body = command @ (if endswith [CHR 0x0A] r then butlast r else r)))]
       ''COMMENT_ENCODING'' (Inr declaration))))))"

definition encode_utf8 :: "string \<Rightarrow> string option" where
  "encode_utf8 s = (if utf8_points False s = None then None else Some s)"

text \<open>The fields every declaration binds.\<close>

definition declared_scope :: "string \<Rightarrow> pyval \<Rightarrow> string \<Rightarrow> unit res" where
  "declared_scope pre declaration scope =
     check_as pre [item_is is_int declaration ''schema'', item_eq declaration ''schema'' (PInt 1), item_eq declaration ''scope'' (PStr scope),
       item_eq declaration ''repository'' (PStr REPOSITORY), eq_res (andthen (py_item declaration ''base'') source) (Inr BASE),
       item_eq declaration ''sourceRef'' (PStr SOURCE_REF), item_eq declaration ''policySha256'' (PStr POLICY_SHA256)] ''STATEMENT_SCOPE'' (
     andthen (andthen (py_item declaration ''reviewed'') source) (\<lambda>reviewed.
     check_as pre [item_is (\<lambda>x. \<not> py_eq x (PStr BASE_COMMIT)) reviewed ''commit'', item_is (\<lambda>x. \<not> py_eq x (PStr BASE_TREE)) reviewed ''tree'']
       ''REVIEWED_SOURCE'' (Inr ())))"

definition authority_of :: "int \<Rightarrow> string \<Rightarrow> pyval \<Rightarrow> pyval res" where
  "authority_of i body_sha256 v =
     andthen (py_item v ''html_url'') (\<lambda>url. andthen (py_item v ''created_at'') (\<lambda>created.
     Inr (PDict [(''id'', PInt i), (''url'', url), (''bodySha256'', PStr body_sha256), (''owner'', PStr OWNER_LOGIN),
       (''ownerId'', PInt OWNER_ID), (''createdAt'', created)])))"

definition STATEMENT_KEYS :: "string list" where
  "STATEMENT_KEYS = [''schema'', ''scope'', ''repository'', ''base'', ''reviewed'', ''sourceRef'', ''policySha256'', ''notBefore'', ''expiresAt'',
     ''bootstrap'', ''firstPullRequest'']"

definition statement :: "string \<Rightarrow> pyval \<Rightarrow> pyval \<Rightarrow> (pyval \<times> pyval \<times> int) res" where
  "statement comment_raw comment_id body_sha256 =
     check_as RECIPIENT [Inr (int_and (\<lambda>i. 0 < i \<and> i < 10 ^ 20) comment_id)] ''COMMENT_ID'' (
     check_as RECIPIENT [Inr (hexs 64 body_sha256)] ''COMMENT_DIGEST'' (
     andthen (as_int comment_id) (\<lambda>i. andthen (as_str body_sha256) (\<lambda>digest.
     andthen (parse comment_raw LIMIT) (\<lambda>v.
     andthen (comment_at RECIPIENT v i) (\<lambda>created.
     andthen (comment_declaration RECIPIENT encode_utf8 COMMAND v digest) (\<lambda>declaration.
     fields_as RECIPIENT declaration STATEMENT_KEYS ''STATEMENT_FIELDS'' (
     then_do (declared_scope RECIPIENT declaration SCOPE) (
     andthen (authority_of i digest v) (\<lambda>authority.
     Inr (declaration, authority, created)))))))))))"

section \<open>The run roster\<close>

definition merge_source :: "string \<Rightarrow> pyval \<Rightarrow> pyval \<Rightarrow> unit res" where
  "merge_source pre declaration first =
     andthen (andthen (py_item first ''merge'') source) (\<lambda>merged.
     check_as pre [
       andthen (py_item merged ''commit'') (\<lambda>c. andthen (path declaration [''reviewed'', ''commit'']) (\<lambda>r. Inr (\<not> py_in c [PStr BASE_COMMIT, r]))),
       eq_res (py_item merged ''tree'') (path declaration [''reviewed'', ''tree''])] ''PR_MERGE_SOURCE'' (Inr ()))"

text \<open>The sets of (profile, role) pairs and of Desktop and FULL runs.\<close>

type_synonym pair = "string \<times> string"
type_synonym slots = "pair list \<times> pair list \<times> pair list"

definition run_role :: "pyval \<Rightarrow> bool res" where
  "run_role entry = allof [item_is is_str entry ''profile'', item_is is_str entry ''role'',
     item_is (\<lambda>p. py_in p [PStr ''desktop'', PStr ''full'']) entry ''profile'',
     item_is (str_and (\<lambda>r. r \<in> set (map fst ROLES))) entry ''role'',
     andthen (item_eq entry ''profile'' (PStr ''full'')) (\<lambda>full. if \<not> full then Inr True else item_is (str_and (starts ''macos-'')) entry ''role'')]"

definition take_slot :: "string \<Rightarrow> string \<Rightarrow> string \<Rightarrow> string \<Rightarrow> pyval \<Rightarrow> slots \<Rightarrow> slots res" where
  "take_slot pre fields_code role_code duplicate entry = (\<lambda>(pairs, desktops, fulls).
     fields_as pre entry [''profile'', ''role'', ''runId'', ''runAttempt''] fields_code (
     check_as pre [run_role entry] role_code (
     andthen (str_item entry ''profile'') (\<lambda>profile. andthen (str_item entry ''role'') (\<lambda>role.
     check_as pre [Inr ((profile, role) \<notin> set pairs)] duplicate (
     andthen (run entry) (\<lambda>r.
     Inr (List.insert (profile, role) pairs,
          if profile = ''desktop'' then List.insert r desktops else desktops,
          if profile = ''desktop'' then fulls else List.insert r fulls))))))))"

definition desktop_roles :: "pair list \<Rightarrow> string list" where
  "desktop_roles pairs = remdups (map snd (filter (\<lambda>p. fst p = ''desktop'') pairs))"

definition BOOTSTRAP_RUN :: "string list" where
  "BOOTSTRAP_RUN = [''selection'', ''runId'', ''runAttempt'']"

text \<open>The sets of named selections, their cohorts and the run numbers used so far.\<close>

definition take_seed :: "pyval \<Rightarrow> string list \<times> pair list \<times> string list \<Rightarrow> (string list \<times> pair list \<times> string list) res" where
  "take_seed entry = (\<lambda>(selections, cohorts, ids).
     fields_as RECIPIENT entry BOOTSTRAP_RUN ''BOOTSTRAP_RUN_FIELDS'' (
     andthen (andthen (py_item entry ''selection'') selection) (\<lambda>(profile, role, _, _).
     andthen (str_item entry ''selection'') (\<lambda>sel.
     check_as RECIPIENT [Inr (sel \<notin> set selections)] ''DUPLICATE_USE'' (
     andthen (run entry) (\<lambda>(run_id, _).
     check_as RECIPIENT [Inr (run_id \<notin> set ids)] ''DUPLICATE_RUN'' (
     Inr (List.insert sel selections, List.insert (profile, role) cohorts, List.insert run_id ids))))))))"

definition list_of :: "(int \<Rightarrow> bool) \<Rightarrow> pyval \<Rightarrow> bool" where
  "list_of p v \<longleftrightarrow> is_list v \<and> p (len (elems v))"

definition roster :: "pyval \<Rightarrow> pyval res" where
  "roster declaration =
     andthen (py_item declaration ''firstPullRequest'') (\<lambda>first.
     fields_as RECIPIENT first [''number'', ''merge'', ''runs''] ''PR_FIELDS'' (
     andthen (andthen (py_item first ''number'') number) (\<lambda>_.
     then_do (merge_source RECIPIENT declaration first) (
     andthen (py_item first ''runs'') (\<lambda>entries.
     check_as RECIPIENT [Inr (list_of (\<lambda>n. n = 4) entries)] ''PR_RUN_ROSTER'' (
     andthen (loop (take_slot RECIPIENT ''PR_RUN_FIELDS'' ''PR_RUN_ROLE'' ''DUPLICATE_USE'') (elems entries) ([], [], [])) (\<lambda>(pairs, desktops, fulls).
     check_as RECIPIENT [Inr (len desktops = 1 \<and> len fulls = 1 \<and> len (desktop_roles pairs) = 3
         \<and> {''linux-x64'', ''windows-x64''} \<subseteq> set (desktop_roles pairs) \<and> len (filter (\<lambda>p. fst p = ''full'') pairs) = 1)] ''PR_RUN_ROSTER'' (
     let desktop = hd desktops; full = hd fulls in
     check_as RECIPIENT [Inr (fst desktop \<noteq> fst full)] ''DUPLICATE_RUN'' (
     andthen (py_item declaration ''bootstrap'') (\<lambda>seeds.
     check_as RECIPIENT [Inr (list_of (\<lambda>n. 1 \<le> n \<and> n \<le> len SELECTIONS) seeds)] ''BOOTSTRAP_ROSTER'' (
     andthen (loop take_seed (elems seeds) ([], [], [fst desktop, fst full])) (\<lambda>(selections, cohorts, ids).
     check_as RECIPIENT [Inr (set pairs \<subseteq> set cohorts)] ''MISSING_BOOTSTRAP_COHORT'' (
     Inr first)))))))))))))"

section \<open>One use\<close>

definition side_of :: "pyval \<Rightarrow> string \<Rightarrow> pyval \<Rightarrow> string \<Rightarrow> unit res" where
  "side_of pr name c branch =
     andthen (get pr name) (\<lambda>item.
     check_as RECIPIENT [Inr (is_dict item), get_eq item ''sha'' c, get_eq item ''ref'' (PStr branch), get_is is_dict item ''repo'',
       andthen (py_item item ''repo'') (\<lambda>r. get_eq r ''full_name'' (PStr REPOSITORY))] ''PR_BASE_OR_HEAD'' (Inr ()))"

definition current_pr :: "pyval \<Rightarrow> pyval \<Rightarrow> pyval \<Rightarrow> unit res" where
  "current_pr pr declaration first =
     andthen (py_item first ''number'') (\<lambda>n.
     check_as RECIPIENT [Inr (is_dict pr), get_is is_int pr ''number'', item_eq pr ''number'' n, get_eq pr ''state'' (PStr ''open''),
       get_is (\<lambda>x. py_is x False) pr ''merged'', eq_res (get pr ''merge_commit_sha'') (path first [''merge'', ''commit'']),
       andthen (get pr ''user'') owner, Inr (has_key ''auto_merge'' pr), item_is (\<lambda>x. x = PNone) pr ''auto_merge'',
       andthen (as_int n) (\<lambda>i. get_eq pr ''url'' (PStr (API @ ''/pulls/'' @ show_int i))),
       andthen (as_int n) (\<lambda>i. get_eq pr ''html_url'' (PStr (WEB @ ''/pull/'' @ show_int i)))] ''PR_CURRENT'' (
     then_do (side_of pr ''base'' (PStr BASE_COMMIT) ''main'') (
     andthen (path declaration [''reviewed'', ''commit'']) (\<lambda>head. side_of pr ''head'' head SOURCE_BRANCH))))"

definition GITHUB_USE :: "string list" where
  "GITHUB_USE = [''profile'', ''event'', ''ref'', ''workflow'', ''workflowSha'', ''job'', ''runId'', ''runAttempt'', ''runnerOS'', ''runnerArch'']"

text \<open>The roles whose host labels are the observed ones, and \<open>{key: v[key] for key in ...}\<close>\<close>

definition roles_of :: "pyval \<Rightarrow> string list res" where
  "roles_of github = andthen (py_item github ''runnerOS'') (\<lambda>os. andthen (py_item github ''runnerArch'') (\<lambda>arch.
     Inr (map fst (filter (\<lambda>(_, o1, a1). py_eq os (PStr o1) \<and> py_eq arch (PStr a1)) ROLES))))"

definition project :: "pyval \<Rightarrow> string list \<Rightarrow> pyval res" where
  "project v ks = andthen (each (\<lambda>k. andthen (py_item v k) (\<lambda>x. Inr (k, x))) ks) (\<lambda>d. Inr (PDict d))"

text \<open>\<open>v in d[k]\<close> for a list that was checked to be one\<close>

definition listed :: "pyval \<Rightarrow> pyval \<Rightarrow> string \<Rightarrow> bool res" where
  "listed v d k = andthen (py_item d k) (\<lambda>xs. Inr (py_in v (elems xs)))"

text \<open>What the selected use has to be: event, reference, workflow, job, system and architecture.\<close>

definition bootstrap_use :: "pyval \<Rightarrow> pyval \<Rightarrow> pyval \<Rightarrow> string list res" where
  "bootstrap_use observed declaration github =
     check_as RECIPIENT [eq_res (py_item observed ''source'') (py_item declaration ''reviewed''), item_is (\<lambda>x. x = PNone) observed ''mergeParents'']
       ''BOOTSTRAP_SOURCE'' (
     andthen (project github BOOTSTRAP_RUN) (\<lambda>selected.
     check_as RECIPIENT [listed selected declaration ''bootstrap''] ''UNLISTED_USE'' (
     andthen (andthen (py_item github ''selection'') selection) (\<lambda>(_, _, system, arch).
     Inr [''workflow_dispatch'', SOURCE_REF, Bootstrap_Identity.WORKFLOW, Bootstrap_Identity.JOB, system, arch]))))"

definition ordinary_use :: "pyval \<Rightarrow> pyval \<Rightarrow> pyval \<Rightarrow> pyval \<Rightarrow> string list res" where
  "ordinary_use observed declaration first github =
     andthen (path declaration [''reviewed'', ''commit'']) (\<lambda>head.
     check_as RECIPIENT [eq_res (py_item observed ''source'') (py_item first ''merge''),
       item_eq observed ''mergeParents'' (PList [PStr BASE_COMMIT, head])] ''PR_SOURCE'' (
     andthen (roles_of github) (\<lambda>roles.
     check_as RECIPIENT [Inr (len roles = 1)] ''HOST'' (
     let role = hd roles in
     andthen (str_item github ''profile'') (\<lambda>profile. andthen (py_item github ''runId'') (\<lambda>i. andthen (py_item github ''runAttempt'') (\<lambda>a.
     check_as RECIPIENT [listed (PDict [(''profile'', PStr profile), (''role'', PStr role), (''runId'', i), (''runAttempt'', a)]) first ''runs'']
       ''UNLISTED_USE'' (
     andthen (int_item first ''number'') (\<lambda>n.
     case (map_of ROLES role, map_of PROFILES profile) of
       (Some (system, arch), Some (workflow, job, _)) \<Rightarrow> Inr [''pull_request'', pull_ref n, workflow, job, system, arch]
     | _ \<Rightarrow> Inl KeyError)))))))))"

definition use_of :: "pyval \<Rightarrow> pyval \<Rightarrow> pyval \<Rightarrow> unit res" where
  "use_of observed declaration first =
     andthen (py_item observed ''github'') (\<lambda>github.
     check_as RECIPIENT [Inr (is_dict github)] ''GITHUB_FIELDS'' (
     andthen (get github ''profile'') (\<lambda>profile.
     check_as RECIPIENT [Inr (str_and (\<lambda>p. p \<in> {PROFILE, ''desktop'', ''full''}) profile)] ''PROFILE'' (
     fields_as RECIPIENT github (GITHUB_USE @ (if profile = PStr PROFILE then [''selection''] else [])) ''GITHUB_FIELDS'' (
     andthen (run github) (\<lambda>_.
     then_do (andthen (py_item observed ''pullRequest'') (\<lambda>pr. current_pr pr declaration first)) (
     andthen (if profile = PStr PROFILE then bootstrap_use observed declaration github
              else ordinary_use observed declaration first github) (\<lambda>execution.
     check_as RECIPIENT [
       andthen (each (py_item github) [''event'', ''ref'', ''workflow'', ''job'', ''runnerOS'', ''runnerArch'']) (\<lambda>vs. Inr (py_eqs vs (map PStr execution))),
       eq_res (py_item github ''workflowSha'') (path observed [''source'', ''commit''])] ''EXECUTION_BINDING'' (Inr ())))))))))"

section \<open>The match\<close>

text \<open>The policy of the reviewed head: absent at the base, present as an ordinary blob with the pinned digest.\<close>

definition candidate_blob :: "string \<Rightarrow> string \<Rightarrow> string \<Rightarrow> string \<Rightarrow> string \<Rightarrow> string res" where
  "candidate_blob pre base_policy_entry ancestry_raw candidate_policy_entry candidate_policy_raw =
     check_as pre [Inr (base_policy_entry = [])] ''BASE_POLICY_NOT_ABSENT'' (
     check_as pre [Inr (ancestry_raw \<in> {BASE_COMMIT @ [CHR 0x0A], BASE_COMMIT @ [CHR 0x0D, CHR 0x0A]})] ''BASE_ANCESTRY'' (
     check_as pre [Inr (len candidate_policy_entry \<le> 256)] ''POLICY_ENTRY'' (
     case blob_entry POLICY_PATH candidate_policy_entry of None \<Rightarrow> Inl (Refused (pre @ ''POLICY_ENTRY'')) | Some entry \<Rightarrow>
     check_as pre [Inr (0 < len candidate_policy_raw \<and> len candidate_policy_raw \<le> POLICY_LIMIT \<and> sha256 candidate_policy_raw = POLICY_SHA256)]
       ''POLICY_DIGEST'' (
     check_as pre [Inr (entry = git_blob candidate_policy_raw)] ''POLICY_BLOB'' (Inr entry)))))"

definition validity :: "pyval \<Rightarrow> pyval \<Rightarrow> pyval \<Rightarrow> int \<Rightarrow> int \<Rightarrow> bool res" where
  "validity pol declaration observed created now =
     andthen (py_item declaration ''notBefore'') (\<lambda>start. andthen (py_item declaration ''expiresAt'') (\<lambda>end1. andthen (py_item observed ''firstUseAt'') (\<lambda>began.
     allof [Inr (is_int start), Inr (is_int end1), Inr (is_int began),
       andthen (as_int start) (\<lambda>s. andthen (as_int end1) (\<lambda>e. andthen (as_int began) (\<lambda>b.
       andthen (int_item pol ''notBefore'') (\<lambda>p. andthen (int_item pol ''expiresAt'') (\<lambda>q.
       Inr (p \<le> s \<and> s \<le> b \<and> b \<le> now \<and> now < e \<and> e \<le> q \<and> e - s \<le> 14 * 24 * 60 * 60 \<and> 0 < created \<and> created \<le> b)))))),
       item_eq pol ''retrievalOwner'' (PStr OWNER_LOGIN)])))"

definition observed_source :: "string \<Rightarrow> string \<Rightarrow> pyval \<Rightarrow> pyval \<Rightarrow> unit res" where
  "observed_source pre code declaration observed =
     check_as pre [item_eq observed ''repository'' (PStr REPOSITORY), eq_res (andthen (py_item observed ''base'') source) (Inr BASE),
       eq_res (andthen (py_item observed ''reviewed'') source) (py_item declaration ''reviewed'')] code (
     andthen (andthen (py_item observed ''source'') source) (\<lambda>_. Inr ()))"

record originals =
  comment_raw :: string
  observation_raw :: string
  base_policy_entry :: string
  ancestry_raw :: string
  candidate_policy_entry :: string
  candidate_policy_raw :: string

definition match_record :: "pyval \<Rightarrow> pyval \<Rightarrow> pyval \<Rightarrow> string \<Rightarrow> pyval res" where
  "match_record declaration authority observed blob =
     andthen (py_item declaration ''reviewed'') (\<lambda>reviewed. andthen (py_item reviewed ''commit'') (\<lambda>head.
     andthen (project observed [''source'', ''github'', ''firstUseAt'']) (\<lambda>seen. andthen (project declaration [''notBefore'', ''expiresAt'']) (\<lambda>window.
     Inr (PDict ([(''schema'', PInt 1), (''scope'', PStr (SCOPE @ ''_MATCH_ONLY_NOT_ADMISSION'')), (''authority'', authority),
       (''originalBase'', BASE), (''reviewed'', reviewed)] @ items seen @ items window
       @ [(''policy'', PDict [(''commit'', head), (''blob'', PStr blob), (''path'', PStr POLICY_PATH), (''sha256'', PStr POLICY_SHA256)])]))))))"

text \<open>The result classes of this and of the staged matcher; a result is its class with its record.\<close>

datatype match_kind = Match | BootstrapMatch | OrdinaryMatch | JvmLibraryMatch

text \<open>A recheck against an expected result, by its class\<close>

definition recheck :: "string \<Rightarrow> match_kind \<Rightarrow> (match_kind \<times> string) option \<Rightarrow> string \<Rightarrow> (match_kind \<times> string) res" where
  "recheck pre kind expected record1 =
     check_as pre [Inr (case expected of None \<Rightarrow> True | Some (k, r) \<Rightarrow> k = kind \<and> record1 = r)] ''CHANGED_BEFORE_RECHECK'' (Inr (kind, record1))"

definition OBSERVATION_KEYS :: "string list" where
  "OBSERVATION_KEYS = [''repository'', ''base'', ''reviewed'', ''source'', ''github'', ''pullRequest'', ''mergeParents'', ''firstUseAt'']"

definition match :: "originals \<Rightarrow> pyval \<Rightarrow> pyval \<Rightarrow> int \<Rightarrow> (match_kind \<times> string) option \<Rightarrow> (match_kind \<times> string) res" where
  "match given comment_id body_sha256 now expected =
     andthen (statement (comment_raw given) comment_id body_sha256) (\<lambda>(declaration, authority, created).
     andthen (roster declaration) (\<lambda>first.
     andthen (parse (observation_raw given) LIMIT) (\<lambda>observed.
     fields_as RECIPIENT observed OBSERVATION_KEYS ''OBSERVATION_FIELDS'' (
     then_do (observed_source RECIPIENT ''OBSERVED_SOURCE'' declaration observed) (
     andthen (candidate_blob RECIPIENT (base_policy_entry given) (ancestry_raw given) (candidate_policy_entry given) (candidate_policy_raw given)) (\<lambda>blob.
     andthen (policy (candidate_policy_raw given) now) (\<lambda>(pol, _).
     check_as RECIPIENT [validity pol declaration observed created now] ''VALIDITY_OR_PRIOR_AUTHORITY'' (
     then_do (use_of observed declaration first) (
     andthen (match_record declaration authority observed blob) (\<lambda>r.
     andthen (encoded r) (\<lambda>record1.
     recheck RECIPIENT Match expected record1)))))))))))"

section \<open>Comment times\<close>

lemma days_before_month_step: "1 \<le> m \<Longrightarrow> days_before_month y (m + 1) = days_before_month y m + days_in_month y m"
  by (simp add: days_before_month_def upto_rec2)

lemma days_in_month_pos: "1 \<le> days_in_month y m"
  by (simp add: days_in_month_def)

lemma days_before_month_mono:
  assumes "1 \<le> m" "m \<le> n"
  shows "days_before_month y m \<le> days_before_month y n"
  using assms(2)
proof (induction n rule: int_ge_induct)
  case (step i)
  then show ?case using days_before_month_step [of i y] days_in_month_pos [of y i] assms(1) by linarith
qed simp

lemma div_step:
  assumes "0 < (k :: int)"
  shows "y div k - (y - 1) div k = (if y mod k = 0 then 1 else 0)"
proof -
  have y: "y - 1 = k * (y div k) + (y mod k - 1)" "0 \<le> y mod k" "y mod k < k"
    using assms by auto
  show ?thesis
  proof (cases "y mod k = 0")
    case True
    then have "y - 1 = k * (y div k - 1) + (k - 1)" using y(1) by (simp add: algebra_simps)
    then have "(y - 1) div k = y div k - 1" by (rule int_div_pos_eq) (use assms in auto)
    then show ?thesis using True by simp
  next
    case False
    have "(y - 1) div k = y div k" by (rule int_div_pos_eq [OF y(1)]) (use y False in auto)
    then show ?thesis using False by simp
  qed
qed

lemma leap_days:
  assumes "R \<Longrightarrow> Q" "Q \<Longrightarrow> P"
  shows "365 + (if P then 1 else 0) - (if Q then 1 else 0) + (if R then 1 else 0) = (if P \<and> (\<not> Q \<or> R) then 366 else 365 :: int)"
  using assms by (cases P; cases Q; cases R) simp_all

lemma year_length:
  "(y * 365 + a - b + c) - ((y - 1) * 365 + a' - b' + c') = 365 + (a - a') - (b - b') + (c - c' :: int)"
  by simp

lemma days_before_year_step: "days_before_year (y + 1) = days_before_year y + days_before_month y 13"
proof -
  have "days_before_month y 13 = (if is_leap y then 366 else 365)"
  proof -
    have "[1..13 - 1 :: int] = [1, 2, 3, 4, 5, 6, 7, 8, 9, 10, 11, 12]" by code_simp
    then show ?thesis unfolding days_before_month_def by (simp add: days_in_month_def)
  qed
  also have "\<dots> = days_before_year (y + 1) - days_before_year y"
    unfolding days_before_year_def Let_def add_diff_cancel_right' year_length div_step [OF zero_less_numeral] is_leap_def
  proof (rule leap_days [symmetric])
    show "y mod 400 = 0 \<Longrightarrow> y mod 100 = 0" using mod_mod_cancel [of 100 400 y] by simp
    show "y mod 100 = 0 \<Longrightarrow> y mod 4 = 0" using mod_mod_cancel [of 4 100 y] by simp
  qed
  finally show ?thesis by simp
qed

lemma days_before_year_mono:
  assumes "y \<le> z"
  shows "days_before_year y \<le> days_before_year z"
  using assms
proof (induction z rule: int_ge_induct)
  case (step i)
  have "0 \<le> days_before_month i 13"
    using days_before_month_mono [of 1 13 i] by (simp add: days_before_month_def)
  then show ?case using step days_before_year_step [of i] by linarith
qed simp

definition valid_date :: "int \<Rightarrow> int \<Rightarrow> int \<Rightarrow> bool" where
  "valid_date y m d \<longleftrightarrow> 1 \<le> m \<and> m \<le> 12 \<and> 1 \<le> d \<and> d \<le> days_in_month y m"

lemma ordinal_in_year:
  assumes "valid_date y m d"
  shows "days_before_year y < ordinal y m d" "ordinal y m d \<le> days_before_year (y + 1)"
    "days_before_year y + days_before_month y m < ordinal y m d"
    "ordinal y m d \<le> days_before_year y + days_before_month y (m + 1)"
proof -
  have v: "1 \<le> m" "m \<le> 12" "1 \<le> d" "d \<le> days_in_month y m" using assms by (auto simp: valid_date_def)
  have "0 \<le> days_before_month y m" using days_before_month_mono [of 1 m y] v by (simp add: days_before_month_def)
  moreover have "days_before_month y (m + 1) \<le> days_before_month y 13" using days_before_month_mono [of "m + 1" 13 y] v by simp
  ultimately show "days_before_year y < ordinal y m d" "ordinal y m d \<le> days_before_year (y + 1)"
    "days_before_year y + days_before_month y m < ordinal y m d"
    "ordinal y m d \<le> days_before_year y + days_before_month y (m + 1)"
    using v days_before_month_step [of m y] days_before_year_step [of y] by (auto simp: ordinal_def)
qed

lemma ordinal_less:
  assumes "valid_date y m d" "valid_date y' m' d'" "y < y' \<or> y = y' \<and> (m < m' \<or> m = m' \<and> d < d')"
  shows "ordinal y m d < ordinal y' m' d'"
  using assms(3)
proof (elim disjE conjE)
  assume "y < y'"
  then show ?thesis
    using ordinal_in_year(2) [OF assms(1)] ordinal_in_year(1) [OF assms(2)] days_before_year_mono [of "y + 1" y'] by simp
next
  assume "y = y'" "m < m'"
  moreover have "1 \<le> m" using assms(1) by (simp add: valid_date_def)
  ultimately show ?thesis
    using ordinal_in_year(4) [OF assms(1)] ordinal_in_year(3) [OF assms(2)] days_before_month_mono [of "m + 1" m' y] by simp
qed (simp add: ordinal_def)

lemma valid_time_date: "valid_time y m d h mi s \<Longrightarrow> valid_date y m d"
  by (simp add: valid_time_def valid_date_def)

lemma utc_seconds_less:
  assumes "valid_time y m d h mi s" "valid_time y' m' d' h' mi' s'"
    and "([y, m, d, h, mi, s], [y', m', d', h', mi', s']) \<in> lexord {(a, b). a < b}"
  shows "utc_seconds y m d h mi s < utc_seconds y' m' d' h' mi' s'"
proof (cases "(y, m, d) = (y', m', d')")
  case True
  then show ?thesis using assms by (auto simp: utc_seconds_def valid_time_def)
next
  case False
  then have "ordinal y m d < ordinal y' m' d'"
    using ordinal_less [OF valid_time_date [OF assms(1)] valid_time_date [OF assms(2)]] assms(3) by auto
  then have "ordinal y m d * 86400 + 86400 \<le> ordinal y' m' d' * 86400" by simp
  then show ?thesis using assms(1,2) unfolding utc_seconds_def valid_time_def left_diff_distrib by linarith
qed

lemma timestamp_ok:
  "timestamp v = Inr t \<longleftrightarrow> (\<exists>x y m d h mi s. v = PStr x \<and> shape ''####-##-##T##:##:##Z'' x \<and> time_fields x = [y, m, d, h, mi, s]
     \<and> valid_time y m d h mi s \<and> t = utc_seconds y m d h mi s)"
  by (auto simp: timestamp_def check_as_def ok_iff str_and_iff time_fields_def)

text \<open>
  C25: the recorded comment times are ordered exactly as their calendar fields (year, month, day, hour,
  minute, second) are, and two accepted times are the same second exactly when their fields agree; so
  "created before first use" is a comparison of the recorded calendar times.
\<close>

theorem timestamp_order:
  assumes "timestamp (PStr a) = Inr s" "timestamp (PStr b) = Inr t"
  shows "(s < t \<longleftrightarrow> (time_fields a, time_fields b) \<in> lexord {(x, y). x < y}) \<and> (s = t \<longleftrightarrow> time_fields a = time_fields b)"
proof -
  have less: "s < t" if "timestamp (PStr a) = Inr s" "timestamp (PStr b) = Inr t"
    "(time_fields a, time_fields b) \<in> lexord {(x, y). x < y}" for a b s t
    using that utc_seconds_less unfolding timestamp_ok by (elim exE conjE) (simp only: pyval.inject)
  have same: "s = t" if "time_fields a = time_fields b"
    using assms that unfolding timestamp_ok by (elim exE conjE) simp
  have "(time_fields a, time_fields b) \<in> lexord {(x, y). x < y} \<or> time_fields a = time_fields b
      \<or> (time_fields b, time_fields a) \<in> lexord {(x, y). x < y}"
    by (rule lexord_linear) auto
  then show ?thesis using less [OF assms] less [OF assms(2,1)] same by fastforce
qed

lemma sample_times:
  "timestamp (PStr ''2026-02-28T23:59:59Z'') = Inr 1772323199" "timestamp (PStr ''2026-03-01T00:00:00Z'') = Inr 1772323200"
  by code_simp+

theorem timestamp_order_witness:
  "(time_fields ''2026-02-28T23:59:59Z'', time_fields ''2026-03-01T00:00:00Z'') \<in> lexord {(x, y). x < y}"
  using timestamp_order [OF sample_times] by simp

end
