(* ===== verification/Recipient_Stages.thy ===== *)
theory Recipient_Stages
  imports Recipient_Exception
begin

text \<open>
  The two staged matchers of the initial recipient, \<^verbatim>\<open>src/scripts/hosted_initial_recipient_stages.py\<close>: the
  bootstrap stage without a pull request, and the ordinary and JVM stage that binds four historical
  bootstrap matches at their own completion times.  A history is the record of its retained originals.

  The lemmas show what an accepted ordinary roster is, that a recheck returns exactly the expected
  result, and that every retained history was itself a bootstrap match at its original time.
\<close>

section \<open>Constants\<close>

definition STAGE1 :: string where "STAGE1 = ''P2PKIT_INITIAL_RECIPIENT_BOOTSTRAP_STAGE1_V1''"
definition STAGE2 :: string where "STAGE2 = ''P2PKIT_INITIAL_RECIPIENT_ORDINARY_STAGE2_V2''"

definition COMMANDS :: "(string \<times> string) list" where
  "COMMANDS = [(STAGE1, ''/p2pkit authorize-initial-bootstrap ''), (STAGE2, ''/p2pkit authorize-initial-ordinary '')]"

definition ENVIRONMENT :: string where "ENVIRONMENT = ''initial-recipient-execution''"
definition BRANCHES :: "string list" where "BRANCHES = [SOURCE_BRANCH, ''refs/pull/*/merge'']"

definition COMMON :: "string list" where
  "COMMON = [''schema'', ''scope'', ''repository'', ''base'', ''reviewed'', ''sourceRef'', ''policySha256'', ''notBefore'', ''expiresAt'', ''environment'']"

definition JVM_PROFILE :: string where "JVM_PROFILE = ''jvm-library''"
definition JVM_WORKFLOW :: string where "JVM_WORKFLOW = ''.github/workflows/ci.yml''"
definition JVM_JOB :: string where "JVM_JOB = ''jvm-library-checks''"
definition JVM_ROLES :: "string list" where "JVM_ROLES = [''linux-x64'', ''windows-x64'']"

definition JVM_MATCH_SCOPE :: string where
  "JVM_MATCH_SCOPE = STAGE2 @ ''_JVM_LIBRARY_MATCH_ONLY_NOT_ADMISSION''"

definition STAGES :: string where "STAGES = ''INITIAL_STAGES_''"

record BootstrapHistory = originals +
  completed_at :: pyval
  expected_match :: "match_kind \<times> string"

section \<open>The statement\<close>

definition digest :: "pyval \<Rightarrow> string res" where
  "digest v = check_as STAGES [Inr (hexs 64 v)] ''DIGEST'' (as_str v)"

definition positive :: "pyval \<Rightarrow> int res" where
  "positive v = check_as STAGES [Inr (int_and (\<lambda>i. 0 < i \<and> i < 10 ^ 20) v)] ''POSITIVE_ID'' (as_int v)"

definition branch_policy :: "pyval \<times> string \<Rightarrow> int list \<Rightarrow> int list res" where
  "branch_policy = (\<lambda>(pol, name) ids.
     fields_as STAGES pol [''id'', ''name'', ''type''] ''ENVIRONMENT_BRANCH_FIELDS'' (
     andthen (andthen (py_item pol ''id'') positive) (\<lambda>i.
     check_as STAGES [item_eq pol ''type'' (PStr ''branch''), item_eq pol ''name'' (PStr name), Inr (i \<notin> set ids)] ''ENVIRONMENT_BRANCHES'' (
     Inr (List.insert i ids)))))"

definition environment :: "pyval \<Rightarrow> pyval res" where
  "environment v =
     fields_as STAGES v [''name'', ''id'', ''branchPolicies''] ''ENVIRONMENT_FIELDS'' (
     check_as STAGES [item_eq v ''name'' (PStr ENVIRONMENT)] ''ENVIRONMENT_NAME'' (
     andthen (andthen (py_item v ''id'') positive) (\<lambda>_.
     andthen (py_item v ''branchPolicies'') (\<lambda>policies.
     check_as STAGES [Inr (list_of (\<lambda>n. n = 2) policies)] ''ENVIRONMENT_BRANCHES'' (
     andthen (loop branch_policy (zip (elems policies) BRANCHES) []) (\<lambda>_. Inr v))))))"

definition encode_ascii :: "string \<Rightarrow> string option" where
  "encode_ascii s = (if list_all (\<lambda>c. cc c < 128) s then Some s else None)"

definition statement :: "string \<Rightarrow> string \<Rightarrow> pyval \<Rightarrow> pyval \<Rightarrow> (pyval \<times> pyval \<times> int) res" where
  "statement stage raw comment_id body_sha256 =
     (case map_of COMMANDS stage of None \<Rightarrow> Inl (Refused (STAGES @ ''STAGE'')) | Some command \<Rightarrow>
     andthen (positive comment_id) (\<lambda>i.
     andthen (digest body_sha256) (\<lambda>body_digest.
     andthen (parse raw LIMIT) (\<lambda>v.
     andthen (comment_at STAGES v i) (\<lambda>created.
     andthen (comment_declaration STAGES encode_ascii command v body_digest) (\<lambda>declaration.
     fields_as STAGES declaration (COMMON @ (if stage = STAGE1 then [''bootstrap''] else [''firstPullRequest'', ''stage1'', ''qualifications'']))
       ''STATEMENT_FIELDS'' (
     then_do (declared_scope STAGES declaration stage) (
     andthen (andthen (py_item declaration ''environment'') environment) (\<lambda>_.
     andthen (authority_of i body_digest v) (\<lambda>authority.
     Inr (declaration, authority, created)))))))))))"

section \<open>Rosters\<close>

definition take_bootstrap :: "pyval \<Rightarrow> string list \<times> string list \<Rightarrow> (string list \<times> string list) res" where
  "take_bootstrap entry = (\<lambda>(selections, ids).
     fields_as STAGES entry BOOTSTRAP_RUN ''BOOTSTRAP_RUN_FIELDS'' (
     andthen (andthen (py_item entry ''selection'') selection) (\<lambda>_.
     andthen (run entry) (\<lambda>(run_id, _).
     andthen (str_item entry ''selection'') (\<lambda>sel.
     check_as STAGES [Inr (sel \<notin> set selections \<and> run_id \<notin> set ids)] ''DUPLICATE_BOOTSTRAP'' (
     Inr (List.insert sel selections, List.insert run_id ids)))))))"

definition bootstrap_roster :: "pyval \<Rightarrow> pyval res" where
  "bootstrap_roster entries =
     check_as STAGES [Inr (list_of (\<lambda>n. 1 \<le> n \<and> n \<le> len SELECTIONS) entries)] ''BOOTSTRAP_ROSTER'' (
     andthen (loop take_bootstrap (elems entries) ([], [])) (\<lambda>_. Inr entries))"

definition take_jvm :: "pair \<Rightarrow> pyval \<Rightarrow> string list \<Rightarrow> string list res" where
  "take_jvm full_run entry roles =
     fields_as STAGES entry [''role'', ''runId'', ''runAttempt''] ''JVM_RUN_FIELDS'' (
     check_as STAGES [item_is (str_and (\<lambda>r. r \<in> set JVM_ROLES)) entry ''role''] ''JVM_ROLE'' (
     andthen (str_item entry ''role'') (\<lambda>role.
     check_as STAGES [Inr (role \<notin> set roles)] ''DUPLICATE_JVM'' (
     andthen (run entry) (\<lambda>r.
     check_as STAGES [Inr (r = full_run)] ''JVM_CI_RUN'' (Inr (List.insert role roles)))))))"

definition ordinary_roster :: "pyval \<Rightarrow> (pyval \<times> pair list) res" where
  "ordinary_roster declaration =
     andthen (py_item declaration ''firstPullRequest'') (\<lambda>first.
     fields_as STAGES first [''number'', ''merge'', ''runs'', ''jvmRuns''] ''PR_FIELDS'' (
     andthen (andthen (py_item first ''number'') number) (\<lambda>_.
     then_do (merge_source STAGES declaration first) (
     andthen (py_item first ''runs'') (\<lambda>entries.
     check_as STAGES [Inr (list_of (\<lambda>n. n = 4) entries)] ''ORDINARY_ROSTER'' (
     andthen (loop (take_slot STAGES ''ORDINARY_RUN_FIELDS'' ''ORDINARY_ROLE'' ''DUPLICATE_ORDINARY'') (elems entries) ([], [], [])) (\<lambda>(pairs, desktops, fulls).
     check_as STAGES [Inr (len desktops = 1 \<and> len fulls = 1 \<and> len (desktop_roles pairs) = 3
         \<and> {''linux-x64'', ''windows-x64''} \<subseteq> set (desktop_roles pairs) \<and> len pairs = 4)] ''ORDINARY_ROSTER'' (
     check_as STAGES [Inr (fst (hd desktops) \<noteq> fst (hd fulls))] ''DUPLICATE_ORDINARY_RUN'' (
     andthen (py_item first ''jvmRuns'') (\<lambda>jvm_entries.
     check_as STAGES [Inr (list_of (\<lambda>n. n = 2) jvm_entries)] ''JVM_ROSTER'' (
     andthen (loop (take_jvm (hd fulls)) (elems jvm_entries) []) (\<lambda>jvm_roles.
     check_as STAGES [Inr (set jvm_roles = set JVM_ROLES)] ''JVM_ROSTER'' (
     Inr (first, pairs))))))))))))))"

section \<open>The bootstrap stage\<close>

definition policy_of :: "pyval \<Rightarrow> pyval \<Rightarrow> int \<Rightarrow> 'a originals_scheme \<Rightarrow> int \<Rightarrow> pyval res" where
  "policy_of declaration observed created given now =
     then_do (observed_source STAGES ''CURRENT_SOURCE'' declaration observed) (
     andthen (candidate_blob STAGES (base_policy_entry given) (ancestry_raw given) (candidate_policy_entry given) (candidate_policy_raw given)) (\<lambda>blob.
     andthen (policy (candidate_policy_raw given) now) (\<lambda>(pol, _).
     check_as STAGES [validity pol declaration observed created now] ''VALIDITY_OR_PRIOR_AUTHORITY'' (
     andthen (path declaration [''reviewed'', ''commit'']) (\<lambda>head.
     Inr (PDict [(''origin'', PStr ''reviewed-head''), (''commit'', head), (''blob'', PStr blob), (''path'', PStr POLICY_PATH),
       (''sha256'', PStr POLICY_SHA256)]))))))"

definition result_of :: "match_kind \<Rightarrow> string \<Rightarrow> pyval \<Rightarrow> pyval \<Rightarrow> pyval \<Rightarrow> pyval \<Rightarrow> (match_kind \<times> string) option
    \<Rightarrow> (string \<times> pyval) list \<Rightarrow> (match_kind \<times> string) res" where
  "result_of kind stage declaration authority observed pol expected extra =
     check_as STAGES [Inr (kind = JvmLibraryMatch \<longrightarrow> stage = STAGE2)] ''JVM_SCOPE'' (
     let scope = (if kind = JvmLibraryMatch then JVM_MATCH_SCOPE else stage @ ''_MATCH_ONLY_NOT_ADMISSION'') in
     andthen (project declaration [''reviewed'', ''notBefore'', ''expiresAt'', ''environment'']) (\<lambda>declared.
     andthen (project observed [''source'', ''github'', ''firstUseAt'']) (\<lambda>seen.
     andthen (encoded (PDict ([(''schema'', PInt 1), (''scope'', PStr scope), (''authority'', authority), (''originalBase'', BASE),
       (''policy'', pol)] @ items declared @ items seen @ extra))) (\<lambda>record1.
     recheck STAGES kind expected record1))))"

definition BOOTSTRAP_OBSERVATION :: "string list" where
  "BOOTSTRAP_OBSERVATION = [''repository'', ''base'', ''reviewed'', ''source'', ''github'', ''firstUseAt'']"

definition bootstrap_execution :: "pyval \<Rightarrow> pyval \<Rightarrow> unit res" where
  "bootstrap_execution declaration observed =
     andthen (py_item observed ''github'') (\<lambda>github.
     fields_as STAGES github (GITHUB_USE @ [''selection'']) ''BOOTSTRAP_GITHUB_FIELDS'' (
     andthen (run github) (\<lambda>_.
     andthen (project github BOOTSTRAP_RUN) (\<lambda>slot.
     check_as STAGES [listed slot declaration ''bootstrap''] ''UNLISTED_BOOTSTRAP'' (
     andthen (andthen (py_item github ''selection'') selection) (\<lambda>(_, _, system, arch).
     check_as STAGES [eq_res (py_item observed ''source'') (py_item declaration ''reviewed''),
       andthen (path declaration [''reviewed'', ''commit'']) (\<lambda>head.
       andthen (each (py_item github) [''profile'', ''event'', ''ref'', ''workflow'', ''job'', ''runnerOS'', ''runnerArch'', ''workflowSha'']) (\<lambda>vs.
       Inr (py_eqs vs [PStr PROFILE, PStr ''workflow_dispatch'', PStr SOURCE_REF, PStr WORKFLOW, PStr JOB, PStr system, PStr arch, head])))]
       ''BOOTSTRAP_EXECUTION'' (Inr ())))))))"

definition match_bootstrap :: "'a originals_scheme \<Rightarrow> pyval \<Rightarrow> pyval \<Rightarrow> int \<Rightarrow> (match_kind \<times> string) option \<Rightarrow> (match_kind \<times> string) res" where
  "match_bootstrap given comment_id body_sha256 now expected =
     andthen (statement STAGE1 (comment_raw given) comment_id body_sha256) (\<lambda>(declaration, authority, created).
     andthen (andthen (py_item declaration ''bootstrap'') bootstrap_roster) (\<lambda>_.
     andthen (parse (observation_raw given) LIMIT) (\<lambda>observed.
     fields_as STAGES observed BOOTSTRAP_OBSERVATION ''BOOTSTRAP_OBSERVATION_FIELDS'' (
     andthen (policy_of declaration observed created given now) (\<lambda>pol.
     then_do (bootstrap_execution declaration observed) (
     result_of BootstrapMatch STAGE1 declaration authority observed pol expected []))))))"

section \<open>The ordinary stage\<close>

definition reference :: "pyval \<Rightarrow> int \<Rightarrow> unit res" where
  "reference v maximum =
     fields_as STAGES v [''bytes'', ''sha256''] ''REFERENCE_FIELDS'' (
     check_as STAGES [item_is (int_and (\<lambda>n. 0 < n \<and> n \<le> maximum)) v ''bytes''] ''REFERENCE_SIZE'' (
     andthen (andthen (py_item v ''sha256'') digest) (\<lambda>_. Inr ())))"

definition comment_reference :: "pyval \<Rightarrow> unit res" where
  "comment_reference v =
     fields_as STAGES v [''commentId'', ''bytes'', ''sha256''] ''COMMENT_REFERENCE_FIELDS'' (
     andthen (andthen (py_item v ''commentId'') positive) (\<lambda>_.
     andthen (project v [''bytes'', ''sha256'']) (\<lambda>r. reference r (4 * 1024 * 1024))))"

definition QUALIFICATION_KEYS :: "string list" where
  "QUALIFICATION_KEYS = BOOTSTRAP_RUN @ [''completedAt'', ''packet'', ''inventory'', ''compatibility'', ''review'']"

text \<open>The covered cohorts, run numbers and artifacts, and the retained digests.\<close>

type_synonym qualified_state = "pair list \<times> string list \<times> int list \<times> pyval list"

definition packet_id :: "pyval \<Rightarrow> int list \<Rightarrow> int res" where
  "packet_id entry artifacts =
     andthen (py_item entry ''packet'') (\<lambda>packet.
     fields_as STAGES packet [''artifactId'', ''bytes'', ''sha256''] ''PACKET_FIELDS'' (
     andthen (andthen (py_item packet ''artifactId'') positive) (\<lambda>i.
     check_as STAGES [Inr (i \<notin> set artifacts)] ''DUPLICATE_PACKET'' (
     then_do (andthen (project packet [''bytes'', ''sha256'']) (\<lambda>r. reference r (512 * 1024 * 1024))) (Inr i)))))"

definition historical :: "pyval \<Rightarrow> pyval \<Rightarrow> pyval \<Rightarrow> pyval \<Rightarrow> BootstrapHistory \<Rightarrow> int \<Rightarrow> pyval res" where
  "historical declaration prior prior_source entry history created =
     check_as STAGES [Inr (fst (expected_match history) = BootstrapMatch)] ''HISTORICAL_RECORD_TYPE'' (
     check_as STAGES [item_is is_int entry ''completedAt'', Inr (is_int (completed_at history)),
       andthen (as_int (completed_at history)) (\<lambda>t. andthen (int_item entry ''completedAt'') (\<lambda>u. Inr (0 < t \<and> t = u \<and> u < created)))]
       ''QUALIFICATION_BEFORE_AUTHORITY'' (
     andthen (as_int (completed_at history)) (\<lambda>completed.
     andthen (py_item prior ''commentId'') (\<lambda>i. andthen (py_item prior ''bodySha256'') (\<lambda>body_sha256.
     andthen (match_bootstrap history i body_sha256 completed (Some (expected_match history))) (\<lambda>(_, checked).
     andthen (parse checked LIMIT) (\<lambda>v.
     check_as STAGES ([item_eq v ''reviewed'' prior_source, eq_res (py_item v ''environment'') (py_item declaration ''environment'')]
       @ map (\<lambda>k. eq_res (path v [''github'', k]) (py_item entry k)) BOOTSTRAP_RUN) ''HISTORICAL_SOURCE_OR_USE'' (
     andthen (py_item entry ''selection'') (\<lambda>sel.
     Inr (PDict [(''selection'', sel), (''recordSha256'', PStr (sha256 checked))]))))))))))"

definition take_history :: "pyval \<Rightarrow> pyval \<Rightarrow> pyval \<Rightarrow> pair list \<Rightarrow> string list \<Rightarrow> int \<Rightarrow> pyval \<times> BootstrapHistory \<Rightarrow> qualified_state
    \<Rightarrow> qualified_state res" where
  "take_history declaration prior prior_source pairs ordinary_ids created = (\<lambda>(entry, history) (covered, ids, artifacts, retained).
     fields_as STAGES entry QUALIFICATION_KEYS ''QUALIFICATION_FIELDS'' (
     andthen (andthen (py_item entry ''selection'') selection) (\<lambda>(profile, role, _, _).
     andthen (run entry) (\<lambda>(run_id, _).
     check_as STAGES [Inr ((profile, role) \<in> set pairs \<and> (profile, role) \<notin> set covered \<and> run_id \<notin> set ids \<union> set ordinary_ids)]
       ''QUALIFICATION_COHORT_OR_RUN'' (
     andthen (packet_id entry artifacts) (\<lambda>artifact.
     then_do (check_each (\<lambda>k. andthen (py_item entry k) comment_reference) [''inventory'', ''compatibility'', ''review'']) (
     andthen (historical declaration prior prior_source entry history created) (\<lambda>r.
     Inr (List.insert (profile, role) covered, List.insert run_id ids, List.insert artifact artifacts, retained @ [r])))))))))"

definition prior_source_of :: "pyval \<Rightarrow> pyval \<Rightarrow> string \<Rightarrow> pyval res" where
  "prior_source_of declaration prior prior_ancestry_raw =
     fields_as STAGES prior [''commentId'', ''bodySha256'', ''reviewed''] ''STAGE1_REFERENCE_FIELDS'' (
     andthen (andthen (py_item prior ''commentId'') positive) (\<lambda>_.
     andthen (andthen (py_item prior ''bodySha256'') digest) (\<lambda>_.
     andthen (andthen (py_item prior ''reviewed'') source) (\<lambda>src.
     check_as STAGES [andthen (eq_res (py_item src ''commit'') (path declaration [''reviewed'', ''commit''])) (\<lambda>e. Inr (\<not> e))] ''SEPARATE_REVIEWED_HEADS'' (
     check_as STAGES [andthen (str_item src ''commit'') (\<lambda>c. Inr (prior_ancestry_raw \<in> {c @ [CHR 0x0A], c @ [CHR 0x0D, CHR 0x0A]}))] ''STAGE1_ANCESTRY'' (
     Inr src))))))"

definition histories_of :: "pyval \<Rightarrow> pair list \<Rightarrow> BootstrapHistory list \<Rightarrow> int \<Rightarrow> string \<Rightarrow> pyval list res" where
  "histories_of declaration pairs histories created prior_ancestry_raw =
     andthen (py_item declaration ''stage1'') (\<lambda>prior.
     andthen (prior_source_of declaration prior prior_ancestry_raw) (\<lambda>src.
     andthen (py_item declaration ''qualifications'') (\<lambda>entries.
     check_as STAGES [Inr (list_of (\<lambda>n. n = 4) entries \<and> len histories = 4)] ''QUALIFICATION_ROSTER'' (
     andthen (andthen (path declaration [''firstPullRequest'', ''runs'']) (\<lambda>runs. each (\<lambda>x. str_item x ''runId'') (elems runs))) (\<lambda>ordinary_ids.
     andthen (loop (take_history declaration prior src pairs ordinary_ids created) (zip (elems entries) histories) ([], [], [], [])) (\<lambda>(covered, ids, artifacts, retained).
     check_as STAGES [Inr (set covered = set pairs)] ''MISSING_QUALIFICATION_COHORT'' (Inr retained)))))))"

definition ORDINARY_OBSERVATION :: "string list" where
  "ORDINARY_OBSERVATION = BOOTSTRAP_OBSERVATION @ [''pullRequest'', ''mergeParents'']"

type_synonym stage2 = "pyval \<times> pyval \<times> int \<times> pyval \<times> pyval \<times> pyval \<times> pair list"

definition stage2_context :: "originals \<Rightarrow> pyval \<Rightarrow> pyval \<Rightarrow> int \<Rightarrow> stage2 res" where
  "stage2_context given comment_id body_sha256 now =
     andthen (statement STAGE2 (comment_raw given) comment_id body_sha256) (\<lambda>(declaration, authority, created).
     andthen (ordinary_roster declaration) (\<lambda>(first, pairs).
     andthen (parse (observation_raw given) LIMIT) (\<lambda>observed.
     fields_as STAGES observed ORDINARY_OBSERVATION ''ORDINARY_OBSERVATION_FIELDS'' (
     andthen (policy_of declaration observed created given now) (\<lambda>pol.
     andthen (py_item observed ''github'') (\<lambda>github.
     fields_as STAGES github GITHUB_USE ''ORDINARY_GITHUB_FIELDS'' (
     andthen (run github) (\<lambda>_.
     then_do (andthen (py_item observed ''pullRequest'') (\<lambda>pr. current_pr pr declaration first)) (
     andthen (path declaration [''reviewed'', ''commit'']) (\<lambda>head.
     check_as STAGES [eq_res (py_item observed ''source'') (py_item first ''merge''),
       item_eq observed ''mergeParents'' (PList [PStr BASE_COMMIT, head])] ''ORDINARY_MERGE'' (
     Inr (declaration, authority, created, observed, pol, first, pairs))))))))))))"

text \<open>\<open>(event, ref, workflow, job, workflowSha) == ("pull_request", refs/pull/N/merge, ...)\<close>\<close>

definition executes :: "pyval \<Rightarrow> pyval \<Rightarrow> string \<Rightarrow> string \<Rightarrow> bool res" where
  "executes github first workflow job =
     andthen (int_item first ''number'') (\<lambda>n. andthen (path first [''merge'', ''commit'']) (\<lambda>c.
     andthen (each (py_item github) [''event'', ''ref'', ''workflow'', ''job'', ''workflowSha'']) (\<lambda>vs.
     Inr (py_eqs vs [PStr ''pull_request'', PStr (pull_ref n), PStr workflow, PStr job, c]))))"

definition stage2_result :: "match_kind \<Rightarrow> stage2 \<Rightarrow> BootstrapHistory list \<Rightarrow> string \<Rightarrow> (match_kind \<times> string) option \<Rightarrow> (match_kind \<times> string) res" where
  "stage2_result kind context histories prior_ancestry_raw expected =
     (case context of (declaration, authority, created, observed, pol, first, pairs) \<Rightarrow>
      andthen (histories_of declaration pairs histories created prior_ancestry_raw) (\<lambda>retained.
      andthen (project declaration [''stage1'', ''qualifications'']) (\<lambda>references.
      result_of kind STAGE2 declaration authority observed pol expected (items references @
        [(''historicalRecords'', PList retained), (''qualificationAcceptance'', PStr ''NOT_ESTABLISHED_BY_REFERENCE_MATCH'')]))))"

definition match_ordinary :: "originals \<Rightarrow> pyval \<Rightarrow> pyval \<Rightarrow> int \<Rightarrow> BootstrapHistory list \<Rightarrow> string
    \<Rightarrow> (match_kind \<times> string) option \<Rightarrow> (match_kind \<times> string) res" where
  "match_ordinary given comment_id body_sha256 now histories prior_ancestry_raw expected =
     andthen (stage2_context given comment_id body_sha256 now) (\<lambda>context.
     case context of (declaration, authority, created, observed, pol, first, pairs) \<Rightarrow>
     andthen (py_item observed ''github'') (\<lambda>github.
     andthen (roles_of github) (\<lambda>roles.
     check_as STAGES [Inr (len roles = 1), item_is (str_and (\<lambda>p. p \<in> set (map fst PROFILES))) github ''profile''] ''ORDINARY_HOST'' (
     andthen (str_item github ''profile'') (\<lambda>profile. andthen (py_item github ''runId'') (\<lambda>i. andthen (py_item github ''runAttempt'') (\<lambda>a.
     check_as STAGES [listed (PDict [(''profile'', PStr profile), (''role'', PStr (hd roles)), (''runId'', i), (''runAttempt'', a)]) first ''runs'']
       ''UNLISTED_ORDINARY'' (
     case map_of PROFILES profile of None \<Rightarrow> Inl KeyError | Some (workflow, job, _) \<Rightarrow>
     check_as STAGES [executes github first workflow job] ''ORDINARY_EXECUTION'' (
     stage2_result OrdinaryMatch context histories prior_ancestry_raw expected)))))))))"

definition match_jvm_library :: "originals \<Rightarrow> pyval \<Rightarrow> pyval \<Rightarrow> int \<Rightarrow> BootstrapHistory list \<Rightarrow> string
    \<Rightarrow> (match_kind \<times> string) option \<Rightarrow> (match_kind \<times> string) res" where
  "match_jvm_library given comment_id body_sha256 now histories prior_ancestry_raw expected =
     andthen (stage2_context given comment_id body_sha256 now) (\<lambda>context.
     case context of (declaration, authority, created, observed, pol, first, pairs) \<Rightarrow>
     andthen (py_item observed ''github'') (\<lambda>github.
     check_as STAGES [item_eq github ''profile'' (PStr JVM_PROFILE)] ''JVM_PROFILE'' (
     andthen (roles_of github) (\<lambda>roles.
     check_as STAGES [Inr (len roles = 1 \<and> hd roles \<in> set JVM_ROLES)] ''JVM_HOST'' (
     andthen (py_item github ''runId'') (\<lambda>i. andthen (py_item github ''runAttempt'') (\<lambda>a.
     check_as STAGES [listed (PDict [(''role'', PStr (hd roles)), (''runId'', i), (''runAttempt'', a)]) first ''jvmRuns''] ''UNLISTED_JVM'' (
     check_as STAGES [executes github first JVM_WORKFLOW JVM_JOB] ''JVM_EXECUTION'' (
     stage2_result JvmLibraryMatch context histories prior_ancestry_raw expected)))))))))"

section \<open>Rechecks\<close>

text \<open>What a recheck adds to a match: the result has to be the expected one.\<close>

definition unchanged :: "string \<Rightarrow> match_kind \<times> string \<Rightarrow> match_kind \<times> string \<Rightarrow> (match_kind \<times> string) res" where
  "unchanged pre x y = (if y = x then Inr y else Inl (Refused (pre @ ''CHANGED_BEFORE_RECHECK'')))"

lemma andthen_assoc: "andthen (andthen r f) g = andthen r (\<lambda>x. andthen (f x) g)"
  by (cases r) simp_all

lemma andthen_check_as: "andthen (check_as pre cs code k) g = check_as pre cs code (andthen k g)"
  by (cases "allof cs") (auto simp: check_as_def check_def reqr_def req_def)

lemma andthen_fields_as: "andthen (fields_as pre v ks code k) g = fields_as pre v ks code (andthen k g)"
  by (simp add: fields_as_def req_def)

lemma andthen_then_do: "andthen (then_do r k) g = then_do r (andthen k g)"
  by (cases r) (simp_all add: then_do_def)

lemma andthen_case_prod: "andthen (case p of (a, b) \<Rightarrow> f a b) g = (case p of (a, b) \<Rightarrow> andthen (f a b) g)"
  by (cases p) simp

lemma andthen_case_option:
  "andthen (case z of None \<Rightarrow> Inl e | Some x \<Rightarrow> f x) g = (case z of None \<Rightarrow> Inl e | Some x \<Rightarrow> andthen (f x) g)"
  by (cases z) simp_all

lemma recheck_unchanged: "recheck pre kind (Some x) r = andthen (recheck pre kind None r) (unchanged pre x)"
  by (cases x) (auto simp: recheck_def unchanged_def check_as_def check_def)

lemmas andthen_push = andthen_assoc andthen_check_as andthen_fields_as andthen_then_do andthen_case_prod andthen_case_option

lemma result_unchanged:
  "result_of kind stage declaration authority observed pol (Some x) extra
   = andthen (result_of kind stage declaration authority observed pol None extra) (unchanged STAGES x)"
  by (simp only: result_of_def Let_def andthen_push recheck_unchanged)

lemma stage2_unchanged:
  "stage2_result kind context histories anc (Some x) = andthen (stage2_result kind context histories anc None) (unchanged STAGES x)"
  by (simp only: stage2_result_def andthen_push result_unchanged)

text \<open>
  C26: rechecking an initial-recipient match (the joint one, the bootstrap stage, the ordinary stage and
  the JVM stage) against an expected result is matching afresh and then comparing: it returns exactly
  the expected result, and any other outcome of the fresh match is refused with the recheck code.
\<close>

theorem recheck_exact:
  "match given i d now (Some x) = andthen (match given i d now None) (unchanged RECIPIENT x)
   \<and> match_bootstrap given i d now (Some x) = andthen (match_bootstrap given i d now None) (unchanged STAGES x)
   \<and> match_ordinary given i d now hs anc (Some x) = andthen (match_ordinary given i d now hs anc None) (unchanged STAGES x)
   \<and> match_jvm_library given i d now hs anc (Some x) = andthen (match_jvm_library given i d now hs anc None) (unchanged STAGES x)"
proof (intro conjI)
  show "match given i d now (Some x) = andthen (match given i d now None) (unchanged RECIPIENT x)"
    by (simp only: match_def andthen_push recheck_unchanged)
  show "match_bootstrap given i d now (Some x) = andthen (match_bootstrap given i d now None) (unchanged STAGES x)"
    by (simp only: match_bootstrap_def andthen_push result_unchanged)
  show "match_ordinary given i d now hs anc (Some x) = andthen (match_ordinary given i d now hs anc None) (unchanged STAGES x)"
    by (simp only: match_ordinary_def andthen_push stage2_unchanged)
  show "match_jvm_library given i d now hs anc (Some x) = andthen (match_jvm_library given i d now hs anc None) (unchanged STAGES x)"
    by (simp only: match_jvm_library_def andthen_push stage2_unchanged)
qed

section \<open>Histories\<close>

lemma check_as_ok [ok_iff]: "check_as pre cs code k = Inr y \<longleftrightarrow> list_all (\<lambda>c. c = Inr True) cs \<and> k = Inr y"
  by (simp add: check_as_def check_ok)

lemma fields_as_ok [ok_iff]: "fields_as pre v ks code k = Inr y \<longleftrightarrow> closed_dict v ks \<and> k = Inr y"
  by (simp add: fields_as_def req_ok)

definition rematched :: "BootstrapHistory \<Rightarrow> bool" where
  "rematched h \<longleftrightarrow> (\<exists>i d t r. completed_at h = PInt t \<and> match_bootstrap h i d t (Some (expected_match h)) = Inr r)"

lemma historical_rematched: "historical declaration prior src entry h created = Inr r \<Longrightarrow> rematched h"
  unfolding historical_def rematched_def check_as_ok andthen_ok
  by (auto simp: type_iff as_int_def, blast)

lemma take_history_rematched:
  "take_history declaration prior src pairs ids created (entry, h) st = Inr st' \<Longrightarrow> rematched h"
  by (cases st) (auto simp: take_history_def check_as_ok fields_as_ok andthen_ok then_do_ok dest: historical_rematched split: prod.splits)

lemma loop_each:
  assumes "loop f xs s = Inr t" "x \<in> set xs"
  shows "\<exists>u v. f x u = Inr v"
  using assms by (induction xs arbitrary: s) (auto simp: andthen_ok)

lemma histories_rematched:
  assumes "histories_of declaration pairs hs created anc = Inr retained"
  shows "length hs = 4 \<and> list_all rematched hs"
proof -
  obtain prior src entries ids st where
    n: "list_of (\<lambda>n. n = 4) entries" "len hs = 4"
    and l: "loop (take_history declaration prior src pairs ids created) (zip (elems entries) hs) ([], [], [], []) = Inr st"
    using assms unfolding histories_of_def andthen_ok check_as_ok by auto
  have "rematched h" if "h \<in> set hs" for h
  proof -
    have "length (elems entries) = length hs" using n by (simp add: list_of_def len_def)
    then obtain entry where "(entry, h) \<in> set (zip (elems entries) hs)" using \<open>h \<in> set hs\<close> by (metis in_set_impl_in_set_zip2)
    then show ?thesis using loop_each [OF l] take_history_rematched by blast
  qed
  then show ?thesis using n(2) by (simp add: len_def list_all_iff)
qed

lemma stage2_histories:
  "stage2_result kind context hs anc e = Inr r \<Longrightarrow> length hs = 4 \<and> list_all rematched hs"
  by (auto simp: stage2_result_def andthen_ok split: prod.splits dest!: histories_rematched)

text \<open>
  C27: the ordinary and the JVM stage refuse to match as soon as one of the four retained bootstrap
  histories is not itself accepted again by the bootstrap stage, from its own originals, at its own
  completion time and with its recorded result; current authority never stands in for it.
\<close>

theorem stage2_needs_histories:
  assumes "h \<in> set hs" "\<And>i d t. completed_at h = PInt t \<Longrightarrow> isl (match_bootstrap h i d t (Some (expected_match h)))"
  shows "isl (match_ordinary given cid dig now hs anc e) \<and> isl (match_jvm_library given cid dig now hs anc e)"
proof -
  have bad: "\<not> rematched h" using assms(2) unfolding rematched_def by (metis isl_def sum.distinct(1) sum.disc(2))
  have "match_ordinary given cid dig now hs anc e \<noteq> Inr r" for r
    using bad assms(1) unfolding match_ordinary_def andthen_ok check_as_ok
    by (auto simp: list_all_iff andthen_ok check_as_ok split: prod.splits option.splits dest!: stage2_histories)
  moreover have "match_jvm_library given cid dig now hs anc e \<noteq> Inr r" for r
    using bad assms(1) unfolding match_jvm_library_def andthen_ok check_as_ok
    by (auto simp: list_all_iff andthen_ok check_as_ok split: prod.splits dest!: stage2_histories)
  ultimately show ?thesis by (metis isl_def sum.exhaust)
qed

definition empty_history :: BootstrapHistory where
  "empty_history = \<lparr>comment_raw = [], observation_raw = [], base_policy_entry = [], ancestry_raw = [], candidate_policy_entry = [],
     candidate_policy_raw = [], completed_at = PInt 7, expected_match = (BootstrapMatch, [])\<rparr>"

lemma empty_history_refused: "isl (match_bootstrap empty_history i d t e)"
  by (cases "positive i"; cases "digest d")
    (simp_all add: match_bootstrap_def empty_history_def statement_def COMMANDS_def parse_def len_def req_def)

theorem stage2_needs_histories_witness:
  "isl (match_ordinary (originals.truncate empty_history) (PInt 1) (PStr (replicate 64 (CHR ''0''))) 9 (replicate 4 empty_history) [] None)"
  using stage2_needs_histories [of empty_history "replicate 4 empty_history"] empty_history_refused by simp

section \<open>The ordinary roster\<close>

text \<open>What one accepted roster entry is: its profile, role and run.\<close>

definition slot_is :: "pyval \<Rightarrow> string \<Rightarrow> string \<Rightarrow> pair \<Rightarrow> bool" where
  "slot_is entry profile role r \<longleftrightarrow> py_item entry ''profile'' = Inr (PStr profile) \<and> py_item entry ''role'' = Inr (PStr role)
     \<and> run entry = Inr r \<and> profile \<in> {''desktop'', ''full''} \<and> role \<in> set (map fst ROLES)
     \<and> (profile = ''full'' \<longrightarrow> starts ''macos-'' role)"

lemma take_slot_ok:
  assumes "take_slot pre a b c entry (ps, ds, fs) = Inr (ps', ds', fs')"
  obtains profile role r where "slot_is entry profile role r" "(profile, role) \<notin> set ps" "ps' = (profile, role) # ps"
    "ds' = (if profile = ''desktop'' then List.insert r ds else ds)" "fs' = (if profile = ''desktop'' then fs else List.insert r fs)"
proof -
  obtain profile role r where
    r: "run_role entry = Inr True" "str_item entry ''profile'' = Inr profile" "str_item entry ''role'' = Inr role" "run entry = Inr r"
    and new: "(profile, role) \<notin> set ps"
    and st: "(List.insert (profile, role) ps, if profile = ''desktop'' then List.insert r ds else ds,
      if profile = ''desktop'' then fs else List.insert r fs) = (ps', ds', fs')"
    using assms unfolding take_slot_def prod.case fields_as_ok check_as_ok andthen_ok list.pred_inject sum.inject
    by (elim exE conjE) simp
  have i: "py_item entry ''profile'' = Inr (PStr profile)" "py_item entry ''role'' = Inr (PStr role)"
    using r(2,3) unfolding str_item_def andthen_ok as_str_ok by simp_all
  have "profile \<in> {''desktop'', ''full''}" "role \<in> set (map fst ROLES)" "profile = ''full'' \<longrightarrow> starts ''macos-'' role"
    using r(1) i unfolding run_role_def allof_ok
    by (auto simp: item_is_def item_eq_def py_in_def split: if_splits)
  then show ?thesis using that [of profile role r] r(4) i new st by (auto simp: slot_is_def)
qed

lemma loop_slots:
  assumes "loop (take_slot pre a b c) es (ps, ds, fs) = Inr (ps', ds', fs')" "distinct ps"
  shows "distinct ps' \<and> length ps' = length ps + length es \<and> set ps \<subseteq> set ps' \<and> set ds \<subseteq> set ds' \<and> set fs \<subseteq> set fs'
    \<and> list_all (\<lambda>e. \<exists>p r q. slot_is e p r q \<and> (p, r) \<in> set ps' \<and> q \<in> set (if p = ''desktop'' then ds' else fs')) es
    \<and> (\<forall>(p, r) \<in> set ps' - set ps. \<exists>e q. slot_is e p r q)"
  using assms
proof (induction es arbitrary: ps ds fs)
  case (Cons e es)
  then obtain st where st: "take_slot pre a b c e (ps, ds, fs) = Inr st" "loop (take_slot pre a b c) es st = Inr (ps', ds', fs')"
    by (auto simp: andthen_ok)
  obtain ps1 ds1 fs1 where t: "st = (ps1, ds1, fs1)" by (cases st)
  obtain p r q where s: "slot_is e p r q" "(p, r) \<notin> set ps" "ps1 = (p, r) # ps"
    "ds1 = (if p = ''desktop'' then List.insert q ds else ds)" "fs1 = (if p = ''desktop'' then fs else List.insert q fs)"
    using take_slot_ok [OF st(1) [unfolded t]] .
  have d: "distinct ps1" using s Cons.prems by simp
  note IH = Cons.IH [OF st(2) [unfolded t] d]
  have "set ps' - set ps \<subseteq> insert (p, r) (set ps' - set ps1)" using s(3) by auto
  then have "\<forall>(p, r) \<in> set ps' - set ps. \<exists>e q. slot_is e p r q" using IH s(1) by blast
  moreover have "q \<in> set (if p = ''desktop'' then ds' else fs')" using IH s(4,5) by (auto split: if_splits)
  moreover have "set ds \<subseteq> set ds1" "set fs \<subseteq> set fs1" using s(4,5) by auto
  moreover have "(p, r) \<in> set ps'" "set ps \<subseteq> set ps1" "length ps1 = Suc (length ps)" using IH s(3) by auto
  ultimately show ?case using IH s(1) unfolding list.pred_inject list.size by (intro conjI) (blast | simp)+
qed simp

lemma roles_known: "r \<in> set (map fst ROLES) \<longleftrightarrow> r \<in> {''linux-x64'', ''windows-x64'', ''macos-arm64'', ''macos-x64''}"
  by (auto simp: ROLES_def)

lemma mac_roles: "r \<in> set (map fst ROLES) \<Longrightarrow> starts ''macos-'' r \<Longrightarrow> r \<in> {''macos-arm64'', ''macos-x64''}"
proof -
  have "list_all (\<lambda>r. starts ''macos-'' r \<longrightarrow> r \<in> {''macos-arm64'', ''macos-x64''}) (map fst ROLES)" by code_simp
  then show "r \<in> set (map fst ROLES) \<Longrightarrow> starts ''macos-'' r \<Longrightarrow> r \<in> {''macos-arm64'', ''macos-x64''}"
    unfolding list_all_iff by blast
qed

lemma image_same_fst: "\<forall>p \<in> S. fst p = a \<Longrightarrow> S = Pair a ` snd ` S"
  by force

lemma set_of_three:
  assumes "distinct xs" "length xs = 3" "{a, b} \<subseteq> set xs" "a \<noteq> b"
  obtains z where "set xs = {a, b, z}" "z \<noteq> a" "z \<noteq> b"
proof -
  have "card (set xs - {a, b}) = 1"
    using assms by (simp add: card_Diff_subset distinct_card)
  then obtain z where "set xs - {a, b} = {z}" by (auto simp: card_Suc_eq numeral_eq_Suc)
  then show ?thesis using that [of z] assms(3) by blast
qed

lemma pairs_shape:
  assumes d: "distinct ps" and n: "length ps = 4"
    and k: "\<forall>(p, r) \<in> set ps. p \<in> {''desktop'', ''full''} \<and> r \<in> set (map fst ROLES) \<and> (p = ''full'' \<longrightarrow> starts ''macos-'' r)"
    and r: "len (desktop_roles ps) = 3" "{''linux-x64'', ''windows-x64''} \<subseteq> set (desktop_roles ps)"
  obtains mac other where "mac \<in> {''macos-arm64'', ''macos-x64''}" "other \<in> {''macos-arm64'', ''macos-x64''}"
    "set ps = {(''desktop'', ''linux-x64''), (''desktop'', ''windows-x64''), (''desktop'', other), (''full'', mac)}"
proof -
  let ?D = "filter (\<lambda>p. fst p = ''desktop'') ps" and ?F = "filter (\<lambda>p. fst p \<noteq> ''desktop'') ps"
  have inj: "distinct (map snd ?D)" using d by (auto simp: distinct_map inj_on_def)
  have roles: "set (desktop_roles ps) = snd ` set ?D" "distinct (desktop_roles ps)" by (simp_all add: desktop_roles_def)
  have l3: "length (desktop_roles ps) = 3" using r(1) by (simp add: len_def)
  obtain other where o: "set (desktop_roles ps) = {''linux-x64'', ''windows-x64'', other}" "other \<noteq> ''linux-x64''" "other \<noteq> ''windows-x64''"
    using set_of_three [OF roles(2) l3 r(2)] by auto
  have "snd ` set ?D = {''linux-x64'', ''windows-x64'', other}" using o(1) roles(1) by simp
  moreover have "set ?D = Pair ''desktop'' ` snd ` set ?D" by (rule image_same_fst) simp
  ultimately have D: "set ?D = {(''desktop'', ''linux-x64''), (''desktop'', ''windows-x64''), (''desktop'', other)}" by simp
  have "length ?D = 3" using inj l3 by (metis desktop_roles_def distinct_remdups_id length_map)
  moreover have "length ?D + length ?F = 4" using n sum_length_filter_compl [of "\<lambda>p. fst p = ''desktop''" ps] by simp
  ultimately have "length ?F = 1" by simp
  then obtain f where f: "?F = [f]" by (auto simp: length_Suc_conv)
  then have "f \<in> set ?F" by simp
  then have "f \<in> set ps" "fst f \<noteq> ''desktop''" by simp_all
  moreover obtain p mac where pm: "f = (p, mac)" by (cases f)
  ultimately have "p = ''full''" "mac \<in> set (map fst ROLES)" "starts ''macos-'' mac" using k by auto
  then have m: "f = (''full'', mac)" "mac \<in> {''macos-arm64'', ''macos-x64''}" using pm mac_roles by blast+
  have "other \<in> set (map fst ROLES)"
  proof -
    have "(''desktop'', other) \<in> set ?D" unfolding D by simp
    then show ?thesis using k by auto
  qed
  then have "other \<in> {''macos-arm64'', ''macos-x64''}" using o(2,3) unfolding roles_known by blast
  moreover have "set ps = set ?D \<union> set ?F" by auto
  then have "set ps = {(''desktop'', ''linux-x64''), (''desktop'', ''windows-x64''), (''desktop'', other), (''full'', mac)}"
    unfolding D f m(1) by (simp only: list.set Un_insert_left Un_empty_left)
  ultimately show ?thesis using that [OF m(2)] by simp
qed

lemma jvm_runs:
  assumes "loop (take_jvm full) es rs = Inr rs'"
  shows "list_all (\<lambda>e. run e = Inr full) es"
  using assms
  by (induction es arbitrary: rs) (auto simp: take_jvm_def andthen_ok fields_as_ok check_as_ok)

lemma ordinary_roster_ok:
  assumes "ordinary_roster declaration = Inr (first, pairs)"
  obtains entries desktops fulls jvm_entries roles where
    "py_item first ''runs'' = Inr (PList entries)" "length entries = 4"
    "loop (take_slot STAGES ''ORDINARY_RUN_FIELDS'' ''ORDINARY_ROLE'' ''DUPLICATE_ORDINARY'') entries ([], [], []) = Inr (pairs, desktops, fulls)"
    "length desktops = 1" "length fulls = 1" "len (desktop_roles pairs) = 3" "{''linux-x64'', ''windows-x64''} \<subseteq> set (desktop_roles pairs)"
    "fst (hd desktops) \<noteq> fst (hd fulls)" "py_item first ''jvmRuns'' = Inr (PList jvm_entries)"
    "loop (take_jvm (hd fulls)) jvm_entries [] = Inr roles"
  using assms that unfolding ordinary_roster_def andthen_ok fields_as_ok check_as_ok then_do_ok list.pred_inject
  by (elim exE conjE) (auto simp: list_of_def type_iff len_def check_as_ok andthen_ok split: prod.splits)

text \<open>
  C28: an accepted ordinary roster names exactly four jobs: the Linux and Windows desktops, one more
  macOS desktop and one full macOS job.  All desktop jobs belong to one workflow run, the full job to
  another, and every JVM job to the run of the full one.
\<close>

theorem ordinary_roster_shape:
  assumes "ordinary_roster declaration = Inr (first, pairs)"
  shows "\<exists>desktop full mac other entries jvm. py_item first ''runs'' = Inr (PList entries) \<and> py_item first ''jvmRuns'' = Inr (PList jvm)
    \<and> mac \<in> {''macos-arm64'', ''macos-x64''} \<and> other \<in> {''macos-arm64'', ''macos-x64''} \<and> length pairs = 4
    \<and> set pairs = {(''desktop'', ''linux-x64''), (''desktop'', ''windows-x64''), (''desktop'', other), (''full'', mac)}
    \<and> fst desktop \<noteq> fst full
    \<and> list_all (\<lambda>e. run e = Inr (if py_item e ''profile'' = Inr (PStr ''desktop'') then desktop else full)) entries
    \<and> list_all (\<lambda>e. run e = Inr full) jvm"
proof -
  obtain entries desktops fulls jvm roles where
    e: "py_item first ''runs'' = Inr (PList entries)" "length entries = 4"
      "loop (take_slot STAGES ''ORDINARY_RUN_FIELDS'' ''ORDINARY_ROLE'' ''DUPLICATE_ORDINARY'') entries ([], [], []) = Inr (pairs, desktops, fulls)"
      "length desktops = 1" "length fulls = 1" "len (desktop_roles pairs) = 3" "{''linux-x64'', ''windows-x64''} \<subseteq> set (desktop_roles pairs)"
      "fst (hd desktops) \<noteq> fst (hd fulls)" "py_item first ''jvmRuns'' = Inr (PList jvm)" "loop (take_jvm (hd fulls)) jvm [] = Inr roles"
    using ordinary_roster_ok [OF assms] .
  have L: "distinct pairs" "length pairs = 4"
      "list_all (\<lambda>e. \<exists>p r q. slot_is e p r q \<and> (p, r) \<in> set pairs \<and> q \<in> set (if p = ''desktop'' then desktops else fulls)) entries"
      "\<forall>(p, r) \<in> set pairs. \<exists>e q. slot_is e p r q"
    using loop_slots [OF e(3)] e(2) by auto
  have k: "\<forall>(p, r) \<in> set pairs. p \<in> {''desktop'', ''full''} \<and> r \<in> set (map fst ROLES) \<and> (p = ''full'' \<longrightarrow> starts ''macos-'' r)"
    using L(4) unfolding slot_is_def by blast
  obtain mac other where m: "mac \<in> {''macos-arm64'', ''macos-x64''}" "other \<in> {''macos-arm64'', ''macos-x64''}"
    "set pairs = {(''desktop'', ''linux-x64''), (''desktop'', ''windows-x64''), (''desktop'', other), (''full'', mac)}"
    using pairs_shape [OF L(1,2) k e(6,7)] .
  have one: "q = hd xs" if "length xs = 1" "q \<in> set xs" for q :: pair and xs
    using that by (cases xs) auto
  have "list_all (\<lambda>e. run e = Inr (if py_item e ''profile'' = Inr (PStr ''desktop'') then hd desktops else hd fulls)) entries"
    unfolding list_all_iff
  proof
    fix x assume "x \<in> set entries"
    then obtain p r q where "slot_is x p r q" "q \<in> set (if p = ''desktop'' then desktops else fulls)"
      using L(3) unfolding list_all_iff by blast
    then show "run x = Inr (if py_item x ''profile'' = Inr (PStr ''desktop'') then hd desktops else hd fulls)"
      using one [OF e(4), of q] one [OF e(5), of q] by (cases "p = ''desktop''") (simp_all add: slot_is_def)
  qed
  then show ?thesis
    by (intro exI conjI) (assumption | rule e(1) e(9) m L(2) e(8) jvm_runs [OF e(10)])+
qed

definition sample_run :: "string \<Rightarrow> string \<Rightarrow> string \<Rightarrow> pyval" where
  "sample_run profile role i = PDict [(''profile'', PStr profile), (''role'', PStr role), (''runId'', PStr i), (''runAttempt'', PStr ''1'')]"

definition sample_jvm :: "string \<Rightarrow> pyval" where
  "sample_jvm role = PDict [(''role'', PStr role), (''runId'', PStr ''22''), (''runAttempt'', PStr ''1'')]"

definition sample_first :: pyval where
  "sample_first = PDict [(''number'', PInt 7),
     (''merge'', PDict [(''commit'', PStr (replicate 40 (CHR ''a''))), (''tree'', PStr (replicate 40 (CHR ''b'')))]),
     (''runs'', PList [sample_run ''desktop'' ''linux-x64'' ''11'', sample_run ''desktop'' ''windows-x64'' ''11'',
        sample_run ''desktop'' ''macos-arm64'' ''11'', sample_run ''full'' ''macos-x64'' ''22'']),
     (''jvmRuns'', PList [sample_jvm ''linux-x64'', sample_jvm ''windows-x64''])]"

definition sample_declaration :: pyval where
  "sample_declaration = PDict [(''firstPullRequest'', sample_first),
     (''reviewed'', PDict [(''commit'', PStr (replicate 40 (CHR ''c''))), (''tree'', PStr (replicate 40 (CHR ''b'')))])]"

definition sample_pairs :: "pair list" where
  "sample_pairs = [(''full'', ''macos-x64''), (''desktop'', ''macos-arm64''), (''desktop'', ''windows-x64''), (''desktop'', ''linux-x64'')]"

lemma sample_roster: "ordinary_roster sample_declaration = Inr (sample_first, sample_pairs)"
  by code_simp

theorem ordinary_roster_shape_witness:
  "\<exists>mac other. mac \<in> {''macos-arm64'', ''macos-x64''}
    \<and> set sample_pairs = {(''desktop'', ''linux-x64''), (''desktop'', ''windows-x64''), (''desktop'', other), (''full'', mac)}"
  using ordinary_roster_shape [OF sample_roster] by (elim exE conjE) (intro exI conjI)

end
