(* ===== verification/Http_Origin.thy ===== *)
theory Http_Origin
  imports Recipient_Exception
begin

text \<open>
  The HTTP side of the job-time budget, \<^verbatim>\<open>src/scripts/hosted_full_job_budget.py\<close>: service times, the header
  block of a response, its freshness, and the canonical base64 of retained responses.  A header block
  is bytes; the parsed fields are an association list from lower-case names to values.

  \<open>email.utils.parsedate_to_datetime\<close> is used only together with the test that formatting its result
  gives the same text back, so it is modelled by that text: the fixed \<open>Www, DD Mon YYYY HH:MM:SS GMT\<close>
  form of an existing date with its own weekday.  Likewise \<open>base64.b64decode\<close> is used only together
  with the test that encoding its result gives the same text back.
\<close>

section \<open>Constants\<close>

definition HEADER_LIMIT :: int where "HEADER_LIMIT = 16 * 1024"
definition HEADER_LINE_LIMIT :: int where "HEADER_LINE_LIMIT = 2048"
definition BODY_LIMIT :: int where "BODY_LIMIT = 1024 * 1024"
definition CACHE_SECONDS :: int where "CACHE_SECONDS = 60"
definition CLOCK_MARGIN_SECONDS :: int where "CLOCK_MARGIN_SECONDS = 5"
definition RECORD_LIMIT :: int where "RECORD_LIMIT = 2 * 1024 * 1024"
definition MAX_EPOCH :: int where "MAX_EPOCH = 253402300799"

definition encoded_record :: "pyval \<Rightarrow> string res" where
  "encoded_record v = andthen (encoded v) (\<lambda>raw. req (len raw \<le> RECORD_LIMIT) ''JOB_TIME_RECORD_LIMIT'' (Inr raw))"

section \<open>Times\<close>

definition bounded :: "int \<Rightarrow> int \<Rightarrow> pyval \<Rightarrow> int res" where
  "bounded minimum maximum v = req (int_and (\<lambda>i. minimum \<le> i \<and> i \<le> maximum) v) ''JOB_TIME_INTEGER'' (as_int v)"

definition utc_epoch :: "pyval \<Rightarrow> int res" where
  "utc_epoch v =
     req (str_and (shape ''####-##-##T##:##:##Z'') v) ''JOB_TIME_UTC'' (
     andthen (as_str v) (\<lambda>t. case time_fields t of
       [y, m, d, h, mi, s] \<Rightarrow>
         if valid_time y m d h mi s \<and> 1 \<le> utc_seconds y m d h mi s \<and> utc_seconds y m d h mi s \<le> MAX_EPOCH
         then Inr (utc_seconds y m d h mi s) else Inl (Refused ''JOB_TIME_UTC'')
     | _ \<Rightarrow> Inl ValueError))"

definition WEEKDAYS :: "string list" where
  "WEEKDAYS = [''Mon'', ''Tue'', ''Wed'', ''Thu'', ''Fri'', ''Sat'', ''Sun'']"

definition MONTHS :: "string list" where
  "MONTHS = [''Jan'', ''Feb'', ''Mar'', ''Apr'', ''May'', ''Jun'', ''Jul'', ''Aug'', ''Sep'', ''Oct'', ''Nov'', ''Dec'']"

text \<open>The month of a name (0 for an unknown one), and \<open>datetime.weekday()\<close> from Monday\<close>

definition month_of :: "string \<Rightarrow> int" where
  "month_of name = (let before = takeWhile (\<lambda>m. m \<noteq> name) MONTHS in if len before < 12 then len before + 1 else 0)"

definition weekday :: "int \<Rightarrow> int \<Rightarrow> int \<Rightarrow> nat" where
  "weekday y m d = nat ((ordinal y m d + 6) mod 7)"

definition http_epoch :: "pyval \<Rightarrow> int res" where
  "http_epoch v = (case v of
      PStr t \<Rightarrow>
        let y = digits_at 12 4 t; m = month_of (take 3 (drop 8 t)); d = digits_at 5 2 t;
            h = digits_at 17 2 t; mi = digits_at 20 2 t; s = digits_at 23 2 t in
        if shape ''##'' (take 2 (drop 5 t)) \<and> shape '' #### ##:##:## GMT'' (drop 11 t) \<and> take 2 (drop 3 t) = '', '' \<and> take 1 (drop 7 t) = '' ''
           \<and> valid_time y m d h mi s \<and> take 3 t = WEEKDAYS ! weekday y m d
           \<and> 1 \<le> utc_seconds y m d h mi s \<and> utc_seconds y m d h mi s \<le> MAX_EPOCH
        then Inr (utc_seconds y m d h mi s) else Inl (Refused ''JOB_TIME_HTTP_DATE'')
    | _ \<Rightarrow> Inl (Refused ''JOB_TIME_HTTP_DATE''))"

section \<open>Headers\<close>

text \<open>\<open>raw.split(b"\r\n")\<close>\<close>

fun split_crlf :: "string \<Rightarrow> string list" where
  "split_crlf [] = [[]]"
| "split_crlf [c] = [[c]]"
| "split_crlf (c # c' # s) =
     (if c = CHR 0x0D \<and> c' = CHR 0x0A then [] # split_crlf s
      else case split_crlf (c' # s) of [] \<Rightarrow> [[c]] | p # ps \<Rightarrow> (c # p) # ps)"

text \<open>\<open>HTTP/1\.[01] ([0-9]{3}) [\x20-\x7e]{0,128}\<close>\<close>

definition status_line :: "string \<Rightarrow> int option" where
  "status_line s =
     (if take 7 s = ''HTTP/1.'' \<and> take 1 (drop 7 s) \<in> {''0'', ''1''} \<and> shape '' ### '' (take 5 (drop 8 s))
         \<and> length (drop 13 s) \<le> 128 \<and> list_all (\<lambda>c. 32 \<le> cc c \<and> cc c \<le> 126) (drop 13 s)
      then Some (int_of_digits (take 3 (drop 9 s))) else None)"

definition token_char :: "char \<Rightarrow> bool" where
  "token_char c \<longleftrightarrow> is_alnum c \<or> c \<in> set ''!#$%&*+.^_`|~-'' \<or> cc c = 39"

type_synonym header_fields = "(string \<times> string) list"

definition header_line :: "string \<Rightarrow> header_fields \<Rightarrow> header_fields res" where
  "header_line line hs =
     (case partition_on (CHR '':'') line of (key, separator, v) \<Rightarrow>
      req (separator \<and> key \<noteq> [] \<and> list_all token_char key \<and> list_all (\<lambda>c. cc c = 9 \<or> 32 \<le> cc c \<and> cc c \<le> 126) v) ''JOB_TIME_HEADERS'' (
      let name = lower key in
      req (name \<notin> set (map fst hs)) ''JOB_TIME_HEADER_DUPLICATE'' (
      Inr (hs @ [(name, strip v)]))))"

definition headers :: "string \<Rightarrow> (int \<times> header_fields) res" where
  "headers raw =
     req (0 < len raw \<and> len raw \<le> HEADER_LIMIT \<and> endswith [CHR 0x0D, CHR 0x0A, CHR 0x0D, CHR 0x0A] raw) ''JOB_TIME_HEADERS'' (
     let lines = split_crlf (take (length raw - 4) raw) in
     req (1 < len lines \<and> len lines \<le> 65 \<and> list_all (\<lambda>l. len l \<le> HEADER_LINE_LIMIT) lines) ''JOB_TIME_HEADERS'' (
     case status_line (hd lines) of None \<Rightarrow> Inl (Refused ''JOB_TIME_HTTP_STATUS'') | Some status \<Rightarrow>
     andthen (loop header_line (tl lines) []) (\<lambda>hs. Inr (status, hs))))"

section \<open>Freshness\<close>

definition upper_char :: "char \<Rightarrow> char" where
  "upper_char c = (if is_lower c then char_of (cc c - 32) else c)"

text \<open>\<open>fields.get(name, default)\<close>\<close>

definition field_or :: "header_fields \<Rightarrow> string \<Rightarrow> string \<Rightarrow> string" where
  "field_or hs k x = (case map_of hs k of Some v \<Rightarrow> v | None \<Rightarrow> x)"

definition request_id :: "string \<Rightarrow> bool" where
  "request_id s \<longleftrightarrow> 8 \<le> length s \<and> length s \<le> 128 \<and> list_all (\<lambda>c. is_alnum c \<or> c = CHR '':'' \<or> c = CHR ''-'') s"

definition DIRECTIVES :: "string list" where
  "DIRECTIVES = [''private'', ''no-cache'', ''no-store'', ''must-revalidate'', ''max-age'', ''s-maxage'']"

definition cache_item :: "string \<Rightarrow> header_fields \<Rightarrow> header_fields res" where
  "cache_item item cache =
     (case partition_on (CHR ''='') (strip item) of (name, equals, v) \<Rightarrow>
      req (name \<notin> set (map fst cache) \<and> name \<in> set DIRECTIVES) ''JOB_TIME_CACHE_POLICY'' (
      req (if name \<in> {''max-age'', ''s-maxage''}
           then equals \<and> 1 \<le> length v \<and> length v \<le> 2 \<and> list_all is_digit v \<and> int_of_digits v \<le> CACHE_SECONDS
           else \<not> equals) ''JOB_TIME_CACHE_POLICY'' (
      Inr (cache @ [(name, v)]))))"

definition INTERMEDIARY :: "string list" where
  "INTERMEDIARY = [''warning'', ''via'', ''location'', ''content-range'', ''retry-after'']"

definition freshness :: "header_fields \<Rightarrow> int res" where
  "freshness hs =
     req (lower (field_or hs ''content-type'' []) \<in> {''application/json'', ''application/json; charset=utf-8''}
          \<and> lower (field_or hs ''content-encoding'' ''identity'') = ''identity''
          \<and> map_of hs ''x-github-api-version-selected'' = Some ''2022-11-28'') ''JOB_TIME_HTTP_TYPE'' (
     req (case map_of hs ''x-github-request-id'' of Some i \<Rightarrow> request_id i | None \<Rightarrow> False) ''JOB_TIME_REQUEST_ID'' (
     req (map_of hs ''age'' \<in> {None, Some ''0''} \<and> \<not> list_ex (\<lambda>k. k \<in> set (map fst hs)) INTERMEDIARY
          \<and> map upper_char (field_or hs ''x-cache'' ''MISS'') \<in> {''MISS'', ''BYPASS''}) ''JOB_TIME_STALE_OR_INTERMEDIARY'' (
     andthen (loop cache_item (split_on (CHR '','') (lower (field_or hs ''cache-control'' []))) []) (\<lambda>cache.
     let names = set (map fst cache) in
     req (''private'' \<in> names \<and> (''no-cache'' \<in> names \<or> ''no-store'' \<in> names \<or> ''max-age'' \<in> names)) ''JOB_TIME_CACHE_POLICY'' (
     http_epoch (case map_of hs ''date'' of Some d \<Rightarrow> PStr d | None \<Rightarrow> PNone))))))"

section \<open>Base64\<close>

definition b64_char :: "nat \<Rightarrow> char" where
  "b64_char n = char_of (if n < 26 then 65 + n else if n < 52 then 71 + n else if n < 62 then n - 4 else if n = 62 then 43 else 47)"

definition b64_val :: "char \<Rightarrow> nat option" where
  "b64_val c =
     (if is_upper c then Some (cc c - 65) else if is_lower c then Some (cc c - 71) else if is_digit c then Some (cc c + 4)
      else if cc c = 43 then Some 62 else if cc c = 47 then Some 63 else None)"

fun b64encode :: "string \<Rightarrow> string" where
  "b64encode [] = []"
| "b64encode [a] = [b64_char (cc a div 4), b64_char (cc a mod 4 * 16), CHR ''='', CHR ''='']"
| "b64encode [a, b] = [b64_char (cc a div 4), b64_char (cc a mod 4 * 16 + cc b div 16), b64_char (cc b mod 16 * 4), CHR ''='']"
| "b64encode (a # b # c # s) =
     b64_char (cc a div 4) # b64_char (cc a mod 4 * 16 + cc b div 16) # b64_char (cc b mod 16 * 4 + cc c div 64) # b64_char (cc c mod 64) # b64encode s"

text \<open>Four characters; the last group may end with one or two padding signs.\<close>

fun b64decode :: "string \<Rightarrow> string option" where
  "b64decode [] = Some []"
| "b64decode (a # b # c # d # s) =
     (case (b64_val a, b64_val b, b64_val c, b64_val d) of
        (Some w, Some x, Some y, Some z) \<Rightarrow>
          map_option (\<lambda>t. char_of (w * 4 + x div 16) # char_of (x mod 16 * 16 + y div 4) # char_of (y mod 4 * 64 + z) # t) (b64decode s)
      | (Some w, Some x, Some y, None) \<Rightarrow>
          if d = CHR ''='' \<and> s = [] then Some [char_of (w * 4 + x div 16), char_of (x mod 16 * 16 + y div 4)] else None
      | (Some w, Some x, None, None) \<Rightarrow>
          if c = CHR ''='' \<and> d = CHR ''='' \<and> s = [] then Some [char_of (w * 4 + x div 16)] else None
      | _ \<Rightarrow> None)"
| "b64decode _ = None"

text \<open>One retained part of a response: bounded, and its own canonical encoding.\<close>

definition response_part :: "pyval \<Rightarrow> string \<Rightarrow> int \<Rightarrow> string res" where
  "response_part v k limit =
     check [item_is (str_and (\<lambda>s. 0 < int (py_len s) \<and> int (py_len s) \<le> 4 * ((limit + 2) div 3))) v k] ''JOB_TIME_RESPONSE_SIZE'' (
     andthen (str_item v k) (\<lambda>text.
     case b64decode text of None \<Rightarrow> Inl (Refused ''JOB_TIME_RESPONSE_ENCODING'') | Some data \<Rightarrow>
     req (len data \<le> limit \<and> b64encode data = text) ''JOB_TIME_RESPONSE_ENCODING'' (Inr data)))"

section \<open>The encoding of retained responses\<close>

lemma cc_char: "n < 256 \<Longrightarrow> cc (char_of n) = n"
  by (simp add: cc_def)

lemma b64_val_char: "n < 64 \<Longrightarrow> b64_val (b64_char n) = Some n"
  by (simp add: b64_val_def b64_char_def cc_char is_upper_def is_lower_def is_digit_def, arith)

lemma b64_pad: "b64_val (CHR ''='') = None"
  by code_simp

lemma pack:
  assumes "(q :: nat) < k"
  shows "(m * k + q) div k = m" "(m * k + q) mod k = q"
  using assms by simp_all

lemma byte_div: "cc c div 4 < 64" "cc c div 16 < 16" "cc c div 64 < 4"
  using cc_less [of c] by (simp_all add: less_mult_imp_div_less)

lemma byte_parts: "cc c div 4 < 64" "cc c mod 4 * 16 < 64" "cc c mod 4 * 16 + cc b div 16 < 64" "cc c mod 16 * 4 < 64"
  "cc c mod 16 * 4 + cc b div 64 < 64" "cc c mod 64 < 64"
proof -
  have "cc c mod 4 < 4" "cc c mod 16 < 16" by simp_all
  then show "cc c mod 4 * 16 < 64" "cc c mod 4 * 16 + cc b div 16 < 64" "cc c mod 16 * 4 < 64" "cc c mod 16 * 4 + cc b div 64 < 64"
    using byte_div(2,3) [of b] by linarith+
qed (simp_all add: byte_div)

lemma byte_join:
  "char_of (cc a div 4 * 4 + (cc a mod 4 * 16) div 16) = a" "char_of (cc a div 4 * 4 + (cc a mod 4 * 16 + cc b div 16) div 16) = a"
  "char_of ((cc a mod 4 * 16) mod 16 * 16 + (cc b mod 16 * 4) div 4) = char_of (cc b mod 16)"
  "char_of ((cc a mod 4 * 16 + cc b div 16) mod 16 * 16 + (cc b mod 16 * 4) div 4) = b"
  "char_of ((cc a mod 4 * 16 + cc b div 16) mod 16 * 16 + (cc b mod 16 * 4 + cc c div 64) div 4) = b"
  "char_of ((cc b mod 16 * 4 + cc c div 64) mod 4 * 64 + cc c mod 64) = c"
proof -
  have c: "char_of (cc x) = x" for x by (simp add: cc_def)
  show "char_of (cc a div 4 * 4 + (cc a mod 4 * 16) div 16) = a" "char_of (cc a div 4 * 4 + (cc a mod 4 * 16 + cc b div 16) div 16) = a"
    "char_of ((cc a mod 4 * 16) mod 16 * 16 + (cc b mod 16 * 4) div 4) = char_of (cc b mod 16)"
    "char_of ((cc a mod 4 * 16 + cc b div 16) mod 16 * 16 + (cc b mod 16 * 4) div 4) = b"
    "char_of ((cc a mod 4 * 16 + cc b div 16) mod 16 * 16 + (cc b mod 16 * 4 + cc c div 64) div 4) = b"
    "char_of ((cc b mod 16 * 4 + cc c div 64) mod 4 * 64 + cc c mod 64) = c"
    by (simp_all only: pack [OF byte_div(2)] pack [OF byte_div(3)] nonzero_mult_div_cancel_right div_mult_mod_eq c mod_mult_self2_is_0
        mult_0 add_0 zero_neq_numeral not_False_eq_True numeral_neq_zero)
qed

lemma b64_roundtrip: "b64decode (b64encode s) = Some s"
proof (induction s rule: b64encode.induct)
  case (2 a)
  show ?case by (simp only: b64encode.simps b64decode.simps b64_val_char byte_parts b64_pad prod.case option.case byte_join) simp
next
  case (3 a b)
  show ?case by (simp only: b64encode.simps b64decode.simps b64_val_char byte_parts b64_pad prod.case option.case byte_join) simp
next
  case (4 a b c s)
  show ?case by (simp only: b64encode.simps b64decode.simps b64_val_char byte_parts prod.case option.case byte_join 4 option.map)
qed simp

lemma b64_char_ascii: "n < 64 \<Longrightarrow> cc (b64_char n) < 128"
  by (simp add: b64_char_def cc_char, arith)

lemma b64_ascii: "list_all (\<lambda>c. cc c < 128) (b64encode s)"
proof -
  have "cc (CHR ''='') < 128" by code_simp
  then show ?thesis by (induction s rule: b64encode.induct) (simp_all add: byte_parts b64_char_ascii)
qed

lemma b64_length: "length (b64encode s) = 4 * ((length s + 2) div 3)"
proof (induction s rule: b64encode.induct)
  case (4 a b c s)
  have "(length s + 3 + 2) div 3 = (length s + 2) div 3 + 1" by presburger
  then show ?case using 4 by simp
qed auto

lemma py_len_ascii: "list_all (\<lambda>c. cc c < 128) s \<Longrightarrow> py_len s = length s"
  by (induction s) (auto simp: py_len_def)

text \<open>
  C34: a retained part of a service response is read exactly when its field is the base64 text of some
  non-empty bytes within the limit, and the reader returns precisely those bytes; no other spelling of
  the same bytes is accepted.
\<close>

theorem response_part_exact:
  "response_part v k limit = Inr data \<longleftrightarrow> py_item v k = Inr (PStr (b64encode data)) \<and> data \<noteq> [] \<and> len data \<le> limit"
proof
  assume "response_part v k limit = Inr data"
  then obtain txt1 where i: "str_item v k = Inr txt1"
      "item_is (str_and (\<lambda>s. 0 < int (py_len s) \<and> int (py_len s) \<le> 4 * ((limit + 2) div 3))) v k = Inr True"
    and d: "(case b64decode txt1 of None \<Rightarrow> Inl (Refused ''JOB_TIME_RESPONSE_ENCODING'') | Some data \<Rightarrow>
     req (len data \<le> limit \<and> b64encode data = txt1) ''JOB_TIME_RESPONSE_ENCODING'' (Inr data)) = Inr data"
    unfolding response_part_def check_ok andthen_ok list.pred_inject by blast
  have t: "py_item v k = Inr (PStr txt1)" using i(1) unfolding str_item_def andthen_ok as_str_ok by blast
  moreover have "0 < int (py_len txt1)" using i(2) t by (simp only: item_is_def andthen_simps str_and_simp sum.inject) blast
  moreover have "len data \<le> limit" "b64encode data = txt1"
    using d by (cases "b64decode txt1", simp, simp only: option.case req_ok sum.inject)+
  ultimately have t: "py_item v k = Inr (PStr txt1)" "0 < int (py_len txt1)" "len data \<le> limit" "b64encode data = txt1" by simp_all
  then have "data \<noteq> []" by (auto simp: py_len_def)
  with t show "py_item v k = Inr (PStr (b64encode data)) \<and> data \<noteq> [] \<and> len data \<le> limit" by simp
next
  assume a: "py_item v k = Inr (PStr (b64encode data)) \<and> data \<noteq> [] \<and> len data \<le> limit"
  have n: "int (py_len (b64encode data)) = 4 * ((len data + 2) div 3)"
    by (simp add: py_len_ascii [OF b64_ascii] b64_length len_def zdiv_int)
  have "0 < len data" using a by (simp add: len_def)
  then have "0 < (len data + 2) div 3" by (simp add: pos_imp_zdiv_pos_iff)
  moreover have "(len data + 2) div 3 \<le> (limit + 2) div 3" using a by (simp add: zdiv_mono1)
  ultimately have "0 < int (py_len (b64encode data)) \<and> int (py_len (b64encode data)) \<le> 4 * ((limit + 2) div 3)"
    unfolding n by simp
  then show "response_part v k limit = Inr data"
    unfolding response_part_def using a by (simp add: check_pass item_is_def str_item_def as_str_def b64_roundtrip)
qed

end
