(* ===== verification/Bootstrap_Allocation.thy ===== *)
theory Bootstrap_Allocation
  imports Http_Origin Job_Clock
begin

text \<open>
  The service-time arithmetic of the cache producer, \<^verbatim>\<open>src/scripts/hosted_cache_bootstrap_service_time.py\<close>,
  and its allocation proposal and supplied phase trace, \<^verbatim>\<open>src/scripts/hosted_cache_bootstrap_allocation.py\<close>.
  The service-time basis record, which is rederived from retained service responses, is the argument
  \<open>basis\<close>: everything computed from it is modelled.  The trace loop is a step function on the record
  \<open>trace\<close>, one step per original observation.

  The lemmas show that the phase fences partition exactly the end of the job, and that a supplied trace
  is a chain of digests and times in which nothing follows an adverse observation and every other row
  keeps the proposal's fence, the cap of its phase, the span of its capture group and the limit on new
  work.
\<close>

section \<open>Service time\<close>

definition SOURCE_JOB_SECONDS :: int where "SOURCE_JOB_SECONDS = 5400"
definition DATE_SECONDS :: int where "DATE_SECONDS = 1"

definition unsigned_as :: "string \<Rightarrow> pyval \<Rightarrow> int res" where
  "unsigned_as code v = req (int_and (\<lambda>i. 0 \<le> i \<and> i \<le> UINT64) v) code (as_int v)"

definition service_integer :: "pyval \<Rightarrow> int res" where
  "service_integer v = unsigned_as ''BOOTSTRAP_SERVICE_TIME_INTEGER'' v"

definition basis_integer :: "pyval \<Rightarrow> int res" where
  "basis_integer v = req (int_and (\<lambda>i. - UINT64 \<le> i \<and> i \<le> UINT64) v) ''BOOTSTRAP_SERVICE_TIME_INTEGER'' (as_int v)"

record service_basis =
  jobs_request_started_ns :: int
  job_started_epoch_seconds :: int
  service_age_seconds :: int
  charged_age_ns :: int
  job_start_basis_ns :: int

definition basis_arithmetic :: "pyval \<Rightarrow> pyval \<Rightarrow> pyval \<Rightarrow> service_basis res" where
  "basis_arithmetic jobs_start_ns job_epoch service_date =
     andthen (service_integer jobs_start_ns) (\<lambda>jobs_start.
     andthen (service_integer job_epoch) (\<lambda>epoch.
     andthen (service_integer service_date) (\<lambda>date.
     andthen (service_integer (PInt (date - epoch))) (\<lambda>age.
     andthen (service_integer (PInt (age + DATE_SECONDS + CACHE_SECONDS + CLOCK_MARGIN_SECONDS))) (\<lambda>seconds.
     andthen (service_integer (PInt (seconds * NS))) (\<lambda>charged_ns.
     andthen (basis_integer (PInt (jobs_start - charged_ns))) (\<lambda>basis.
     Inr \<lparr>jobs_request_started_ns = jobs_start, job_started_epoch_seconds = epoch, service_age_seconds = age,
       charged_age_ns = charged_ns, job_start_basis_ns = basis\<rparr>)))))))"

definition job_end_arithmetic :: "pyval \<Rightarrow> int res" where
  "job_end_arithmetic v = andthen (basis_integer v) (\<lambda>b. service_integer (PInt (b + SOURCE_JOB_SECONDS * NS)))"

section \<open>The proposal\<close>

definition SCOPE :: string where "SCOPE = ''BOOTSTRAP_ALLOCATION_SOURCE_PROPOSAL_V1''"
definition TRACE_SCOPE :: string where "TRACE_SCOPE = ''BOOTSTRAP_SUPPLIED_ALLOCATION_TRACE_V1''"
definition OBSERVATION_SCOPE :: string where "OBSERVATION_SCOPE = ''BOOTSTRAP_SUPPLIED_PHASE_OBSERVATION_V1''"
definition PROPOSED_JOB_SECONDS :: int where "PROPOSED_JOB_SECONDS = 5400"
definition OBSERVATION_LIMIT :: int where "OBSERVATION_LIMIT = 16384"

definition PHASES :: "(string \<times> int) list" where
  "PHASES = [(''productive-entry'', 120),
     (''recipient-validation'', 240), (''recipient-final'', 45), (''recipient-read'', 30),
     (''canonical-init'', 120), (''canonical-init-final'', 45), (''canonical-init-read'', 30),
     (''dependency-stage'', 120), (''empty-seed'', 120),
     (''custody-prepare'', 120), (''custody-prepare-final'', 45), (''custody-prepare-read'', 30),
     (''producer-work'', 600), (''producer-return'', 225), (''producer-final'', 45), (''producer-read'', 30),
     (''custody-collect'', 120), (''custody-collect-final'', 45), (''custody-collect-read'', 30),
     (''custody-uninstall'', 90), (''custody-uninstall-final'', 45), (''custody-uninstall-read'', 30),
     (''dependency-export'', 120), (''save-set-before'', 120), (''producer-owner-return'', 45),
     (''save-transition'', 30), (''provider-save'', 180), (''save-readmission'', 120),
     (''save-set-after'', 120), (''save-observation'', 30), (''save-owner-return'', 45),
     (''probe-transition'', 30), (''provider-probe'', 180), (''custody-readmission'', 120),
     (''provider-observation'', 30), (''custody-freeze'', 180),
     (''custody-encrypt'', 240), (''custody-encrypt-final'', 45), (''custody-encrypt-read'', 30),
     (''ciphertext-open'', 90), (''ciphertext-verify'', 90), (''custody-owner-return'', 45),
     (''seal-transition'', 30), (''separate-seal'', 120), (''upload-transition'', 30),
     (''evidence-upload'', 180), (''upload-after-guard'', 30), (''delivery-return'', 45)]"

definition CAPTURE_GROUPS :: "(string \<times> string list) list" where
  "CAPTURE_GROUPS = [(''recipient'', [''recipient-validation'', ''recipient-final'']),
     (''initializer'', [''canonical-init'', ''canonical-init-final'']),
     (''custody-prepare'', [''custody-prepare'', ''custody-prepare-final'']),
     (''producer'', [''producer-work'', ''producer-return'', ''producer-final'']),
     (''custody-collect'', [''custody-collect'', ''custody-collect-final'']),
     (''custody-uninstall'', [''custody-uninstall'', ''custody-uninstall-final'']),
     (''custody-encrypt'', [''custody-encrypt'', ''custody-encrypt-final''])]"

definition COPY_PHASES :: "string list" where
  "COPY_PHASES = [''empty-seed'', ''dependency-export'', ''save-set-before'', ''save-set-after'']"

definition OBSERVATION_FIELDS :: "string list" where
  "OBSERVATION_FIELDS = [''schema'', ''scope'', ''phase'', ''clock'', ''previousSha256'', ''beganNs'', ''returnedNs'',
     ''lastNewWorkNs'', ''originalOutcome'', ''retirement'', ''cancelled'']"

definition alloc_integer :: "pyval \<Rightarrow> int res" where
  "alloc_integer v = unsigned_as ''BOOTSTRAP_ALLOCATION_INTEGER'' v"

text \<open>\<open>caps[name]\<close>, the sum of the caps, and the span of a capture group\<close>

definition cap_of :: "string \<Rightarrow> int" where
  "cap_of name = (case map_of PHASES name of Some n \<Rightarrow> n | None \<Rightarrow> 0)"

definition allocated_seconds :: int where
  "allocated_seconds = sum_list (map snd PHASES)"

definition span_of :: "string list \<Rightarrow> int" where
  "span_of members = sum_list (map cap_of members)"

definition policy_value :: pyval where
  "policy_value = PDict [(''scope'', PStr ''CLOSED_SOURCE_PROPOSAL_NOT_ADMITTED_OR_MEASURED_FIT''),
     (''proposedJobSeconds'', PInt PROPOSED_JOB_SECONDS),
     (''phases'', PList (map (\<lambda>(name, seconds). PDict [(''name'', PStr name), (''maximumSeconds'', PInt seconds)]) PHASES)),
     (''allocatedSeconds'', PInt allocated_seconds),
     (''unallocatedSetupHeadroomSeconds'', PInt (PROPOSED_JOB_SECONDS - allocated_seconds)),
     (''headroomScope'', PStr ''ARITHMETIC_ONLY_ALREADY_ELAPSED_SETUP_AND_SERVICE_CHARGES_STILL_APPLY''),
     (''nativeCaptureSpans'', PList (map (\<lambda>(name, members). PDict [(''name'', PStr name), (''phases'', strs members),
        (''maximumSeconds'', PInt (span_of members))]) CAPTURE_GROUPS)),
     (''nativeCaptureScope'', PStr ''ORIGINAL_FIRST_WORK_ANCHOR_INCLUDING_IDLE_GAPS_NOT_PER_CALL_RENEWAL''),
     (''windowsNativeFileSeconds'', PInt 900),
     (''producerReturn'', PDict [(''seconds'', PInt 225), (''sameHomeStopSeconds'', PInt 120), (''sameHomeStopIncluded'', PBool True),
        (''scope'', PStr ''STOP_AND_CANONICAL_TAIL_SHARE_ORIGINAL_RETURN_CAP'')]),
     (''dependencyObservations'', PDict [(''phases'', strs COPY_PHASES), (''hardSeconds'', PInt 120), (''newWorkSeconds'', PInt 90),
        (''fileBytes'', PInt (512 * 1024 * 1024)), (''aggregateBytes'', PInt (2 * 1024 * 1024 * 1024)),
        (''strategy'', PStr ''STREAM_PER_FILE_NOT_WINDOWS_AGGREGATE_SNAPSHOT'')]),
     (''originalEntry'', PStr ''SEPARATE_UNCHANGED_ORIGINAL75_LOCAL45_ORIGINAL120_NOT_EXTENDED''),
     (''failureCustody'', PStr ''RESERVED_CUSTODY_CAPS_NOT_A_FAILED_OR_UNKNOWN_OWNER_EXECUTOR''),
     (''providerScope'', PStr ''PROPOSED_CAPS_NOT_STORAGE_CONTENTS_OR_RESOLVER_QUALIFICATION'')]"

text \<open>The loop over the phases: the cursor and the fences so far.\<close>

definition take_fence :: "string \<times> int \<Rightarrow> int \<times> (string \<times> int) list \<Rightarrow> (int \<times> (string \<times> int) list) res" where
  "take_fence = (\<lambda>(name, seconds) (cursor, fences).
     andthen (alloc_integer (PInt seconds)) (\<lambda>s.
     andthen (alloc_integer (PInt (cursor + s * NS))) (\<lambda>next.
     Inr (next, fences @ [(name, next)]))))"

definition fence_arithmetic :: "pyval \<Rightarrow> (int \<times> int \<times> (string \<times> int) list) res" where
  "fence_arithmetic supplied =
     andthen (case basis_integer supplied of
         Inl _ \<Rightarrow> Inl (Refused ''BOOTSTRAP_ALLOCATION_INTEGER'') | Inr b \<Rightarrow> Inr b) (\<lambda>job_start.
     andthen (alloc_integer (PInt allocated_seconds)) (\<lambda>total.
     req (0 < total \<and> total < PROPOSED_JOB_SECONDS \<and> length (remdups (map fst PHASES)) = length PHASES) ''BOOTSTRAP_ALLOCATION_ACCOUNTING'' (
     req (PROPOSED_JOB_SECONDS = SOURCE_JOB_SECONDS) ''BOOTSTRAP_ALLOCATION_JOB_POLICY'' (
     req (job_start \<le> UINT64 - PROPOSED_JOB_SECONDS * NS) ''BOOTSTRAP_ALLOCATION_INTEGER'' (
     andthen (job_end_arithmetic (PInt job_start)) (\<lambda>end1.
     andthen (alloc_integer (PInt (end1 - total * NS))) (\<lambda>start.
     andthen (loop take_fence PHASES (start, [])) (\<lambda>(cursor, fences).
     req (cursor = end1 \<and> list_all (\<lambda>(_, members). span_of members < 900) CAPTURE_GROUPS) ''BOOTSTRAP_ALLOCATION_ACCOUNTING'' (
     Inr (start, end1, fences))))))))))"

definition proposal_of :: "pyval \<Rightarrow> pyval res" where
  "proposal_of basis =
     andthen (andthen (py_item basis ''jobStartBasisNs'') fence_arithmetic) (\<lambda>(start, end1, fences).
     andthen (each (\<lambda>k. andthen (py_item basis k) (\<lambda>x. Inr (k, x))) [''selection'', ''cacheCohort'', ''source'', ''github'', ''clock'']) (\<lambda>copied.
     andthen (encoded_record basis) (\<lambda>raw.
     Inr (PDict ([(''schema'', PInt 1), (''scope'', PStr SCOPE), (''profile'', PStr ''cache-bootstrap'')] @ copied @
       [(''serviceTimeBasis'', basis), (''serviceTimeBasisSha256'', PStr (sha256 raw)), (''policy'', policy_value),
        (''allocationStartBasisNs'', PInt start), (''proposedJobEndNs'', PInt end1),
        (''phaseFencesNs'', PDict (map (\<lambda>(name, t). (name, PInt t)) fences)),
        (''budgetAcceptance'', PStr ''NOT_ADMITTED''), (''testAcceptance'', PStr ''NOT_PERFORMED''),
        (''productiveOwner'', PStr ''NOT_CREATED''), (''exportSaveAuthority'', PBool False)])))))"

definition validate_proposal :: "string \<Rightarrow> pyval \<Rightarrow> pyval res" where
  "validate_proposal raw basis =
     andthen (proposal_of basis) (\<lambda>expected.
     check [andthen (encoded_record expected) (\<lambda>r. Inr (raw = r))] ''BOOTSTRAP_ALLOCATION_PROPOSAL_CHANGED'' (Inr expected))"

section \<open>The trace\<close>

record trace_row =
  original_sha256 :: string
  observation :: pyval
  phase_end_ns :: int
  native_capture_end_ns :: "int option"
  new_work_end_ns :: "int option"

record trace =
  previous :: string
  last_ns :: int
  rows :: "trace_row list"
  failures :: "string list"
  group_starts :: "(string \<times> int) list"

definition OUTCOMES :: "string list" where
  "OUTCOMES = [''success'', ''failure'', ''cancelled'', ''skipped'', '''']"

text \<open>The inner loop over the capture groups: the group starts, the capture end and the failures.\<close>

type_synonym capture = "(string \<times> int) list \<times> int option \<times> string list"

definition group_step :: "string \<Rightarrow> int \<Rightarrow> int \<Rightarrow> string \<times> string list \<Rightarrow> capture \<Rightarrow> capture res" where
  "group_step name began returned = (\<lambda>(group, members) (starts1, group_end, fails).
     if name \<notin> set members then Inr (starts1, group_end, fails)
     else
       let starts2 = (if name = hd members then (group, began) # starts1 else starts1) in
       case map_of starts2 group of None \<Rightarrow> Inl KeyError | Some begun \<Rightarrow>
       andthen (alloc_integer (PInt (begun + span_of (takeWhile (\<lambda>m. m \<noteq> name) members @ [name]) * NS))) (\<lambda>e.
       Inr (starts2, Some e, if e \<le> returned then fails @ [''NATIVE_CAPTURE_FENCE_EXPIRED''] else fails)))"

text \<open>The last new work of a copying phase: its soft end and the failure it gives.\<close>

definition new_work :: "string \<Rightarrow> pyval \<Rightarrow> int \<Rightarrow> int \<Rightarrow> int \<Rightarrow> (int option \<times> string list) res" where
  "new_work name v began returned end1 =
     (if name \<in> set COPY_PHASES then
        andthen (andthen (py_item v ''lastNewWorkNs'') alloc_integer) (\<lambda>work.
        req (began \<le> work \<and> work \<le> returned) ''BOOTSTRAP_TRACE_NEW_WORK_CLOCK'' (
        andthen (alloc_integer (PInt (began + 90 * NS))) (\<lambda>s.
        let soft = min end1 s in
        Inr (Some soft, if soft \<le> work then [''NEW_WORK_FENCE_EXPIRED''] else []))))
      else check [item_is (\<lambda>x. x = PNone) v ''lastNewWorkNs''] ''BOOTSTRAP_TRACE_UNEXPECTED_NEW_WORK'' (Inr (None, [])))"

definition disposition :: "pyval \<Rightarrow> string list res" where
  "disposition v =
     andthen (py_item v ''originalOutcome'') (\<lambda>outcome. andthen (py_item v ''cancelled'') (\<lambda>cancelled. andthen (py_item v ''retirement'') (\<lambda>retirement.
     Inr ((if \<not> py_eq outcome (PStr ''success'') then [''STEP_NOT_SUCCESSFUL''] else [])
       @ (if truth cancelled \<or> py_eq outcome (PStr ''cancelled'') then [''CANCELLED''] else [])
       @ (if py_eq retirement (PStr ''UNKNOWN'') then [''RETIREMENT_UNKNOWN''] else [])))))"

definition observed_phase :: "pyval \<Rightarrow> string \<Rightarrow> trace \<Rightarrow> pyval \<Rightarrow> (int \<times> int) res" where
  "observed_phase proposal name st v =
     check [Inr (closed_dict v OBSERVATION_FIELDS), item_is is_int v ''schema'', item_eq v ''schema'' (PInt 1),
            item_eq v ''scope'' (PStr OBSERVATION_SCOPE), item_eq v ''phase'' (PStr name)] ''BOOTSTRAP_TRACE_PHASE_OR_FIELDS'' (
     check [andthen (andthen (py_item v ''clock'') encoded_record) (\<lambda>a. andthen (andthen (py_item proposal ''clock'') encoded_record) (\<lambda>b. Inr (a = b)))]
       ''BOOTSTRAP_TRACE_CLOCK_CHANGED'' (
     check [item_eq v ''previousSha256'' (PStr (previous st))] ''BOOTSTRAP_TRACE_PREDECESSOR_CHANGED'' (
     andthen (andthen (py_item v ''beganNs'') alloc_integer) (\<lambda>began. andthen (andthen (py_item v ''returnedNs'') alloc_integer) (\<lambda>returned.
     req (last_ns st \<le> began \<and> began \<le> returned) ''BOOTSTRAP_TRACE_BACKWARDS'' (
     check [item_is (str_and (\<lambda>s. s \<in> set OUTCOMES)) v ''originalOutcome'',
            item_is (\<lambda>x. py_in x [PStr ''KNOWN'', PStr ''UNKNOWN'']) v ''retirement'', item_is is_bool v ''cancelled'']
       ''BOOTSTRAP_TRACE_DISPOSITION'' (
     Inr (began, returned))))))))"

definition trace_step :: "pyval \<Rightarrow> string \<times> (string \<times> int) \<Rightarrow> trace \<Rightarrow> trace res" where
  "trace_step proposal = (\<lambda>(raw, name, seconds) st.
     req (failures st = []) ''BOOTSTRAP_TRACE_TERMINAL_REUSE'' (
     andthen (parse raw OBSERVATION_LIMIT) (\<lambda>v.
     andthen (observed_phase proposal name st v) (\<lambda>(began, returned).
     andthen (andthen (path proposal [''phaseFencesNs'', name]) as_int) (\<lambda>fence.
     andthen (alloc_integer (PInt (began + seconds * NS))) (\<lambda>capped.
     let end1 = min fence capped in
     andthen (loop (group_step name began returned) CAPTURE_GROUPS (group_starts st, None, [])) (\<lambda>(starts1, group_end, captured).
     andthen (new_work name v began returned end1) (\<lambda>(soft, copied).
     andthen (disposition v) (\<lambda>adverse.
     Inr \<lparr>previous = sha256 raw, last_ns = returned,
       rows = rows st @ [\<lparr>original_sha256 = sha256 raw, observation = v, phase_end_ns = end1, native_capture_end_ns = group_end, new_work_end_ns = soft\<rparr>],
       failures = captured @ (if end1 \<le> returned then [''PHASE_FENCE_EXPIRED''] else []) @ copied @ adverse,
       group_starts = starts1\<rparr>)))))))))"

definition trace_of :: "pyval \<Rightarrow> string \<Rightarrow> int \<Rightarrow> string list \<Rightarrow> trace res" where
  "trace_of proposal predecessor_raw predecessor_ns observations =
     loop (trace_step proposal) (zip observations PHASES)
       \<lparr>previous = sha256 predecessor_raw, last_ns = predecessor_ns, rows = [], failures = [], group_starts = []\<rparr>"

definition trace_status :: "trace \<Rightarrow> string" where
  "trace_status st = (if failures st \<noteq> [] then ''FAILED_SUPPLIED_TRACE''
     else if len (rows st) = len PHASES then ''COMPLETE_SUPPLIED_TRACE'' else ''PREFIX_ONLY_SUPPLIED_TRACE'')"

definition optional_ns :: "int option \<Rightarrow> pyval" where
  "optional_ns t = (case t of None \<Rightarrow> PNone | Some n \<Rightarrow> PInt n)"

definition row_value :: "trace_row \<Rightarrow> pyval" where
  "row_value r = PDict [(''originalSha256'', PStr (original_sha256 r)), (''observation'', observation r), (''phaseEndNs'', PInt (phase_end_ns r)),
     (''nativeCaptureEndNs'', optional_ns (native_capture_end_ns r)), (''newWorkEndNs'', optional_ns (new_work_end_ns r))]"

definition derive_trace :: "string \<Rightarrow> pyval \<Rightarrow> clock_identity \<Rightarrow> string \<Rightarrow> reading \<Rightarrow> string list \<Rightarrow> pyval res" where
  "derive_trace proposal_raw basis clk predecessor_raw predecessor observations =
     andthen (validate_proposal proposal_raw basis) (\<lambda>proposal.
     andthen (validate_reading predecessor) (\<lambda>_.
     andthen (as_int (nanoseconds predecessor)) (\<lambda>ns.
     check [Inr (clock_eq (clock predecessor) clk),
            andthen (andthen (path proposal [''serviceTimeBasis'', ''service'', ''lastNs'']) as_int) (\<lambda>t. Inr (t \<le> ns))] ''BOOTSTRAP_TRACE_PREDECESSOR_CLOCK'' (
     req (0 < len predecessor_raw \<and> len predecessor_raw \<le> RECORD_LIMIT) ''BOOTSTRAP_TRACE_PREDECESSOR_BYTES'' (
     req (len observations \<le> len PHASES \<and> list_all (\<lambda>raw. 0 < len raw \<and> len raw \<le> OBSERVATION_LIMIT) observations) ''BOOTSTRAP_TRACE_ORIGINALS'' (
     andthen (trace_of proposal predecessor_raw ns observations) (\<lambda>st.
     andthen (py_item proposal ''clock'') (\<lambda>c.
     Inr (PDict [(''schema'', PInt 1), (''scope'', PStr TRACE_SCOPE), (''proposalSha256'', PStr (sha256 proposal_raw)), (''clock'', c),
       (''predecessorSha256'', PStr (sha256 predecessor_raw)), (''predecessorNs'', PInt ns), (''observations'', PList (map row_value (rows st))),
       (''lastNs'', PInt (last_ns st)), (''lastOriginalSha256'', PStr (previous st)), (''status'', PStr (trace_status st)),
       (''failureReasons'', strs (failures st)),
       (''consistencyScope'', PStr ''SUPPLIED_PREFIX_NOT_ORIGINAL_OUTCOME_CUSTODY_OR_SINGLE_USE''),
       (''budgetAcceptance'', PStr ''NOT_ADMITTED''), (''testAcceptance'', PStr ''NOT_PERFORMED''), (''exportSaveAuthority'', PBool False)])))))))))"

definition validate_trace :: "string \<Rightarrow> string \<Rightarrow> pyval \<Rightarrow> clock_identity \<Rightarrow> string \<Rightarrow> reading \<Rightarrow> string list \<Rightarrow> pyval res" where
  "validate_trace raw proposal_raw basis clk predecessor_raw predecessor observations =
     andthen (derive_trace proposal_raw basis clk predecessor_raw predecessor observations) (\<lambda>expected.
     check [andthen (encoded_record expected) (\<lambda>r. Inr (raw = r))] ''BOOTSTRAP_ALLOCATION_TRACE_CHANGED'' (Inr expected))"

section \<open>The fences\<close>

lemma unsigned_as_ok [ok_iff]: "unsigned_as code v = Inr i \<longleftrightarrow> v = PInt i \<and> 0 \<le> i \<and> i \<le> UINT64"
  by (auto simp: unsigned_as_def ok_iff int_and_iff as_int_def)

lemma basis_integer_ok [ok_iff]: "basis_integer v = Inr i \<longleftrightarrow> v = PInt i \<and> - UINT64 \<le> i \<and> i \<le> UINT64"
  by (auto simp: basis_integer_def ok_iff int_and_iff as_int_def)

lemma alloc_integer_ok [ok_iff]: "alloc_integer v = Inr i \<longleftrightarrow> v = PInt i \<and> 0 \<le> i \<and> i \<le> UINT64"
  by (simp add: alloc_integer_def unsigned_as_ok)

lemma job_end_ok [ok_iff]: "job_end_arithmetic v = Inr e \<longleftrightarrow> (\<exists>b. v = PInt b \<and> - UINT64 \<le> b \<and> b \<le> UINT64 \<and> e = b + SOURCE_JOB_SECONDS * NS \<and> 0 \<le> e \<and> e \<le> UINT64)"
  by (auto simp: job_end_arithmetic_def service_integer_def ok_iff)

fun fences_from :: "int \<Rightarrow> (string \<times> int) list \<Rightarrow> (string \<times> int) list" where
  "fences_from c [] = []"
| "fences_from c ((name, s) # ps) = (name, c + s * NS) # fences_from (c + s * NS) ps"

lemma fences_from_length [simp]: "length (fences_from c ps) = length ps"
  by (induction c ps rule: fences_from.induct) auto

lemma fences_from_nth:
  "i < length ps \<Longrightarrow> fences_from c ps ! i = (fst (ps ! i), c + NS * sum_list (map snd (take (Suc i) ps)))"
proof (induction c ps arbitrary: i rule: fences_from.induct)
  case (2 c name s ps)
  then show ?case by (cases i) (auto simp: algebra_simps)
qed simp

lemma sum_take_drop: "sum_list (map f (take n xs)) = sum_list (map f xs) - (sum_list (map f (drop n xs)) :: int)"
  by (metis add_diff_cancel_right' append_take_drop_id map_append sum_list_append)

lemma loop_fences:
  assumes "list_all (\<lambda>(_, s). 0 \<le> s \<and> s \<le> UINT64) ps" "0 \<le> c" "c + NS * sum_list (map snd ps) \<le> UINT64"
  shows "loop take_fence ps (c, fs) = Inr (c + NS * sum_list (map snd ps), fs @ fences_from c ps)"
  using assms
proof (induction ps arbitrary: c fs)
  case (Cons p ps)
  obtain name s where p: "p = (name, s)" by (cases p)
  have "0 \<le> sum_list (map snd ps)" using Cons.prems(1) by (intro sum_list_nonneg) (auto simp: list_all_iff)
  then have "0 \<le> NS * sum_list (map snd ps)" by (simp add: NS_def)
  moreover have s: "0 \<le> s" "s \<le> UINT64" "0 \<le> s * NS" using Cons.prems(1) p by (simp_all add: NS_def)
  ultimately have "c + s * NS \<le> UINT64" "c + s * NS + NS * sum_list (map snd ps) \<le> UINT64" "0 \<le> c + s * NS"
    using Cons.prems p by (auto simp: algebra_simps)
  then show ?case using Cons p s
    by (simp add: take_fence_def alloc_integer_def unsigned_as_def as_int_def algebra_simps)
qed simp

lemma phases_total: "allocated_seconds = 4650" "list_all (\<lambda>(_, s). 0 \<le> s \<and> s \<le> 1000) PHASES"
  "length (remdups (map fst PHASES)) = length PHASES" "list_all (\<lambda>(_, members). span_of members < 900) CAPTURE_GROUPS"
  by code_simp+

lemma loop_phases:
  assumes "0 \<le> c" "c + NS * allocated_seconds \<le> UINT64"
  shows "loop take_fence PHASES (c, []) = Inr (c + NS * allocated_seconds, fences_from c PHASES)"
proof -
  have "list_all (\<lambda>(_, s). 0 \<le> s \<and> s \<le> UINT64) PHASES"
    using phases_total(2) by (rule list.pred_mono_strong) (auto simp: UINT64_def)
  then show ?thesis using loop_fences [of PHASES c "[]"] assms by (simp add: allocated_seconds_def)
qed

lemma fence_value:
  assumes "- 750 * NS \<le> b" "b \<le> UINT64 - 5400 * NS"
  shows "fence_arithmetic (PInt b) = Inr (b + 750 * NS, b + 5400 * NS, fences_from (b + 750 * NS) PHASES)"
proof -
  have n: "UINT64 = 18446744073709551615" "NS = 1000000000" by (simp_all add: UINT64_def NS_def)
  have "basis_integer (PInt b) = Inr b" "job_end_arithmetic (PInt b) = Inr (b + 5400 * NS)"
    "alloc_integer (PInt allocated_seconds) = Inr 4650" "alloc_integer (PInt (b + 5400 * NS - 4650 * NS)) = Inr (b + 750 * NS)"
    using assms by (simp_all add: basis_integer_ok job_end_ok alloc_integer_ok phases_total SOURCE_JOB_SECONDS_def n)
  moreover have "loop take_fence PHASES (b + 750 * NS, []) = Inr (b + 5400 * NS, fences_from (b + 750 * NS) PHASES)"
    using loop_phases [of "b + 750 * NS"] assms by (simp add: phases_total n)
  ultimately show ?thesis
    using assms unfolding fence_arithmetic_def by (simp add: phases_total PROPOSED_JOB_SECONDS_def SOURCE_JOB_SECONDS_def)
qed

lemma fence_range:
  assumes "fence_arithmetic v = Inr r"
  obtains b where "v = PInt b" "- 750 * NS \<le> b" "b \<le> UINT64 - 5400 * NS"
proof (cases "basis_integer v")
  case (Inr b)
  then have "b \<le> UINT64 - 5400 * NS" "0 \<le> b + 5400 * NS - 4650 * NS"
    using assms unfolding fence_arithmetic_def andthen_ok req_ok alloc_integer_ok job_end_ok
    by (auto simp: phases_total PROPOSED_JOB_SECONDS_def SOURCE_JOB_SECONDS_def)
  then show ?thesis using that [of b] Inr by (simp add: basis_integer_ok)
qed (use assms in \<open>simp add: fence_arithmetic_def\<close>)

lemma fences_left:
  "fences_from (b + 750 * NS) PHASES
   = map (\<lambda>i. (fst (PHASES ! i), b + 5400 * NS - NS * sum_list (map snd (drop (Suc i) PHASES)))) [0..<length PHASES]"
  by (rule nth_equalityI) (simp_all add: fences_from_nth sum_take_drop phases_total(1) [unfolded allocated_seconds_def] algebra_simps)

text \<open>
  C29. The fence arithmetic of a proposal succeeds exactly for an integer job start basis from 750
  seconds before the native zero up to 5400 seconds before the 64-bit limit: the basis itself may
  precede the native zero, while the allocation start, every fence and the job end are unsigned 64-bit
  clock values.  The job then ends 5400 seconds after the basis, and every phase has its fence where
  the caps of all later phases are still left before that end.
\<close>

theorem fence_arithmetic_exact:
  "fence_arithmetic v = Inr (start, end1, fences) \<longleftrightarrow>
     (\<exists>b. v = PInt b \<and> - 750 * NS \<le> b \<and> b \<le> UINT64 - 5400 * NS \<and> start = b + 750 * NS \<and> end1 = b + 5400 * NS \<and>
       fences = map (\<lambda>i. (fst (PHASES ! i), end1 - NS * sum_list (map snd (drop (Suc i) PHASES)))) [0..<length PHASES])"
proof
  assume r: "fence_arithmetic v = Inr (start, end1, fences)"
  then obtain b where "v = PInt b" "- 750 * NS \<le> b" "b \<le> UINT64 - 5400 * NS" by (rule fence_range)
  then show "\<exists>b. v = PInt b \<and> - 750 * NS \<le> b \<and> b \<le> UINT64 - 5400 * NS \<and> start = b + 750 * NS \<and> end1 = b + 5400 * NS \<and>
       fences = map (\<lambda>i. (fst (PHASES ! i), end1 - NS * sum_list (map snd (drop (Suc i) PHASES)))) [0..<length PHASES]"
    using r by (auto simp: fence_value fences_left)
qed (auto simp: fence_value fences_left)

section \<open>The chain of a trace\<close>

text \<open>
  What a trace promises: every row names its own phase, the digest of the original before it and times
  that never run backwards.  A clean row succeeded, is not cancelled and was retired; it returned before
  the fence of its phase in the proposal, within the cap of its phase after its own begin and, in each
  capture group of its phase, within the caps of the group up to its phase after the begin of the
  group's first phase; and a copying phase did its last new work before the same end and within 90
  seconds.  None of this mentions the ends that the rows record, except that the recorded phase end
  is the earlier of the fence and the cap.
\<close>

definition returned_of :: "trace_row \<Rightarrow> int" where
  "returned_of r = (case int_item (observation r) ''returnedNs'' of Inr t \<Rightarrow> t | Inl _ \<Rightarrow> 0)"

definition observes :: "string \<Rightarrow> int \<Rightarrow> string \<Rightarrow> string \<Rightarrow> trace_row \<Rightarrow> bool" where
  "observes before t raw name r \<longleftrightarrow> parse raw OBSERVATION_LIMIT = Inr (observation r) \<and> original_sha256 r = sha256 raw
     \<and> py_item (observation r) ''phase'' = Inr (PStr name) \<and> py_item (observation r) ''previousSha256'' = Inr (PStr before)
     \<and> (\<exists>b. py_item (observation r) ''beganNs'' = Inr (PInt b) \<and> t \<le> b \<and> b \<le> returned_of r)
     \<and> py_item (observation r) ''returnedNs'' = Inr (PInt (returned_of r))"

fun chained :: "string \<Rightarrow> int \<Rightarrow> (string \<times> string) list \<Rightarrow> trace_row list \<Rightarrow> bool" where
  "chained before t [] rs = (rs = [])"
| "chained before t ((raw, name) # xs) rs =
     (case rs of [] \<Rightarrow> False | r # rs' \<Rightarrow> observes before t raw name r \<and> chained (sha256 raw) (returned_of r) xs rs')"

definition began_of :: "trace_row \<Rightarrow> int" where
  "began_of r = (case int_item (observation r) ''beganNs'' of Inr t \<Rightarrow> t | Inl _ \<Rightarrow> 0)"

text \<open>When a phase began, according to the rows of the phases so far.\<close>

definition began_at :: "trace_row list \<Rightarrow> string \<Rightarrow> int option" where
  "began_at rs name = map_of (zip (map fst PHASES) (map began_of rs)) name"

definition clean_row :: "pyval \<Rightarrow> trace_row list \<Rightarrow> (string \<times> int) \<times> trace_row \<Rightarrow> bool" where
  "clean_row proposal rs = (\<lambda>((name, seconds), r).
     py_item (observation r) ''originalOutcome'' = Inr (PStr ''success'') \<and> py_item (observation r) ''cancelled'' = Inr (PBool False)
     \<and> py_item (observation r) ''retirement'' = Inr (PStr ''KNOWN'')
     \<and> (\<exists>fence. andthen (path proposal [''phaseFencesNs'', name]) as_int = Inr fence
          \<and> phase_end_ns r = min fence (began_of r + seconds * NS)
          \<and> returned_of r < fence \<and> returned_of r < began_of r + seconds * NS
          \<and> (name \<in> set COPY_PHASES \<longrightarrow> (\<exists>w. py_item (observation r) ''lastNewWorkNs'' = Inr (PInt w)
               \<and> w < fence \<and> w < began_of r + seconds * NS \<and> w < began_of r + 90 * NS)))
     \<and> list_all (\<lambda>(group, members). name \<in> set members \<longrightarrow> (\<exists>b. began_at rs (hd members) = Some b
          \<and> returned_of r < b + span_of (takeWhile (\<lambda>m. m \<noteq> name) members @ [name]) * NS)) CAPTURE_GROUPS)"

lemma zip_prefix: "zip xs (ys @ zs) = zip xs ys @ zip (drop (length ys) xs) zs"
  using zip_append2 [of xs ys zs] zip_append2 [of xs ys "[]"] by simp

lemma began_at_more: "began_at rs m = Some b \<Longrightarrow> began_at (rs @ qs) m = Some b"
  by (simp add: began_at_def zip_prefix)

lemma clean_row_more: "clean_row proposal rs x \<Longrightarrow> clean_row proposal (rs @ qs) x"
  unfolding clean_row_def list_all_iff case_prod_beta using began_at_more by blast

lemma began_at_snoc:
  assumes "length rs < length PHASES"
  shows "began_at (rs @ [r]) m = (if m = fst (PHASES ! length rs) then Some (began_of r) else began_at rs m)"
proof -
  let ?P = "map fst PHASES" and ?n = "length rs"
  have "distinct ?P" using phases_total(3) by (metis card_distinct length_map length_remdups_card_conv)
  then have "?P ! ?n \<notin> set (take ?n ?P)" using assms by (simp add: distinct_conv_nth in_set_conv_nth nth_eq_iff_index_eq)
  then have "map_of (zip ?P (map began_of rs)) (?P ! ?n) = None"
    using zip_append2 [of ?P "map began_of rs" "[]"] by (auto simp: map_of_eq_None_iff dest: set_zip_leftD)
  moreover have "zip ?P (map began_of (rs @ [r])) = zip ?P (map began_of rs) @ [(?P ! ?n, began_of r)]"
    using assms by (simp add: zip_prefix Cons_nth_drop_Suc [symmetric] drop_map)
  ultimately show ?thesis using assms by (auto simp: began_at_def map_add_def split: option.splits)
qed

text \<open>The loop over the capture groups: it records the begin of a group at its first phase and fails when
  the row did not return in time.\<close>

lemma group_loop:
  assumes "loop (group_step name began returned) G (starts1, e1, fs1) = Inr (starts2, e2, fs2)" "distinct (map fst G)"
  shows "(\<forall>g. map_of starts2 g = (if \<exists>ms. (g, ms) \<in> set G \<and> name \<in> set ms \<and> name = hd ms then Some began else map_of starts1 g))
    \<and> (fs2 = [] \<longrightarrow> fs1 = [] \<and> (\<forall>(g, ms) \<in> set G. name \<in> set ms \<longrightarrow>
         (\<exists>b. map_of starts2 g = Some b \<and> returned < b + span_of (takeWhile (\<lambda>m. m \<noteq> name) ms @ [name]) * NS)))"
  using assms
proof (induction G arbitrary: starts1 e1 fs1)
  case (Cons x G)
  obtain g ms where x: "x = (g, ms)" by (cases x)
  obtain starts3 e3 fs3 where
    step: "group_step name began returned (g, ms) (starts1, e1, fs1) = Inr (starts3, e3, fs3)" and
    rest: "loop (group_step name began returned) G (starts3, e3, fs3) = Inr (starts2, e2, fs2)"
    using Cons.prems(1) x by (auto simp: andthen_ok)
  have IH: "(\<forall>g. map_of starts2 g = (if \<exists>ms. (g, ms) \<in> set G \<and> name \<in> set ms \<and> name = hd ms then Some began else map_of starts3 g))
    \<and> (fs2 = [] \<longrightarrow> fs3 = [] \<and> (\<forall>(g, ms) \<in> set G. name \<in> set ms \<longrightarrow>
         (\<exists>b. map_of starts2 g = Some b \<and> returned < b + span_of (takeWhile (\<lambda>m. m \<noteq> name) ms @ [name]) * NS)))"
    by (rule Cons.IH [OF rest]) (use Cons.prems(2) in simp)
  have fresh: "(g, ms') \<notin> set G" for ms' using Cons.prems(2) x by force
  then have keep: "map_of starts2 g = map_of starts3 g" using IH by simp
  show ?case
  proof (cases "name \<in> set ms")
    case False
    then have "starts3 = starts1" "fs3 = fs1" using step by (simp_all add: group_step_def)
    then show ?thesis using IH False x by auto
  next
    case True
    then obtain b where b: "map_of starts3 g = Some b" "starts3 = (if name = hd ms then (g, began) # starts1 else starts1)"
      "fs3 = (if b + span_of (takeWhile (\<lambda>m. m \<noteq> name) ms @ [name]) * NS \<le> returned
        then fs1 @ [''NATIVE_CAPTURE_FENCE_EXPIRED''] else fs1)"
      using step unfolding group_step_def prod.case Let_def
      by (auto simp: andthen_ok alloc_integer_ok split: option.splits if_splits)
    have "map_of starts2 k = (if \<exists>ms'. (k, ms') \<in> set (x # G) \<and> name \<in> set ms' \<and> name = hd ms' then Some began else map_of starts1 k)" for k
      using IH x b(2) True fresh by auto
    moreover have "fs1 = [] \<and> returned < b + span_of (takeWhile (\<lambda>m. m \<noteq> name) ms @ [name]) * NS" if "fs2 = []"
      using IH that b(3) by (auto split: if_splits)
    ultimately show ?thesis using IH keep b(1) x by auto
  qed
qed simp

lemma new_work_clean:
  assumes "new_work name v began returned end1 = Inr (soft, [])" "name \<in> set COPY_PHASES"
  shows "\<exists>w. py_item v ''lastNewWorkNs'' = Inr (PInt w) \<and> w < end1 \<and> w < began + 90 * NS"
  using assms unfolding new_work_def Let_def
  by (auto simp: andthen_ok req_ok alloc_integer_ok split: if_splits)

definition group_began :: "trace \<Rightarrow> bool" where
  "group_began st \<longleftrightarrow> (\<forall>(g, ms) \<in> set CAPTURE_GROUPS. map_of (group_starts st) g = began_at (rows st) (hd ms))"

lemma groups_fixed: "distinct (map fst CAPTURE_GROUPS)" "list_all (\<lambda>(_, ms). ms \<noteq> []) CAPTURE_GROUPS"
  by code_simp+

lemma chained_length: "chained before t xs rs \<Longrightarrow> length rs = length xs"
  by (induction before t xs rs rule: chained.induct) (auto split: list.splits)

lemma chained_snoc:
  "chained before t (xs @ [(raw, name)]) (rs @ [r]) \<longleftrightarrow> chained before t xs rs
     \<and> observes (if xs = [] then before else sha256 (fst (last xs))) (if rs = [] then t else returned_of (last rs)) raw name r"
proof (induction before t xs rs rule: chained.induct)
  case (1 before t rs)
  then show ?case by (cases rs) auto
next
  case (2 before t raw' name' xs rs)
  then show ?case by (cases rs) (auto split: list.splits dest: chained_length)
qed

lemma observed_phase_ok:
  assumes "observed_phase proposal name st v = Inr (began, returned)"
  shows "py_item v ''phase'' = Inr (PStr name)" "py_item v ''previousSha256'' = Inr (PStr (previous st))"
    "py_item v ''beganNs'' = Inr (PInt began)" "py_item v ''returnedNs'' = Inr (PInt returned)" "last_ns st \<le> began" "began \<le> returned"
    "\<exists>x. py_item v ''cancelled'' = Inr (PBool x)" "\<exists>x. py_item v ''retirement'' = Inr (PStr x) \<and> x \<in> {''KNOWN'', ''UNKNOWN''}"
proof -
  have raw: "item_eq v ''phase'' (PStr name) = Inr True" "item_eq v ''previousSha256'' (PStr (previous st)) = Inr True"
    "andthen (py_item v ''beganNs'') alloc_integer = Inr began" "andthen (py_item v ''returnedNs'') alloc_integer = Inr returned"
    "last_ns st \<le> began" "began \<le> returned" "item_is is_bool v ''cancelled'' = Inr True"
    "item_is (\<lambda>x. py_in x [PStr ''KNOWN'', PStr ''UNKNOWN'']) v ''retirement'' = Inr True"
    using assms unfolding observed_phase_def check_ok list.pred_inject
    by (simp_all only: andthen_ok [of "andthen a b" for a b] req_ok check_ok list.pred_inject sum.inject prod.inject) (elim exE conjE, simp)+
  then show "py_item v ''phase'' = Inr (PStr name)" "py_item v ''previousSha256'' = Inr (PStr (previous st))"
    "py_item v ''beganNs'' = Inr (PInt began)" "py_item v ''returnedNs'' = Inr (PInt returned)" "last_ns st \<le> began" "began \<le> returned"
    "\<exists>x. py_item v ''cancelled'' = Inr (PBool x)"
    unfolding item_eq_ok item_is_ok andthen_ok alloc_integer_ok by (auto simp: type_iff)
  show "\<exists>x. py_item v ''retirement'' = Inr (PStr x) \<and> x \<in> {''KNOWN'', ''UNKNOWN''}"
    using raw(8) by (auto simp: item_is_ok py_in_def)
qed

lemma zip_snoc: "length xs < length ys \<Longrightarrow> zip (xs @ [x]) ys = zip xs ys @ [(x, ys ! length xs)]"
proof (induction xs arbitrary: ys)
  case Nil
  then show ?case by (cases ys) auto
next
  case (Cons a xs)
  then show ?case by (cases ys) auto
qed

lemma disposition_clean:
  assumes "disposition v = Inr []" "\<exists>x. py_item v ''cancelled'' = Inr (PBool x)" "\<exists>x. py_item v ''retirement'' = Inr (PStr x) \<and> x \<in> {''KNOWN'', ''UNKNOWN''}"
  shows "py_item v ''originalOutcome'' = Inr (PStr ''success'')" "py_item v ''cancelled'' = Inr (PBool False)" "py_item v ''retirement'' = Inr (PStr ''KNOWN'')"
  using assms unfolding disposition_def andthen_ok
  by (elim exE conjE, simp add: truth_def split: if_splits; fail)+

lemma trace_step_parts:
  assumes "trace_step proposal (raw, name, seconds) st = Inr st'"
  obtains v began returned fence starts1 group_end captured soft copied adverse r where
    "failures st = []" "parse raw OBSERVATION_LIMIT = Inr v" "observed_phase proposal name st v = Inr (began, returned)"
    "andthen (path proposal [''phaseFencesNs'', name]) as_int = Inr fence"
    "loop (group_step name began returned) CAPTURE_GROUPS (group_starts st, None, []) = Inr (starts1, group_end, captured)"
    "new_work name v began returned (min fence (began + seconds * NS)) = Inr (soft, copied)" "disposition v = Inr adverse"
    "r = \<lparr>original_sha256 = sha256 raw, observation = v, phase_end_ns = min fence (began + seconds * NS),
       native_capture_end_ns = group_end, new_work_end_ns = soft\<rparr>"
    "st' = \<lparr>previous = sha256 raw, last_ns = returned, rows = rows st @ [r],
       failures = captured @ (if min fence (began + seconds * NS) \<le> returned then [''PHASE_FENCE_EXPIRED''] else []) @ copied @ adverse,
       group_starts = starts1\<rparr>"
proof -
  obtain v br fence c g w adverse where q: "failures st = []" "parse raw OBSERVATION_LIMIT = Inr v"
    "observed_phase proposal name st v = Inr br" "andthen (path proposal [''phaseFencesNs'', name]) as_int = Inr fence"
    "alloc_integer (PInt (fst br + seconds * NS)) = Inr c"
    "loop (group_step name (fst br) (snd br)) CAPTURE_GROUPS (group_starts st, None, []) = Inr g"
    "new_work name v (fst br) (snd br) (min fence c) = Inr w" "disposition v = Inr adverse"
    "Inr \<lparr>previous = sha256 raw, last_ns = snd br,
       rows = rows st @ [\<lparr>original_sha256 = sha256 raw, observation = v, phase_end_ns = min fence c,
         native_capture_end_ns = fst (snd g), new_work_end_ns = fst w\<rparr>],
       failures = snd (snd g) @ (if min fence c \<le> snd br then [''PHASE_FENCE_EXPIRED''] else []) @ snd w @ adverse,
       group_starts = fst g\<rparr> = (Inr st' :: trace res)"
    using assms unfolding trace_step_def case_prod_beta andthen_ok req_ok Let_def fst_conv snd_conv by blast
  have c: "c = fst br + seconds * NS" using q(5) by (simp add: alloc_integer_ok)
  note q = q [unfolded c]
  show ?thesis
    by (rule that [of v "fst br" "snd br" fence "fst g" "fst (snd g)" "snd (snd g)" "fst w" "snd w" adverse,
          OF q(1,2) _ q(4) _ _ q(8) refl q(9) [THEN Inr_inject, symmetric]])
      (simp_all only: prod.collapse q)
qed

lemma trace_step_ok:
  assumes "trace_step proposal (raw, name, seconds) st = Inr st'"
    and now: "length (rows st) < length PHASES" "PHASES ! length (rows st) = (name, seconds)" and groups: "group_began st"
  obtains r where "failures st = []" "rows st' = rows st @ [r]" "previous st' = sha256 raw" "last_ns st' = returned_of r"
    "observes (previous st) (last_ns st) raw name r" "group_began st'"
    "failures st' = [] \<longrightarrow> clean_row proposal (rows st') ((name, seconds), r)"
proof -
  obtain v began returned fence starts1 group_end captured soft copied adverse r where
    f: "failures st = []" and v: "parse raw OBSERVATION_LIMIT = Inr v" and o: "observed_phase proposal name st v = Inr (began, returned)"
    and p: "andthen (path proposal [''phaseFencesNs'', name]) as_int = Inr fence"
    and g: "loop (group_step name began returned) CAPTURE_GROUPS (group_starts st, None, []) = Inr (starts1, group_end, captured)"
    and w: "new_work name v began returned (min fence (began + seconds * NS)) = Inr (soft, copied)" and d: "disposition v = Inr adverse"
    and r: "r = \<lparr>original_sha256 = sha256 raw, observation = v, phase_end_ns = min fence (began + seconds * NS),
       native_capture_end_ns = group_end, new_work_end_ns = soft\<rparr>"
    and st': "st' = \<lparr>previous = sha256 raw, last_ns = returned, rows = rows st @ [r],
       failures = captured @ (if min fence (began + seconds * NS) \<le> returned then [''PHASE_FENCE_EXPIRED''] else []) @ copied @ adverse,
       group_starts = starts1\<rparr>"
    using trace_step_parts [OF assms(1)] .
  note o = observed_phase_ok [OF o]
  have ret: "returned_of r = returned" "began_of r = began"
    using o(3,4) by (simp_all add: r returned_of_def began_of_def int_item_def as_int_def)
  have at: "began_at (rows st') m = (if m = name then Some began else began_at (rows st) m)" for m
    using began_at_snoc [OF now(1), of r m] now(2) ret(2) by (simp add: st')
  note gl = group_loop [OF g groups_fixed(1)]
  have G: "group_began st'" unfolding group_began_def
  proof (clarify)
    fix h ms assume m: "(h, ms) \<in> set CAPTURE_GROUPS"
    then have "ms' = ms" if "(h, ms') \<in> set CAPTURE_GROUPS" for ms' using groups_fixed(1) that by (metis eq_key_imp_eq_value)
    moreover have "hd ms \<in> set ms" using m groups_fixed(2) by (auto simp: list_all_iff)
    ultimately have "(\<exists>ms'. (h, ms') \<in> set CAPTURE_GROUPS \<and> name \<in> set ms' \<and> name = hd ms') \<longleftrightarrow> name = hd ms" using m by metis
    then have "map_of starts1 h = (if name = hd ms then Some began else map_of (group_starts st) h)"
      using spec [OF conjunct1 [OF gl], of h] by simp
    then show "map_of (group_starts st') h = began_at (rows st') (hd ms)" using groups m unfolding at by (auto simp: st' group_began_def)
  qed
  have "clean_row proposal (rows st') ((name, seconds), r)" if "failures st' = []"
  proof -
    have none: "captured = []" "copied = []" "adverse = []" "returned < fence" "returned < began + seconds * NS"
      using that st' by (auto split: if_splits)
    have "list_all (\<lambda>(group, members). name \<in> set members \<longrightarrow> (\<exists>b. began_at (rows st') (hd members) = Some b
        \<and> returned < b + span_of (takeWhile (\<lambda>m. m \<noteq> name) members @ [name]) * NS)) CAPTURE_GROUPS"
      using gl none(1) G unfolding list_all_iff group_began_def st' by fastforce
    moreover have "name \<in> set COPY_PHASES \<longrightarrow> (\<exists>w. py_item v ''lastNewWorkNs'' = Inr (PInt w)
        \<and> w < fence \<and> w < began + seconds * NS \<and> w < began + 90 * NS)"
      using new_work_clean [of name v began returned "min fence (began + seconds * NS)" soft] w none(2) by auto
    ultimately show ?thesis using disposition_clean [of v] d none o(7,8) ret p by (simp add: clean_row_def r del: path.simps)
  qed
  moreover have "observes (previous st) (last_ns st) raw name r" using v o(1-6) ret by (simp add: observes_def r)
  ultimately show ?thesis using that [of r] f st' ret G by simp
qed

lemma trace_of_snoc:
  assumes "length obs < length PHASES"
  shows "trace_of proposal pre ns (obs @ [raw]) = andthen (trace_of proposal pre ns obs) (trace_step proposal (raw, PHASES ! length obs))"
proof -
  have "zip (obs @ [raw]) PHASES = zip obs PHASES @ [(raw, PHASES ! length obs)]"
    using assms by (rule zip_snoc)
  moreover have "andthen r (loop f [x]) = andthen r (f x)" for r :: "trace res" and f x
    by (cases r) (auto simp: andthen_def split: sum.splits)
  ultimately show ?thesis by (simp only: trace_of_def loop_append)
qed

lemma trace_chained:
  assumes "trace_of proposal pre ns obs = Inr st" "length obs \<le> length PHASES"
  shows "chained (sha256 pre) ns (zip obs (map fst PHASES)) (rows st) \<and> previous st = sha256 (last (pre # obs))
    \<and> last_ns st = (if rows st = [] then ns else returned_of (last (rows st))) \<and> group_began st
    \<and> list_all (clean_row proposal (rows st)) (zip PHASES (if failures st = [] then rows st else butlast (rows st)))"
  using assms
proof (induction obs arbitrary: st rule: rev_induct)
  case (snoc raw obs)
  obtain name seconds where p: "PHASES ! length obs = (name, seconds)" by (cases "PHASES ! length obs")
  have "andthen (trace_of proposal pre ns obs) (trace_step proposal (raw, name, seconds)) = Inr st"
    using snoc.prems trace_of_snoc [of obs proposal pre ns raw] p by simp
  then obtain st0 where st0: "trace_of proposal pre ns obs = Inr st0" "trace_step proposal (raw, name, seconds) st0 = Inr st"
    unfolding andthen_ok by blast
  note prior = snoc.IH [OF st0(1)]
  have n: "length (rows st0) = length obs" using prior snoc.prems chained_length by fastforce
  obtain r where r: "failures st0 = []" "rows st = rows st0 @ [r]" "previous st = sha256 raw" "last_ns st = returned_of r"
    "observes (previous st0) (last_ns st0) raw name r" "group_began st"
    "failures st = [] \<longrightarrow> clean_row proposal (rows st) ((name, seconds), r)"
    using trace_step_ok [OF st0(2)] prior snoc.prems n p by auto
  have z: "zip (obs @ [raw]) (map fst PHASES) = zip obs (map fst PHASES) @ [(raw, name)]"
    using snoc.prems p by (simp add: zip_snoc)
  have IH: "chained (sha256 pre) ns (zip obs (map fst PHASES)) (rows st0)" "previous st0 = sha256 (last (pre # obs))"
    "last_ns st0 = (if rows st0 = [] then ns else returned_of (last (rows st0)))"
    "list_all (clean_row proposal (rows st0)) (zip PHASES (rows st0))"
    using prior snoc.prems r(1) by simp_all
  have "zip obs (map fst PHASES) = [] \<longleftrightarrow> obs = []" "obs \<noteq> [] \<Longrightarrow> fst (last (zip obs (map fst PHASES))) = last obs"
    using snoc.prems by (auto simp: zip_eq_Nil_iff PHASES_def last_conv_nth min_def)
  then have "chained (sha256 pre) ns (zip (obs @ [raw]) (map fst PHASES)) (rows st)"
    using IH r(2,5) unfolding z r(2) chained_snoc by (cases "obs = []") auto
  moreover have "list_all (clean_row proposal (rows st)) (zip PHASES (rows st0))"
    using IH(4) clean_row_more unfolding r(2) list_all_iff by blast
  moreover have "zip PHASES (rows st) = zip PHASES (rows st0) @ [((name, seconds), r)]"
    using snoc.prems n p by (simp add: r(2) zip_prefix Cons_nth_drop_Suc [symmetric])
  ultimately show ?case using r by simp
qed (auto simp: trace_of_def group_began_def began_at_def)

text \<open>
  C30. In an accepted trace of at most one observation per phase, as \<open>derive_trace\<close> requires, every observation is the one of its phase, carries the digest of the
  original before it and begins no earlier than its predecessor returned, and every row but the last
  one is clean.  When the trace has no failure the last row is clean too, and it is complete exactly
  when it moreover has one row per phase.  A clean row is successful, uncancelled and retired, returned
  before the proposal's fence of its phase and within its cap, within the span of its native capture
  group counted from the begin of the group's first phase, and, for a copying phase, did its last new
  work before that end and within 90 seconds.
\<close>

theorem trace_is_chain:
  assumes "trace_of proposal pre ns obs = Inr st" "length obs \<le> length PHASES"
  shows "chained (sha256 pre) ns (zip obs (map fst PHASES)) (rows st) \<and> length (rows st) = length obs
    \<and> list_all (clean_row proposal (rows st)) (zip PHASES (butlast (rows st)))
    \<and> (failures st = [] \<longrightarrow> list_all (clean_row proposal (rows st)) (zip PHASES (rows st)))
    \<and> (trace_status st = ''COMPLETE_SUPPLIED_TRACE'' \<longleftrightarrow> failures st = [] \<and> length obs = length PHASES)"
proof -
  note c = trace_chained [OF assms]
  then have len: "length (rows st) = length obs" using assms(2) chained_length by fastforce
  have "zip PHASES (rows st) = zip PHASES (butlast (rows st)) @ zip (drop (length (butlast (rows st))) PHASES) [last (rows st)]" if "rows st \<noteq> []"
    using zip_prefix [of PHASES "butlast (rows st)" "[last (rows st)]"] append_butlast_last_id [OF that] by metis
  then have "list_all (clean_row proposal (rows st)) (zip PHASES (butlast (rows st)))"
    using c by (cases "failures st = []"; cases "rows st = []") auto
  moreover have "trace_status st = ''COMPLETE_SUPPLIED_TRACE'' \<longleftrightarrow> failures st = [] \<and> length obs = length PHASES"
    using len by (auto simp: trace_status_def len_def)
  ultimately show ?thesis using c len by (cases "failures st = []") simp_all
qed

text \<open>A first observation that succeeded.\<close>

lemma parse_written:
  assumes "jok v" "canon v = v" "is_dict v" "int (jbound v) < limit"
  shows "parse (text_of_record v) limit = Inr v"
proof -
  have t: "record_text v = Inr (text_of_record v)" by (rule record_text_of [OF assms(1)])
  have "json_loads_bytes h (text_of_record v) = Inr v" if "good_hooks h" for h
    using record_stored [OF jok_storable(1) [OF assms(1)] t that] assms(2) by simp
  moreover have "0 < len (text_of_record v)" using t by (auto simp: record_text_def andthen_ok len_def)
  moreover have "len (text_of_record v) \<le> limit"
    using record_text_length [OF jok_storable(1) [OF assms(1)] t] assms(4) by (simp add: len_def)
  ultimately show ?thesis using assms(3) by (simp add: parse_def)
qed

definition sample_proposal :: pyval where
  "sample_proposal = PDict [(''clock'', PStr ''clock''), (''phaseFencesNs'', PDict [(''productive-entry'', PInt 1000)])]"

definition sample_observation :: pyval where
  "sample_observation = PDict [(''beganNs'', PInt 5), (''cancelled'', PBool False), (''clock'', PStr ''clock''), (''lastNewWorkNs'', PNone),
     (''originalOutcome'', PStr ''success''), (''phase'', PStr ''productive-entry''), (''previousSha256'', PStr (sha256 ''start'')),
     (''retirement'', PStr ''KNOWN''), (''returnedNs'', PInt 7), (''schema'', PInt 1), (''scope'', PStr OBSERVATION_SCOPE)]"

lemma sample_observation_read: "parse (text_of_record sample_observation) OBSERVATION_LIMIT = Inr sample_observation"
proof (rule parse_written)
  have "list_all plain_str (OBSERVATION_FIELDS @ [''clock'', ''success'', ''productive-entry'', ''KNOWN'', OBSERVATION_SCOPE])"
    "distinct OBSERVATION_FIELDS" by code_simp+
  then show "jok sample_observation"
    by (intro jok_moderate) (simp_all add: sample_observation_def OBSERVATION_FIELDS_def)
  show "canon sample_observation = sample_observation" by (simp add: sample_observation_def)
  have "length (sha256 x) = 64" for x using sha256_hex [of x] by (simp add: hexn_def)
  then show "int (jbound sample_observation) < OBSERVATION_LIMIT"
    by (simp add: sample_observation_def OBSERVATION_SCOPE_def OBSERVATION_LIMIT_def show_int_def show_nat.simps)
qed (simp add: sample_observation_def)

lemma sample_trace: "\<exists>st. trace_of sample_proposal ''start'' 3 [text_of_record sample_observation] = Inr st \<and> failures st = []"
proof -
  have "\<not> isl (encoded_record (PStr ''clock''))" by code_simp
  then have c: "\<exists>x. encoded_record (PStr ''clock'') = Inr x" unfolding returns_iff .
  have "closed_dict sample_observation OBSERVATION_FIELDS"
    by (simp add: sample_observation_def closed_dict_def keys_eq_def OBSERVATION_FIELDS_def insert_commute)
  moreover have i: "py_item sample_observation ''beganNs'' = Inr (PInt 5)" "py_item sample_observation ''cancelled'' = Inr (PBool False)"
    "py_item sample_observation ''clock'' = Inr (PStr ''clock'')" "py_item sample_observation ''lastNewWorkNs'' = Inr PNone"
    "py_item sample_observation ''originalOutcome'' = Inr (PStr ''success'')" "py_item sample_observation ''phase'' = Inr (PStr ''productive-entry'')"
    "py_item sample_observation ''previousSha256'' = Inr (PStr (sha256 ''start''))" "py_item sample_observation ''retirement'' = Inr (PStr ''KNOWN'')"
    "py_item sample_observation ''returnedNs'' = Inr (PInt 7)" "py_item sample_observation ''schema'' = Inr (PInt 1)"
    "py_item sample_observation ''scope'' = Inr (PStr OBSERVATION_SCOPE)" "py_item sample_proposal ''clock'' = Inr (PStr ''clock'')"
    by (simp_all add: sample_observation_def sample_proposal_def py_item_PDict)
  ultimately have o: "observed_phase sample_proposal ''productive-entry''
      \<lparr>previous = sha256 ''start'', last_ns = 3, rows = [], failures = [], group_starts = []\<rparr> sample_observation = Inr (5, 7)"
    using c unfolding observed_phase_def
    by (auto simp: check_pass item_eq_def item_is_def i alloc_integer_def unsigned_as_def as_int_def UINT64_def OUTCOMES_def py_in_def)
  have p: "andthen (path sample_proposal [''phaseFencesNs'', ''productive-entry'']) as_int = Inr 1000" by code_simp
  have g: "loop (group_step ''productive-entry'' 5 7) CAPTURE_GROUPS ([], None, []) = Inr ([], None, [])" by code_simp
  have w: "new_work ''productive-entry'' sample_observation 5 7 1000 = Inr (None, [])" "disposition sample_observation = Inr []"
    by (simp_all add: new_work_def COPY_PHASES_def check_pass item_is_def i disposition_def truth_def)
  have z: "zip [raw] PHASES = [(raw, ''productive-entry'', 120)]" for raw :: string by (simp add: PHASES_def)
  have a: "alloc_integer (PInt (5 + 120 * NS)) = Inr (5 + 120 * NS)" "min 1000 (5 + 120 * NS) = (1000 :: int)"
    by (simp_all add: alloc_integer_ok NS_def UINT64_def)
  have "\<exists>st. trace_step sample_proposal (text_of_record sample_observation, ''productive-entry'', 120)
      \<lparr>previous = sha256 ''start'', last_ns = 3, rows = [], failures = [], group_starts = []\<rparr> = Inr st \<and> failures st = []"
    unfolding trace_step_def prod.case by (simp add: sample_observation_read o p g w a del: path.simps)
  then show ?thesis unfolding trace_of_def z by auto
qed

theorem trace_is_chain_witness:
  "\<exists>st. trace_of sample_proposal ''start'' 3 [text_of_record sample_observation] = Inr st
     \<and> chained (sha256 ''start'') 3 (zip [text_of_record sample_observation] (map fst PHASES)) (rows st) \<and> length (rows st) = 1
     \<and> failures st = [] \<and> list_all (clean_row sample_proposal (rows st)) (zip PHASES (rows st))"
  using sample_trace trace_is_chain [of sample_proposal "''start''" 3 "[text_of_record sample_observation]"]
  by (auto simp: PHASES_def)

end
