(* ===== verification/Liveness_Pipe.thy ===== *)
theory Liveness_Pipe
  imports PyCheck Step_System
begin

text \<open>
  The facade liveness pipe of the Apple CI keeper, \<^verbatim>\<open>src/scripts/rpc_apple_ci_liveness.py\<close>: the descriptor
  owners, the keeper's read end with its latched observation and its transfer plan, and the allocation
  of the pipe.  The operating system is the record \<open>os_view\<close> of the answers it gives during one method
  call, and every call of a run has a view of its own.  The allocation, which calls several methods, has
  a sequence of views \<open>os 0, os 1, \<dots>\<close>, a new one for each, so that a descriptor may have changed between
  its adoption and its cleanup.  Closing a descriptor is the effect \<open>int list\<close> of a call (the numbers
  passed to \<open>os.close\<close>).  The identity of a plan object is a number.

  The lemmas show that a latched cancellation never changes, that an owner closes its descriptor at most
  once whatever calls are made, and that a failed allocation leaves no descriptor behind silently: one
  that is not passed to \<open>os.close\<close> has changed its identity, and the failure is reported.
\<close>

section \<open>The operating system\<close>

text \<open>\<open>os.read(fd, 1)\<close>: data (\<open>None\<close> for a result that is not \<open>bytes\<close>), would block, an invalid descriptor, or
  another error.\<close>

datatype read_result = Data "string option" | WouldBlock | BadDescriptor | OtherError

record os_view =
  posix :: bool
  fstat_of :: "int \<Rightarrow> (int \<times> int \<times> int) option"
  is_fifo :: "int \<Rightarrow> bool"
  access_of :: "int \<Rightarrow> int option"
  nonblock_of :: "int \<Rightarrow> bool option"
  inheritable_of :: "int \<Rightarrow> bool option"
  set_inheritable_ok :: "int \<Rightarrow> bool"
  set_blocking_ok :: "int \<Rightarrow> bool"
  read_of :: "int \<Rightarrow> read_result"
  close_ok :: "int \<Rightarrow> bool"

definition O_RDONLY :: int where "O_RDONLY = 0"
definition O_WRONLY :: int where "O_WRONLY = 1"

definition raise_os :: "'a option \<Rightarrow> 'a res" where
  "raise_os x = (case x of None \<Rightarrow> Inl OSError | Some y \<Rightarrow> Inr y)"

definition fail_if :: "bool \<Rightarrow> exn \<Rightarrow> 'a res \<Rightarrow> 'a res" where
  "fail_if c e k = (if c then Inl e else k)"

type_synonym fingerprint = "int \<times> int \<times> int \<times> int"

text \<open>\<open>fstat_of\<close> gives device, inode and file type\<close>

definition fingerprint :: "os_view \<Rightarrow> int \<Rightarrow> int \<Rightarrow> fingerprint res" where
  "fingerprint os fd access =
     fail_if (\<not> posix os \<or> fd < 3) ValueError (
     andthen (raise_os (fstat_of os fd)) (\<lambda>(dev, ino, fmt).
     andthen (raise_os (access_of os fd)) (\<lambda>mode.
     fail_if (\<not> is_fifo os fmt \<or> mode \<noteq> access) ValueError (
     Inr (dev, ino, fmt, mode)))))"

section \<open>Descriptor owners\<close>

record descriptor_owner =
  own_fingerprint :: fingerprint
  own_access :: int
  own_fd :: "int option"
  close_result :: "bool option"

definition new_owner :: "os_view \<Rightarrow> int \<Rightarrow> int \<Rightarrow> descriptor_owner res" where
  "new_owner os fd access =
     andthen (fingerprint os fd access) (\<lambda>f.
     Inr \<lparr>own_fingerprint = f, own_access = access, own_fd = Some fd, close_result = None\<rparr>)"

definition owned_fd :: "os_view \<Rightarrow> 'a descriptor_owner_scheme \<Rightarrow> int option \<times> 'a descriptor_owner_scheme" where
  "owned_fd os w = (case own_fd w of
      None \<Rightarrow> (None, w)
    | Some fd \<Rightarrow>
        if fingerprint os fd (own_access w) = Inr (own_fingerprint w) then (Some fd, w)
        else (None, w\<lparr>own_fd := None, close_result := Some False\<rparr>))"

definition close_owner :: "os_view \<Rightarrow> 'a descriptor_owner_scheme \<Rightarrow> bool \<times> 'a descriptor_owner_scheme \<times> int list" where
  "close_owner os w = (case owned_fd os w of
      (None, w') \<Rightarrow> (close_result w' = Some True, w', [])
    | (Some fd, w') \<Rightarrow> (close_ok os fd, w'\<lparr>own_fd := None, close_result := Some (close_ok os fd)\<rparr>, [fd]))"

section \<open>The read end\<close>

datatype pipe_state = UNDECIDED | CANCEL

record keeper_read_end = descriptor_owner +
  pipe_state :: pipe_state
  reason :: "string option"
  plan :: "(nat \<times> int list) option"
  plans_made :: nat

definition new_reader :: "os_view \<Rightarrow> int \<Rightarrow> keeper_read_end res" where
  "new_reader os fd =
     andthen (new_owner os fd O_RDONLY) (\<lambda>w.
     Inr (descriptor_owner.extend w (keeper_read_end.fields UNDECIDED None None 0)))"

text \<open>The checks of the inherited number have the view \<open>os\<close>, the constructor called after them \<open>os1\<close>.\<close>

definition adopt_inherited :: "os_view \<Rightarrow> os_view \<Rightarrow> int \<Rightarrow> keeper_read_end res" where
  "adopt_inherited os os1 fd =
     andthen (fingerprint os fd O_RDONLY) (\<lambda>_.
     andthen (raise_os (nonblock_of os fd)) (\<lambda>nonblock.
     fail_if (\<not> nonblock) ValueError (
     fail_if (\<not> set_inheritable_ok os fd) OSError (
     andthen (raise_os (inheritable_of os fd)) (\<lambda>inherits.
     fail_if inherits ValueError (new_reader os1 fd))))))"

definition cancel :: "string \<Rightarrow> keeper_read_end \<Rightarrow> keeper_read_end" where
  "cancel why r = (if pipe_state r \<noteq> CANCEL then r\<lparr>pipe_state := CANCEL, reason := Some why\<rparr> else r)"

definition readable_fd :: "os_view \<Rightarrow> keeper_read_end \<Rightarrow> int option \<times> keeper_read_end" where
  "readable_fd os r = (case owned_fd os r of
      (None, r') \<Rightarrow> (None, cancel ''DESCRIPTOR_UNCERTAIN'' r')
    | (Some fd, r') \<Rightarrow>
        if nonblock_of os fd = Some True \<and> inheritable_of os fd = Some False then (Some fd, r')
        else (None, cancel ''DESCRIPTOR_FLAGS'' r'))"

definition observe :: "os_view \<Rightarrow> keeper_read_end \<Rightarrow> keeper_read_end" where
  "observe os r =
     (if pipe_state r = CANCEL then r
      else case readable_fd os r of
          (None, r') \<Rightarrow> r'
        | (Some fd, r') \<Rightarrow> (case read_of os fd of
              WouldBlock \<Rightarrow> r'
            | BadDescriptor \<Rightarrow> cancel ''READ_ERROR'' (r'\<lparr>own_fd := None, close_result := Some False\<rparr>)
            | OtherError \<Rightarrow> cancel ''READ_ERROR'' r'
            | Data None \<Rightarrow> cancel ''READ_RESULT_INVALID'' r'
            | Data (Some bytes) \<Rightarrow> cancel (if bytes \<noteq> [] then ''UNEXPECTED_DATA'' else ''EOF'') r'))"

definition spawn_plan :: "os_view \<Rightarrow> keeper_read_end \<Rightarrow> (nat \<times> int list) res \<times> keeper_read_end" where
  "spawn_plan os r =
     (if pipe_state r = CANCEL then (Inl ValueError, r)
      else case readable_fd os r of
          (None, r') \<Rightarrow> (Inl ValueError, r')
        | (Some fd, r') \<Rightarrow> (case plan r' of
              Some p \<Rightarrow> (Inr p, r')
            | None \<Rightarrow> (Inr (plans_made r', [fd]), r'\<lparr>plan := Some (plans_made r', [fd]), plans_made := Suc (plans_made r')\<rparr>)))"

definition close_reader :: "os_view \<Rightarrow> keeper_read_end \<Rightarrow> bool \<times> keeper_read_end \<times> int list" where
  "close_reader os r = close_owner os (cancel ''CLOSED'' (r\<lparr>plan := None\<rparr>))"

definition keeper_started :: "os_view \<Rightarrow> nat \<Rightarrow> keeper_read_end \<Rightarrow> bool res \<times> keeper_read_end \<times> int list" where
  "keeper_started os given r =
     (if map_option fst (plan r) \<noteq> Some given then (Inl ValueError, r, [])
      else case close_reader os (r\<lparr>plan := None\<rparr>) of (ok, r', fds) \<Rightarrow> (Inr ok, r', fds))"

section \<open>Allocation\<close>

text \<open>What is open while the pipe is prepared: the owners and the raw numbers not yet adopted.  The views
  are \<open>os 0\<close> for the platform and the flags, \<open>os 1\<close> and \<open>os 2\<close> for the adoption of the read end, \<open>os 3\<close> for
  the owner of the write end and \<open>os 4\<close> for the cleanup.\<close>

record pipe_setup =
  setup_reader :: "keeper_read_end option"
  setup_writer :: "descriptor_owner option"
  reader_fd :: "int option"
  writer_fd :: "int option"

definition prepare_pipe :: "(nat \<Rightarrow> os_view) \<Rightarrow> int \<Rightarrow> int \<Rightarrow> exn option \<times> pipe_setup" where
  "prepare_pipe os r w =
     (let s0 = \<lparr>setup_reader = None, setup_writer = None, reader_fd = Some r, writer_fd = Some w\<rparr> in
      if \<not> set_inheritable_ok (os 0) r \<or> \<not> set_inheritable_ok (os 0) w \<or> \<not> set_blocking_ok (os 0) r then (Some OSError, s0)
      else case adopt_inherited (os 1) (os 2) r of Inl e \<Rightarrow> (Some e, s0) | Inr reader \<Rightarrow>
        let s1 = s0\<lparr>setup_reader := Some reader, reader_fd := None\<rparr> in
        case new_owner (os 3) w O_WRONLY of Inl e \<Rightarrow> (Some e, s1) | Inr writer \<Rightarrow>
          (None, s1\<lparr>setup_writer := Some writer, writer_fd := None\<rparr>))"

definition close_optional :: "('b \<Rightarrow> bool \<times> int list) \<Rightarrow> 'b option \<Rightarrow> bool \<times> int list" where
  "close_optional f x = (case x of None \<Rightarrow> (True, []) | Some y \<Rightarrow> f y)"

definition cleanup_pipe :: "os_view \<Rightarrow> pipe_setup \<Rightarrow> bool \<times> int list" where
  "cleanup_pipe os s =
     (let parts = [close_optional (\<lambda>x. case close_reader os x of (ok, _, c) \<Rightarrow> (ok, c)) (setup_reader s),
                   close_optional (\<lambda>x. case close_owner os x of (ok, _, c) \<Rightarrow> (ok, c)) (setup_writer s),
                   close_optional (\<lambda>fd. (close_ok os fd, [fd])) (reader_fd s),
                   close_optional (\<lambda>fd. (close_ok os fd, [fd])) (writer_fd s)] in
      (list_all fst parts, concat (map snd parts)))"

definition open_facade_pipe :: "(nat \<Rightarrow> os_view) \<Rightarrow> (int \<times> int) option \<Rightarrow> (descriptor_owner \<times> keeper_read_end) res \<times> int list" where
  "open_facade_pipe os pipe =
     (if \<not> posix (os 0) then (Inl ValueError, [])
      else case pipe of None \<Rightarrow> (Inl OSError, []) | Some (r, w) \<Rightarrow>
        case prepare_pipe os r w of
          (None, s) \<Rightarrow> (Inr (the (setup_writer s), the (setup_reader s)), [])
        | (Some e, s) \<Rightarrow> (case cleanup_pipe (os 4) s of (ok, fds) \<Rightarrow> (Inl (if ok then e else OSError), fds)))"

section \<open>Runs of the read end\<close>

inductive reader_step :: "keeper_read_end \<Rightarrow> int list \<Rightarrow> keeper_read_end \<Rightarrow> bool" where
  observe_step: "reader_step r [] (observe os r)"
| plan_step: "spawn_plan os r = (x, t) \<Longrightarrow> reader_step r [] t"
| started_step: "keeper_started os g r = (x, t, es) \<Longrightarrow> reader_step r es t"
| close_step: "close_reader os r = (ok, t, es) \<Longrightarrow> reader_step r es t"

inductive_cases reader_stepE: "reader_step r es t"

text \<open>One lemma per operation: what it does to the descriptor, and to a latched cancellation.\<close>

lemma cancel_fields [simp]:
  "own_fd (cancel why r) = own_fd r" "pipe_state (cancel why r) = CANCEL" "pipe_state r = CANCEL \<Longrightarrow> cancel why r = r"
  "pipe_state r \<noteq> CANCEL \<Longrightarrow> reason (cancel why r) = Some why"
  by (simp_all add: cancel_def)

lemma owned_fd_cases:
  assumes "owned_fd os w = (x, w')"
  obtains "x = own_fd w" "w' = w" | "x = None" "w' = w\<lparr>own_fd := None, close_result := Some False\<rparr>"
  using assms that by (auto simp: owned_fd_def split: option.splits if_splits)

lemma close_owner_fd:
  assumes "close_owner os w = (ok, w', es)"
  shows "own_fd w' = None \<and> (es = [] \<or> (\<exists>fd. own_fd w = Some fd \<and> es = [fd]))"
  using assms by (auto simp: close_owner_def owned_fd_def split: option.splits if_splits)

lemma close_reader_fd:
  assumes "close_reader os r = (ok, t, es)"
  shows "own_fd t = None \<and> (es = [] \<or> (\<exists>fd. own_fd r = Some fd \<and> es = [fd]))"
  using close_owner_fd [OF assms [unfolded close_reader_def]] by simp

lemma readable_fd_fd: "readable_fd os r = (x, t) \<Longrightarrow> own_fd t = own_fd r \<or> own_fd t = None"
  by (cases "owned_fd os r") (auto simp: readable_fd_def elim!: owned_fd_cases split: if_splits option.splits)

lemma observe_fd: "own_fd (observe os r) = own_fd r \<or> own_fd (observe os r) = None"
  using readable_fd_fd [of os r]
  by (auto simp: observe_def split: prod.splits option.splits read_result.splits)

lemma spawn_plan_fd: "spawn_plan os r = (x, t) \<Longrightarrow> own_fd t = own_fd r \<or> own_fd t = None"
  using readable_fd_fd [of os r]
  by (auto simp: spawn_plan_def split: prod.splits option.splits if_splits)

lemma keeper_started_fd:
  assumes "keeper_started os g r = (x, t, es)"
  shows "(own_fd t = own_fd r \<and> es = []) \<or> own_fd t = None \<and> (es = [] \<or> (\<exists>fd. own_fd r = Some fd \<and> es = [fd]))"
  using assms close_reader_fd [of os "r\<lparr>plan := None\<rparr>"]
  by (auto simp: keeper_started_def split: if_splits prod.splits)

lemma reader_step_fd:
  assumes "reader_step r es t"
  shows "(own_fd t = own_fd r \<and> es = []) \<or> own_fd t = None \<and> (es = [] \<or> (\<exists>fd. own_fd r = Some fd \<and> es = [fd]))"
  using assms
proof (cases rule: reader_step.cases)
  case (observe_step os)
  then show ?thesis using observe_fd [of os r] by auto
next
  case (plan_step os x)
  then show ?thesis using spawn_plan_fd [of os r x t] by auto
next
  case (started_step os g x)
  then show ?thesis using keeper_started_fd [of os g r x t es] by auto
next
  case (close_step os ok)
  then show ?thesis using close_reader_fd [of os r ok t es] by auto
qed

lemma close_reader_latch:
  assumes "close_reader os r = (ok, t, es)" "pipe_state r = CANCEL"
  shows "pipe_state t = CANCEL \<and> reason t = reason r"
  using assms by (auto simp: close_reader_def close_owner_def owned_fd_def split: option.splits if_splits)

lemma reader_step_latch:
  assumes "reader_step r es t" "pipe_state r = CANCEL" "reason r = why"
  shows "pipe_state t = CANCEL \<and> reason t = why"
  using assms(1)
proof (cases rule: reader_step.cases)
  case (started_step os g x)
  then show ?thesis using assms(2,3) close_reader_latch [of os "r\<lparr>plan := None\<rparr>"]
    by (auto simp: keeper_started_def split: if_splits prod.splits)
qed (use assms(2,3) close_reader_latch in \<open>auto simp: observe_def spawn_plan_def\<close>)

interpretation descriptor: single_shot reader_step "\<lambda>_. True" "\<lambda>r. own_fd r = None"
  by unfold_locales (use reader_step_fd in fastforce)+

interpretation latched: sticky_flag reader_step "\<lambda>_. True" "\<lambda>r. pipe_state r = CANCEL \<and> reason r = why" for why
  by unfold_locales (use reader_step_latch in blast)+

lemma run_own_fd:
  "Step_System.run reader_step r es t \<Longrightarrow> own_fd t = own_fd r \<or> own_fd t = None"
  by (induction rule: Step_System.run.induct) (use reader_step_fd in fastforce)+

lemma run_closes:
  "Step_System.run reader_step r es t \<Longrightarrow> set es \<subseteq> set_option (own_fd r)"
proof (induction rule: Step_System.run.induct)
  case (run_step s es t fs u)
  then show ?case using reader_step_fd [of t fs u] run_own_fd [of s es t] by auto
qed simp

text \<open>
  C31: whatever sequence of calls is made on a read end that owns a descriptor, that descriptor number is
  passed to \<open>os.close\<close> at most once and no other number ever is; once it was closed the owner holds no
  number any more.
\<close>

theorem reader_closes_once:
  assumes "new_reader os fd = Inr r" "Step_System.run reader_step r es t"
  shows "es \<in> {[], [fd]} \<and> (es \<noteq> [] \<longrightarrow> own_fd t = None)"
proof -
  have "own_fd r = Some fd"
    using assms(1) by (auto simp: new_reader_def new_owner_def andthen_ok descriptor_owner.extend_def)
  then show ?thesis using run_closes [OF assms(2)] descriptor.run_once [OF assms(2)]
    by (cases es) auto
qed

text \<open>
  C32: a cancellation is final: after any further calls the reason is still the first one, every
  observation answers it unchanged, and no transfer plan is given out any more.
\<close>

theorem cancellation_is_final:
  assumes "pipe_state r = CANCEL" "Step_System.run reader_step r es t"
  shows "pipe_state t = CANCEL \<and> reason t = reason r \<and> observe os t = t \<and> spawn_plan os t = (Inl ValueError, t)"
  using latched.run_flag [OF assms(2), of "reason r"] assms(1) by (simp add: observe_def spawn_plan_def)

lemma adopted_reader:
  assumes "adopt_inherited os os1 fd = Inr x"
  shows "own_fd x = Some fd \<and> own_access x = O_RDONLY \<and> fingerprint os1 fd O_RDONLY = Inr (own_fingerprint x) \<and> pipe_state x = UNDECIDED"
  using assms by (auto simp: adopt_inherited_def new_reader_def new_owner_def andthen_ok fail_if_def descriptor_owner.extend_def
      keeper_read_end.fields_def split: if_splits)

lemma close_adopted:
  assumes "adopt_inherited os os1 fd = Inr x"
  shows "case close_reader os2 x of (ok, _, c) \<Rightarrow> ok = close_ok os2 fd \<and> c = [fd]
    \<or> \<not> ok \<and> c = [] \<and> fingerprint os2 fd O_RDONLY \<noteq> fingerprint os1 fd O_RDONLY"
  using adopted_reader [OF assms] by (auto simp: close_reader_def close_owner_def owned_fd_def cancel_def split: prod.splits)

text \<open>
  C33. On a POSIX system, once \<open>os.pipe\<close> has returned two descriptors, allocating the pipe either gives two owners of the two new descriptors, each with the identity it
  had when it was adopted, and closes nothing, or fails.  A failed allocation has passed both descriptors
  to \<open>os.close\<close> exactly once, and a close that fails is reported as the error; or the read end, already
  adopted, no longer has the identity it was adopted with: its number is then relinquished without being
  passed to \<open>os.close\<close>, the write end is closed, and the uncertain cleanup is reported as the error.
\<close>

theorem open_facade_pipe_owned:
  assumes "posix (os 0)"
  shows "case open_facade_pipe os (Some (r, w)) of
      (Inr (writer, reader), closes) \<Rightarrow> closes = [] \<and> own_fd writer = Some w \<and> own_fd reader = Some r \<and> pipe_state reader = UNDECIDED
        \<and> fingerprint (os 2) r O_RDONLY = Inr (own_fingerprint reader) \<and> fingerprint (os 3) w O_WRONLY = Inr (own_fingerprint writer)
    | (Inl e, closes) \<Rightarrow> closes = [r, w] \<and> (\<not> (close_ok (os 4) r \<and> close_ok (os 4) w) \<longrightarrow> e = OSError)
        \<or> closes = [w] \<and> e = OSError \<and> fingerprint (os 4) r O_RDONLY \<noteq> fingerprint (os 2) r O_RDONLY"
proof -
  have "own_fd x = Some w \<and> fingerprint (os 3) w O_WRONLY = Inr (own_fingerprint x)" if "new_owner (os 3) w O_WRONLY = Inr x" for x
    using that by (auto simp: new_owner_def andthen_ok)
  then show ?thesis using assms adopted_reader [of "os 1" "os 2" r] close_adopted [of "os 1" "os 2" r _ "os 4"]
    by (auto simp: open_facade_pipe_def prepare_pipe_def Let_def cleanup_pipe_def close_optional_def split: sum.splits prod.splits)
qed

section \<open>A sample system\<close>

text \<open>Descriptors 5 (reader) and 6 (writer) of a pipe whose writer is gone.\<close>

definition sample_os :: os_view where
  "sample_os = \<lparr>posix = True, fstat_of = (\<lambda>_. Some (1, 2, 3)), is_fifo = (\<lambda>_. True), access_of = (\<lambda>fd. Some (if fd = 5 then 0 else 1)),
     nonblock_of = (\<lambda>_. Some True), inheritable_of = (\<lambda>_. Some False), set_inheritable_ok = (\<lambda>_. True), set_blocking_ok = (\<lambda>_. True),
     read_of = (\<lambda>_. Data (Some [])), close_ok = (\<lambda>_. True)\<rparr>"

definition sample_reader :: keeper_read_end where
  "sample_reader = \<lparr>own_fingerprint = (1, 2, 3, 0), own_access = 0, own_fd = Some 5, close_result = None, pipe_state = UNDECIDED, reason = None,
     plan = None, plans_made = 0\<rparr>"

lemma sample_new_reader: "new_reader sample_os 5 = Inr sample_reader"
  by (simp add: new_reader_def new_owner_def fingerprint_def fail_if_def raise_os_def sample_os_def sample_reader_def O_RDONLY_def
      descriptor_owner.extend_def keeper_read_end.fields_def)

lemma sample_observed: "pipe_state (observe sample_os sample_reader) = CANCEL" "reason (observe sample_os sample_reader) = Some ''EOF''"
  by (simp_all add: observe_def readable_fd_def owned_fd_def fingerprint_def fail_if_def raise_os_def sample_os_def sample_reader_def cancel_def)

lemma sample_closed: "\<exists>t. close_reader sample_os (observe sample_os sample_reader) = (True, t, [5])"
  by (simp add: close_reader_def close_owner_def observe_def readable_fd_def owned_fd_def fingerprint_def fail_if_def raise_os_def sample_os_def
      sample_reader_def cancel_def)

lemma sample_runs: "\<exists>t. Step_System.run reader_step (observe sample_os sample_reader) [5] t"
    "\<exists>t. Step_System.run reader_step sample_reader [5] t"
proof -
  obtain t where t: "reader_step (observe sample_os sample_reader) [5] t" using sample_closed close_step by blast
  show "\<exists>t. Step_System.run reader_step (observe sample_os sample_reader) [5] t"
    using Step_System.run_step [of reader_step "observe sample_os sample_reader" "[]" "observe sample_os sample_reader" "[5]" t] run_refl [of reader_step] t by auto
  have "Step_System.run reader_step sample_reader [] (observe sample_os sample_reader)"
    by (rule run_silent [where t = sample_reader]) (rule run_refl, rule observe_step)
  then show "\<exists>t. Step_System.run reader_step sample_reader [5] t"
    using Step_System.run_step [of reader_step sample_reader "[]" "observe sample_os sample_reader" "[5]" t] t by auto
qed

theorem reader_closes_once_witness:
  "\<exists>t. Step_System.run reader_step sample_reader [5] t \<and> own_fd t = None"
  using sample_runs(2) reader_closes_once [OF sample_new_reader] by blast

theorem cancellation_is_final_witness:
  "\<exists>t. Step_System.run reader_step (observe sample_os sample_reader) [5] t \<and> reason t = Some ''EOF'' \<and> spawn_plan sample_os t = (Inl ValueError, t)"
  using sample_runs(1) cancellation_is_final [OF sample_observed(1)] sample_observed(2) by metis

text \<open>The write end is no pipe when it is adopted, and the read end has become another file at the cleanup.\<close>

definition changed_os :: "nat \<Rightarrow> os_view" where
  "changed_os n = (if n = 3 then sample_os\<lparr>is_fifo := (\<lambda>_. False)\<rparr>
     else if n = 4 then sample_os\<lparr>fstat_of := (\<lambda>_. Some (1, 9, 3))\<rparr> else sample_os)"

theorem open_facade_pipe_owned_witness:
  "(\<exists>writer reader. open_facade_pipe (\<lambda>_. sample_os) (Some (5, 6)) = (Inr (writer, reader), []) \<and> own_fd writer = Some 6 \<and> own_fd reader = Some 5)
   \<and> open_facade_pipe changed_os (Some (5, 6)) = (Inl OSError, [6])"
proof -
  have p: "posix sample_os" "posix (changed_os 0)" by (simp_all add: sample_os_def changed_os_def)
  have "\<not> isl (fst (open_facade_pipe (\<lambda>_. sample_os) (Some (5, 6))))" "isl (fst (open_facade_pipe changed_os (Some (5, 6))))"
    "snd (open_facade_pipe changed_os (Some (5, 6))) = [6]" by code_simp+
  then show ?thesis using open_facade_pipe_owned [of "\<lambda>_. sample_os" 5 6, OF p(1)] open_facade_pipe_owned [of changed_os 5 6, OF p(2)]
    by (auto split: prod.splits sum.splits)
qed

end
