(* ===== verification/Job_Budget.thy ===== *)
theory Job_Budget
  imports Http_Origin Job_Clock Step_System
begin

text \<open>
  The immutable job-time budget of the hosted workers, \<^verbatim>\<open>src/scripts/hosted_full_job_budget.py\<close>: the admitted
  identity it is derived for, the two retained service responses, the fences of a profile, the budget
  record with its strict reader, and the per-process clock that checks a stage against its fence.  The
  HTTP exchange itself (sockets, TLS, the token) and the initial-recipient derivation are not modelled.

  The lemmas show that no fence lies after the end of the job the service reported, that the reader
  recomputes every fence, and that the process clock never runs backwards or past a fence.
\<close>

section \<open>Constants\<close>

definition RAW_CLOCK_DOMAIN :: string where "RAW_CLOCK_DOMAIN = ''darwin.clock_gettime_ns(CLOCK_MONOTONIC_RAW)''"
definition ORIGIN :: string where "ORIGIN = ''https://api.github.com''"
definition JOB_SECONDS :: int where "JOB_SECONDS = 3600"
definition ACQUIRE_SECONDS :: int where "ACQUIRE_SECONDS = 45"
definition REQUEST_SECONDS :: int where "REQUEST_SECONDS = 15"
definition SOCKET_SECONDS :: int where "SOCKET_SECONDS = 5"
definition UPLOAD_SECONDS :: int where "UPLOAD_SECONDS = 180"
definition TRANSITION_SECONDS :: int where "TRANSITION_SECONDS = 30"
definition SEAL_SECONDS :: int where "SEAL_SECONDS = 120"

definition CONTROLLER_TAIL :: "(string \<times> int) list" where
  "CONTROLLER_TAIL =
     [(''product-return'', 330), (''product-final'', 45),
      (''collect'', 120), (''collect-final'', 45), (''collect-read'', 30),
      (''uninstall'', 90), (''uninstall-final'', 45), (''uninstall-read'', 30),
      (''simulator-retire-before'', 120), (''simulator-retire-before-final'', 45), (''simulator-retire-before-read'', 30),
      (''simulator-shutdown'', 120), (''simulator-shutdown-final'', 45), (''simulator-shutdown-read'', 30),
      (''simulator-retire-after'', 120), (''simulator-retire-after-final'', 45), (''simulator-retire-after-read'', 30),
      (''simulator-retirement'', 30),
      (''export-freeze'', 180), (''export'', 240), (''export-final'', 45), (''export-read'', 30),
      (''export-open'', 90), (''export-verify'', 90), (''controller-return'', 45)]"

definition TAIL_SECONDS :: int where "TAIL_SECONDS = sum_list (map snd CONTROLLER_TAIL)"

definition RESERVE_SECONDS :: int where
  "RESERVE_SECONDS = TAIL_SECONDS + SEAL_SECONDS + UPLOAD_SECONDS + 2 * TRANSITION_SECONDS"

definition DESKTOP_JOB_SECONDS :: int where "DESKTOP_JOB_SECONDS = 1800"
definition DESKTOP_CONTROLLER_SECONDS :: int where "DESKTOP_CONTROLLER_SECONDS = 1500"
definition DESKTOP_PRODUCT_SECONDS :: int where "DESKTOP_PRODUCT_SECONDS = 600"
definition DESKTOP_OUTER_SECONDS :: int where "DESKTOP_OUTER_SECONDS = 825"
definition DESKTOP_PRODUCT_RETURN_SECONDS :: int where "DESKTOP_PRODUCT_RETURN_SECONDS = 225"
definition DESKTOP_PRODUCT_FINAL_SECONDS :: int where "DESKTOP_PRODUCT_FINAL_SECONDS = 45"
definition DESKTOP_DELIVERY_SECONDS :: int where "DESKTOP_DELIVERY_SECONDS = 600"
definition PACKAGE_SECONDS :: int where "PACKAGE_SECONDS = 120"

definition DESKTOP_HOSTS :: "((string \<times> string) \<times> string \<times> string) list" where
  "DESKTOP_HOSTS = [((''Linux'', ''X64''), ''linux-x64'', ''ubuntu-latest''), ((''Windows'', ''X64''), ''windows-x64'', ''windows-latest''),
     ((''macOS'', ''ARM64''), ''macos-arm64'', ''macos-15''), ((''macOS'', ''X64''), ''macos-x64'', ''macos-15'')]"

definition DESKTOP_CONTROLLER_STAGES :: "string list" where
  "DESKTOP_CONTROLLER_STAGES = [''collect'', ''collect-final'', ''collect-read'', ''uninstall'', ''uninstall-final'', ''uninstall-read'',
     ''export-freeze'', ''export'', ''export-final'', ''export-read'', ''export-open'', ''export-verify'', ''controller-return'']"

definition DESKTOP_DELIVERY_STAGES :: "string list" where
  "DESKTOP_DELIVERY_STAGES = [''seal-start'', ''seal'', ''upload-start'', ''upload'', ''package'', ''samples'', ''delivery'']"

definition JVM_CONTROLLER_STAGES :: "string list" where
  "JVM_CONTROLLER_STAGES = [''collect'', ''collect-read'', ''export-freeze'', ''export'', ''export-final'', ''export-read'', ''export-open'',
     ''export-verify'', ''controller-return'']"

definition JVM_DELIVERY_STAGES :: "string list" where
  "JVM_DELIVERY_STAGES = [''seal-start'', ''seal'', ''upload-start'', ''upload'', ''delivery'']"

section \<open>Clocks and profiles\<close>

definition clock_value :: "clock_identity \<Rightarrow> pyval res" where
  "clock_value c = andthen (validate_identity c) (\<lambda>_.
     Inr (PDict [(''role'', role c), (''domain'', domain c), (''ticksPerSecond'', ticks_per_second c)]))"

definition clock_identity_of :: "pyval \<Rightarrow> clock_identity res" where
  "clock_identity_of v =
     req (closed_dict v [''role'', ''domain'', ''ticksPerSecond'']) ''JOB_TIME_CLOCK_IDENTITY'' (
     andthen (py_item v ''role'') (\<lambda>r. andthen (py_item v ''domain'') (\<lambda>d. andthen (py_item v ''ticksPerSecond'') (\<lambda>t.
     validate_identity \<lparr>role = r, domain = d, ticks_per_second = t\<rparr>))))"

text \<open>\<open>table.get((a, b))\<close> for two values\<close>

definition host_entry :: "pyval \<Rightarrow> pyval \<Rightarrow> (string \<times> string) option res" where
  "host_entry a b = (case (a, b) of
      (PStr x, PStr y) \<Rightarrow> Inr (map_of DESKTOP_HOSTS (x, y))
    | _ \<Rightarrow> if hashable a \<and> hashable b then Inr None else Inl TypeError)"

definition github_host :: "pyval \<Rightarrow> (string \<times> string) option res" where
  "github_host github = andthen (get github ''runnerOS'') (\<lambda>a. andthen (get github ''runnerArch'') (\<lambda>b. host_entry a b))"

definition profile_clock :: "pyval \<Rightarrow> clock_identity option \<Rightarrow> pyval option \<Rightarrow> unit res" where
  "profile_clock profile c github =
     req (py_in profile [PStr ''full'', PStr ''desktop'', PStr JVM_PROFILE]) ''JOB_TIME_PROFILE'' (
     case c of
       None \<Rightarrow> req (profile = PStr ''full'') ''JOB_TIME_DESKTOP_CLOCK_REQUIRED'' (Inr ())
     | Some c \<Rightarrow>
         andthen (validate_identity c) (\<lambda>_.
         req (profile \<noteq> PStr ''full'' \<or> str_and (starts ''macos-'') (role c) \<and> domain c = PStr RAW_CLOCK_DOMAIN) ''JOB_TIME_FULL_CLOCK_REQUIRED'' (
         req (profile \<noteq> PStr JVM_PROFILE \<or> str_and (\<lambda>r. r \<in> set (map snd JVM_HOSTS)) (role c)) ''JOB_TIME_JVM_CLOCK_REQUIRED'' (
         case github of
           None \<Rightarrow> Inr ()
         | Some g \<Rightarrow> andthen (github_host g) (\<lambda>selected.
             req (case selected of None \<Rightarrow> False | Some (r, _) \<Rightarrow> role c = PStr r) ''JOB_TIME_CLOCK_HOST_CHANGED'' (Inr ()))))))"

section \<open>The admitted identity\<close>

text \<open>\<open>v.get(k, {})\<close>\<close>

definition sub :: "pyval \<Rightarrow> string \<Rightarrow> pyval res" where
  "sub v k = py_get v k (PDict [])"

text \<open>\<open>v.get(k1, {}).get(k2, {})...get(kn)\<close>\<close>

fun deep :: "pyval \<Rightarrow> string list \<Rightarrow> pyval res" where
  "deep v [] = Inr v"
| "deep v [k] = get v k"
| "deep v (k # ks) = andthen (sub v k) (\<lambda>x. deep x ks)"

definition branch_text :: "string \<Rightarrow> bool" where
  "branch_text s \<longleftrightarrow> 0 < py_len s \<and> int (py_len s) \<le> 256 \<and> no_control s"

text \<open>The head commit, branch and repository a pull request or a branch event was admitted for.\<close>

definition pull_head :: "pyval \<Rightarrow> pyval \<Rightarrow> (pyval \<times> pyval \<times> pyval) res" where
  "pull_head github event =
     andthen (sub github ''eventBinding'') (\<lambda>binding. andthen (sub event ''pull_request'') (\<lambda>pr.
     andthen (sub pr ''head'') (\<lambda>head. andthen (sub pr ''base'') (\<lambda>base.
     check [get_is is_int binding ''number'', eq_res (py_item binding ''number'') (get event ''number''), eq_res (get event ''number'') (get pr ''number''),
            eq_res (get head ''sha'') (get binding ''head''), eq_res (get base ''sha'') (get binding ''base''),
            eq_res (deep head [''repo'', ''full_name'']) (get binding ''headRepository''),
            eq_res (deep base [''repo'', ''full_name'']) (Inr (PStr REPOSITORY)), get_eq base ''ref'' (PStr ''main''),
            andthen (int_item binding ''number'') (\<lambda>n. get_eq github ''ref'' (PStr (pull_ref n)))] ''JOB_TIME_PR_BINDING'' (
     andthen (andthen (py_item binding ''head'') sha) (\<lambda>h. andthen (get head ''ref'') (\<lambda>b. andthen (py_item binding ''headRepository'') (\<lambda>r.
     Inr (h, b, r)))))))))"

definition branch_head :: "pyval \<Rightarrow> pyval \<Rightarrow> (pyval \<times> pyval \<times> pyval) res" where
  "branch_head github src =
     andthen (get github ''ref'') (\<lambda>ref.
     req (str_and (starts ''refs/heads/'') ref) ''JOB_TIME_BRANCH'' (
     andthen (as_str ref) (\<lambda>r. andthen (py_item src ''commit'') (\<lambda>c.
     Inr (c, PStr (drop 11 r), PStr REPOSITORY)))))"

definition run_number :: "pyval \<Rightarrow> string \<Rightarrow> int res" where
  "run_number github k =
     check [get_is (str_and ID) github k] ''JOB_TIME_RUN_ID'' (
     andthen (str_item github k) (\<lambda>s. bounded 1 (2 ^ 63 - 1) (PInt (int_of_digits s))))"

definition admitted_identity :: "Admission \<Rightarrow> (pyval \<times> pyval \<times> pyval \<times> pyval) res" where
  "admitted_identity admitted =
     andthen (parse (admitted_record admitted) RECORD_LIMIT) (\<lambda>v.
     andthen (sub v ''github'') (\<lambda>github. andthen (sub v ''source'') (\<lambda>src. andthen (get v ''profile'') (\<lambda>profile.
     andthen (worker_contract profile) (\<lambda>(workflow, job, _).
     andthen (andthen (get github ''runnerOS'') (\<lambda>a. andthen (get github ''runnerArch'') (\<lambda>b. worker_host profile (a, b)))) (\<lambda>_.
     check [get_eq github ''repository'' (PStr REPOSITORY), get_eq github ''workflow'' (PStr workflow), get_eq github ''job'' (PStr job),
            eq_res (get github ''workflowSha'') (get src ''commit''), andthen (github_host github) (\<lambda>h. Inr (h \<noteq> None)),
            if profile \<noteq> PStr ''full'' then Inr True else get_eq github ''runnerOS'' (PStr ''macOS'')] ''JOB_TIME_ADMISSION_IDENTITY'' (
     then_do (check_each (\<lambda>k. andthen (andthen (get src k) sha) (\<lambda>_. Inr ())) [''commit'', ''tree'']) (
     then_do (check_each (\<lambda>k. andthen (run_number github k) (\<lambda>_. Inr ())) [''runId'', ''runAttempt'']) (
     check [get_is (\<lambda>e. py_in e (map PStr EVENTS)) github ''event'',
            if profile \<noteq> PStr ''desktop'' then Inr True else get_is (\<lambda>e. \<not> py_eq e (PStr ''schedule'')) github ''event''] ''JOB_TIME_EVENT'' (
     check [get_eq github ''eventSha256'' (PStr (sha256 (original_event admitted)))] ''JOB_TIME_EVENT_BYTES'' (
     andthen (parse (original_event admitted) EVENT_LIMIT) (\<lambda>event.
     andthen (item_eq github ''event'' (PStr ''pull_request'')) (\<lambda>pull.
     andthen (if pull then pull_head github event else branch_head github src) (\<lambda>(head_sha, branch, head_repo).
     check [Inr (str_and branch_text branch)] ''JOB_TIME_BRANCH'' (
     Inr (v, head_sha, branch, head_repo))))))))))))))))"

definition paths :: "Admission \<Rightarrow> (string \<times> string) res" where
  "paths admitted =
     andthen (admitted_identity admitted) (\<lambda>(v, _).
     andthen (andthen (py_item v ''github'') (\<lambda>g. str_item g ''runId'')) (\<lambda>run_id.
     andthen (andthen (py_item v ''github'') (\<lambda>g. str_item g ''runAttempt'')) (\<lambda>attempt.
     let base = ''/repos/'' @ REPOSITORY @ ''/actions/runs/'' @ run_id @ ''/attempts/'' @ attempt in
     Inr (base, base @ ''/jobs?per_page=100&page=1''))))"

section \<open>Service responses\<close>

definition RESPONSE_KEYS :: "string list" where
  "RESPONSE_KEYS = [''schema'', ''scope'', ''origin'', ''method'', ''path'', ''invocation'', ''clockDomain'', ''startedRawNs'', ''finishedRawNs'',
     ''status'', ''headersBase64'', ''bodyBase64'', ''complete'', ''retirement'', ''error'']"

definition response_binding :: "pyval \<Rightarrow> pyval \<Rightarrow> pyval \<Rightarrow> pyval \<Rightarrow> clock_identity option \<Rightarrow> unit res" where
  "response_binding v expected_path invocation profile c =
     check [Inr (closed_dict v (RESPONSE_KEYS @ (if c = None then [] else [''profile'', ''clock'']))), item_is is_int v ''schema'',
            item_eq v ''schema'' (PInt (if c = None then 1 else 2)), item_eq v ''scope'' (PStr ''PRIVATE_ACTIONS_JOB_TIME_RESPONSE''),
            item_eq v ''origin'' (PStr ORIGIN), item_eq v ''method'' (PStr ''GET''), item_eq v ''path'' expected_path,
            item_eq v ''invocation'' invocation, item_eq v ''clockDomain'' (case c of None \<Rightarrow> PStr RAW_CLOCK_DOMAIN | Some x \<Rightarrow> domain x),
            item_is (\<lambda>x. py_is x True) v ''complete'', item_eq v ''retirement'' (PStr ''KNOWN''), item_is (\<lambda>x. x = PNone) v ''error'']
       ''JOB_TIME_RESPONSE_BINDING'' (
     case c of None \<Rightarrow> Inr () | Some x \<Rightarrow>
       check [item_eq v ''profile'' profile, andthen (andthen (py_item v ''clock'') clock_identity_of) (\<lambda>y. Inr (clock_eq y x))]
         ''JOB_TIME_RESPONSE_CLOCK_CHANGED'' (Inr ()))"

definition response_length :: "header_fields \<Rightarrow> string \<Rightarrow> unit res" where
  "response_length hs body =
     then_do (case map_of hs ''content-length'' of None \<Rightarrow> Inr () | Some n \<Rightarrow>
       req (1 \<le> length n \<and> length n \<le> 7 \<and> list_all is_digit n \<and> int_of_digits n = len body \<and> map_of hs ''transfer-encoding'' = None) ''JOB_TIME_HTTP_LENGTH'' (Inr ())) (
     case map_of hs ''transfer-encoding'' of None \<Rightarrow> Inr () | Some t \<Rightarrow> req (lower t = ''chunked'') ''JOB_TIME_HTTP_TRANSFER'' (Inr ()))"

text \<open>One response: the record, its parsed body and the service date.\<close>

definition observation :: "string \<Rightarrow> pyval \<Rightarrow> pyval \<Rightarrow> pyval \<Rightarrow> clock_identity option \<Rightarrow> (pyval \<times> pyval \<times> int) res" where
  "observation raw expected_path invocation profile c =
     then_do (profile_clock profile c None) (
     andthen (parse raw RECORD_LIMIT) (\<lambda>v.
     then_do (response_binding v expected_path invocation profile c) (
     andthen (andthen (py_item v ''startedRawNs'') (bounded 0 UINT64)) (\<lambda>start. andthen (andthen (py_item v ''finishedRawNs'') (bounded 0 UINT64)) (\<lambda>finish.
     req (start \<le> finish \<and> finish \<le> start + REQUEST_SECONDS * NS) ''JOB_TIME_REQUEST_INTERVAL'' (
     andthen (response_part v ''headersBase64'' HEADER_LIMIT) (\<lambda>head. andthen (response_part v ''bodyBase64'' BODY_LIMIT) (\<lambda>body.
     andthen (headers head) (\<lambda>(status, hs).
     check [item_is is_int v ''status'', item_eq v ''status'' (PInt status), Inr (status = 200)] ''JOB_TIME_HTTP_STATUS'' (
     andthen (freshness hs) (\<lambda>date.
     then_do (response_length hs body) (
     andthen (parse body BODY_LIMIT) (\<lambda>parsed.
     Inr (v, parsed, date))))))))))))))"

section \<open>The reported job\<close>

definition first_number :: "pyval \<Rightarrow> string \<Rightarrow> int res" where
  "first_number v k = andthen (get v k) (bounded 1 UINT64)"

definition attempt_identity :: "pyval \<Rightarrow> pyval \<Rightarrow> int \<Rightarrow> int \<Rightarrow> pyval \<Rightarrow> pyval \<Rightarrow> pyval \<Rightarrow> bool res" where
  "attempt_identity attempt github run_id attempt_number head_sha branch head_repo =
     allof [andthen (first_number attempt ''id'') (\<lambda>i. Inr (i = run_id)), andthen (first_number attempt ''run_attempt'') (\<lambda>i. Inr (i = attempt_number)),
       eq_res (deep attempt [''repository'', ''full_name'']) (Inr (PStr REPOSITORY)), eq_res (deep attempt [''head_repository'', ''full_name'']) (Inr head_repo),
       eq_res (get attempt ''path'') (py_item github ''workflow''), eq_res (get attempt ''event'') (py_item github ''event''),
       get_eq attempt ''head_sha'' head_sha, get_eq attempt ''head_branch'' branch, get_eq attempt ''status'' (PStr ''in_progress''),
       Inr (has_key ''conclusion'' attempt), item_is (\<lambda>x. x = PNone) attempt ''conclusion'']"

text \<open>The one pull request the service lists for the attempt.\<close>

definition listed_pull :: "pyval \<Rightarrow> pyval \<Rightarrow> pyval \<Rightarrow> pyval \<Rightarrow> bool res" where
  "listed_pull pr binding branch head_repo =
     allof [Inr (is_dict pr), andthen (first_number pr ''number'') (\<lambda>n. item_eq binding ''number'' (PInt n)),
       eq_res (deep pr [''base'', ''sha'']) (py_item binding ''base''), eq_res (deep pr [''base'', ''ref'']) (Inr (PStr ''main'')),
       eq_res (deep pr [''head'', ''sha'']) (py_item binding ''head''), eq_res (deep pr [''head'', ''ref'']) (Inr branch),
       eq_res (deep pr [''base'', ''repo'', ''url'']) (Inr (PStr (ORIGIN @ ''/repos/'' @ REPOSITORY))),
       eq_res (deep pr [''head'', ''repo'', ''url'']) (andthen (as_str head_repo) (\<lambda>r. Inr (PStr (ORIGIN @ ''/repos/'' @ r))))]"

definition attempt_pulls :: "pyval \<Rightarrow> pyval \<Rightarrow> pyval \<Rightarrow> pyval \<Rightarrow> unit res" where
  "attempt_pulls attempt github branch head_repo =
     andthen (get attempt ''pull_requests'') (\<lambda>prs.
     andthen (item_eq github ''event'' (PStr ''pull_request'')) (\<lambda>pull.
     if pull then
       andthen (py_item github ''eventBinding'') (\<lambda>binding.
       req (list_of (\<lambda>n. n = 1) prs) ''JOB_TIME_API_PR'' (
       check [listed_pull (hd (elems prs)) binding branch head_repo] ''JOB_TIME_API_PR'' (Inr ())))
     else req (py_eq prs (PList [])) ''JOB_TIME_API_PR'' (Inr ())))"

definition job_name :: "pyval \<Rightarrow> pyval \<Rightarrow> (string \<times> string) res" where
  "job_name profile github =
     andthen (if profile = PStr ''full'' then Inr ''macos-latest''
              else andthen (andthen (py_item github ''runnerOS'') (\<lambda>a. andthen (py_item github ''runnerArch'') (\<lambda>b. host_entry a b)))
                (\<lambda>h. case h of None \<Rightarrow> Inl KeyError | Some (_, selector) \<Rightarrow> Inr selector)) (\<lambda>selector.
     Inr (selector, if profile = PStr ''full'' then ''complete-gate''
       else if profile = PStr JVM_PROFILE then ''JVM libraries ('' @ selector @ '')'' else selector))"

definition selected_job :: "pyval \<Rightarrow> string \<Rightarrow> pyval res" where
  "selected_job jobs name =
     andthen (get jobs ''jobs'') (\<lambda>listed.
     check [Inr (list_of (\<lambda>n. 0 < n \<and> n \<le> 100) listed),
            andthen (andthen (get jobs ''total_count'') (bounded 1 100)) (\<lambda>n. Inr (n = len (elems listed))),
            Inr (list_all is_dict (elems listed))] ''JOB_TIME_COMPLETE_PAGE_REQUIRED'' (
     andthen (each (\<lambda>r. andthen (get r ''id'') (bounded 1 (2 ^ 63 - 1))) (elems listed)) (\<lambda>ids.
     req (distinct ids) ''JOB_TIME_DUPLICATE_JOB'' (
     let selected = filter (\<lambda>r. get r ''name'' = Inr (PStr name)) (elems listed) in
     req (len selected = 1) ''JOB_TIME_EXACT_JOB_REQUIRED'' (Inr (hd selected))))))"

definition job_identity :: "pyval \<Rightarrow> int \<Rightarrow> int \<Rightarrow> pyval \<Rightarrow> pyval \<Rightarrow> bool res" where
  "job_identity job run_id attempt_number head_sha branch =
     allof [andthen (first_number job ''run_id'') (\<lambda>i. Inr (i = run_id)), andthen (first_number job ''run_attempt'') (\<lambda>i. Inr (i = attempt_number)),
       get_eq job ''head_sha'' head_sha, get_eq job ''head_branch'' branch,
       get_eq job ''run_url'' (PStr (ORIGIN @ ''/repos/'' @ REPOSITORY @ ''/actions/runs/'' @ show_int run_id)),
       andthen (int_item job ''id'') (\<lambda>i. get_eq job ''url'' (PStr (ORIGIN @ ''/repos/'' @ REPOSITORY @ ''/actions/jobs/'' @ show_int i))),
       get_eq job ''status'' (PStr ''in_progress''), Inr (has_key ''completed_at'' job), item_is (\<lambda>x. x = PNone) job ''completed_at'',
       Inr (has_key ''conclusion'' job), item_is (\<lambda>x. x = PNone) job ''conclusion'']"

definition runner_identity :: "pyval \<Rightarrow> pyval \<Rightarrow> string \<Rightarrow> bool res" where
  "runner_identity job runner_name selector =
     allof [Inr (str_and branch_text runner_name), get_eq job ''runner_name'' runner_name,
       andthen (first_number job ''runner_id'') (\<lambda>i. Inr (0 < i)), get_eq job ''labels'' (strs [selector]),
       get_is is_int job ''runner_group_id'', item_eq job ''runner_group_id'' (PInt 0), get_eq job ''runner_group_name'' (PStr ''GitHub Actions'')]"

definition response_identity :: "Admission \<Rightarrow> pyval \<Rightarrow> pyval \<Rightarrow> pyval \<Rightarrow> (pyval \<times> pyval \<times> int) res" where
  "response_identity admitted attempt jobs runner_name =
     andthen (admitted_identity admitted) (\<lambda>(v, head_sha, branch, head_repo).
     andthen (py_item v ''github'') (\<lambda>github. andthen (py_item v ''profile'') (\<lambda>profile.
     andthen (run_number github ''runId'') (\<lambda>run_id. andthen (run_number github ''runAttempt'') (\<lambda>attempt_number.
     check [attempt_identity attempt github run_id attempt_number head_sha branch head_repo] ''JOB_TIME_ATTEMPT_IDENTITY'' (
     then_do (attempt_pulls attempt github branch head_repo) (
     andthen (job_name profile github) (\<lambda>(selector, name).
     andthen (selected_job jobs name) (\<lambda>job.
     check [job_identity job run_id attempt_number head_sha branch] ''JOB_TIME_JOB_IDENTITY'' (
     check [runner_identity job runner_name selector] ''JOB_TIME_RUNNER_IDENTITY'' (
     andthen (andthen (get job ''started_at'') utc_epoch) (\<lambda>start.
     andthen (andthen (get attempt ''created_at'') utc_epoch) (\<lambda>created. andthen (andthen (get attempt ''run_started_at'') utc_epoch) (\<lambda>began.
     req (created \<le> began \<and> began \<le> start) ''JOB_TIME_JOB_START'' (
     Inr (v, job, start))))))))))))))))"

section \<open>Fences and policy\<close>

definition worker_fences :: "int \<Rightarrow> int \<Rightarrow> int \<Rightarrow> string list \<Rightarrow> string list \<Rightarrow> (string \<times> int) list" where
  "worker_fences cutoff controller_end job_end controller delivery =
     [(''productive'', cutoff), (''preparation-final'', cutoff + 45 * NS),
      (''product-return'', cutoff + DESKTOP_PRODUCT_RETURN_SECONDS * NS), (''product-final'', controller_end)]
     @ map (\<lambda>label. (label, controller_end)) controller @ map (\<lambda>label. (label, job_end)) delivery"

definition tail_fence :: "string \<times> int \<Rightarrow> int \<times> (string \<times> int) list \<Rightarrow> (int \<times> (string \<times> int) list) res" where
  "tail_fence = (\<lambda>(label, seconds) (cursor, fs).
     andthen (bounded 0 UINT64 (PInt (cursor + seconds * NS))) (\<lambda>c. Inr (c, fs @ [(label, c)])))"

definition fences :: "int \<Rightarrow> pyval \<Rightarrow> (string \<times> int) list res" where
  "fences job_end profile =
     (if profile = PStr ''desktop'' \<or> profile = PStr JVM_PROFILE then
        andthen (bounded 0 UINT64 (PInt (job_end - DESKTOP_DELIVERY_SECONDS * NS))) (\<lambda>controller_end.
        andthen (bounded 0 UINT64 (PInt (controller_end - (DESKTOP_PRODUCT_RETURN_SECONDS + DESKTOP_PRODUCT_FINAL_SECONDS) * NS))) (\<lambda>cutoff.
        Inr (if profile = PStr JVM_PROFILE
             then worker_fences cutoff controller_end job_end JVM_CONTROLLER_STAGES JVM_DELIVERY_STAGES
             else worker_fences cutoff controller_end job_end DESKTOP_CONTROLLER_STAGES DESKTOP_DELIVERY_STAGES)))
      else
        req (profile = PStr ''full'') ''JOB_TIME_PROFILE'' (
        andthen (bounded 0 UINT64 (PInt (job_end - RESERVE_SECONDS * NS))) (\<lambda>cutoff.
        andthen (loop tail_fence CONTROLLER_TAIL (cutoff, [(''productive'', cutoff), (''preparation-final'', cutoff + 45 * NS)])) (\<lambda>(cursor, fs).
        let seal_start = cursor + TRANSITION_SECONDS * NS; seal = seal_start + SEAL_SECONDS * NS;
            upload_start = seal + TRANSITION_SECONDS * NS; upload = upload_start + UPLOAD_SECONDS * NS in
        req (upload = job_end) ''JOB_TIME_RESERVE_ACCOUNTING'' (
        Inr (fs @ [(''seal-start'', seal_start), (''seal'', seal), (''upload-start'', upload_start), (''upload'', upload)]))))))"

definition fences_value :: "(string \<times> int) list \<Rightarrow> pyval" where
  "fences_value fs = PDict (map (\<lambda>(k, t). (k, PInt t)) fs)"

definition TRANSPORT_POLICY :: "(string \<times> pyval) list" where
  "TRANSPORT_POLICY = [(''acquisitionSeconds'', PInt ACQUIRE_SECONDS), (''requestSeconds'', PInt REQUEST_SECONDS), (''socketSeconds'', PInt SOCKET_SECONDS),
     (''bodyLimit'', PInt BODY_LIMIT), (''headerLimit'', PInt HEADER_LIMIT), (''requests'', PInt 2), (''retries'', PInt 0),
     (''redirects'', PBool False), (''ambientProxy'', PBool False)]"

definition worker_policy :: "pyval \<Rightarrow> clock_identity \<Rightarrow> pyval res" where
  "worker_policy profile c =
     andthen (clock_value c) (\<lambda>cv.
     Inr (PDict ([(''schema'', PInt 2), (''profile'', profile), (''jobSeconds'', PInt DESKTOP_JOB_SECONDS), (''clock'', cv), (''clockDomain'', domain c),
       (''dateQuantizationSeconds'', PInt 1), (''maximumServiceCacheSeconds'', PInt CACHE_SECONDS), (''clockMarginSeconds'', PInt CLOCK_MARGIN_SECONDS),
       (''controllerSeconds'', PInt DESKTOP_CONTROLLER_SECONDS), (''productSeconds'', PInt DESKTOP_PRODUCT_SECONDS), (''outerSeconds'', PInt DESKTOP_OUTER_SECONDS),
       (''productReturnSeconds'', PInt DESKTOP_PRODUCT_RETURN_SECONDS), (''productFinalSeconds'', PInt DESKTOP_PRODUCT_FINAL_SECONDS),
       (''deliverySeconds'', PInt DESKTOP_DELIVERY_SECONDS), (''sealSeconds'', PInt SEAL_SECONDS), (''eachUploadSeconds'', PInt UPLOAD_SECONDS),
       (''eachTransitionSeconds'', PInt TRANSITION_SECONDS)]
       @ (if profile = PStr JVM_PROFILE then [] else [(''packageSeconds'', PInt PACKAGE_SECONDS)])
       @ [(''scope'', PStr (if profile = PStr JVM_PROFILE then ''JVM_LIBRARY_SHARED_ENVELOPES_NOT_DURATION_FIT_OR_DELIVERY_GUARANTEES''
            else ''SHARED_ENVELOPES_CAPS_NOT_MAXIMUM_DURATION_FIT_OR_DELIVERY_GUARANTEES''))] @ TRANSPORT_POLICY)))"

definition full_policy :: "pyval \<Rightarrow> clock_identity option \<Rightarrow> pyval res" where
  "full_policy profile c =
     (let fixed = [(''clockDomain'', PStr RAW_CLOCK_DOMAIN), (''jobSeconds'', PInt JOB_SECONDS), (''dateQuantizationSeconds'', PInt 1),
        (''maximumServiceCacheSeconds'', PInt CACHE_SECONDS), (''clockMarginSeconds'', PInt CLOCK_MARGIN_SECONDS),
        (''controllerTail'', PList (map (\<lambda>(label, seconds). PList [PStr label, PInt seconds]) CONTROLLER_TAIL)), (''controllerTailSeconds'', PInt TAIL_SECONDS),
        (''sealSeconds'', PInt SEAL_SECONDS), (''uploadSeconds'', PInt UPLOAD_SECONDS), (''eachTransitionSeconds'', PInt TRANSITION_SECONDS),
        (''reserveSeconds'', PInt RESERVE_SECONDS), (''scope'', PStr ''SOURCE_OWNED_SCHEDULING_CAPS_NOT_DURATION_GUARANTEES'')] @ TRANSPORT_POLICY in
      case c of
        None \<Rightarrow> Inr (PDict ((''schema'', PInt 1) # fixed))
      | Some x \<Rightarrow> andthen (clock_value x) (\<lambda>cv. Inr (PDict ([(''schema'', PInt 2), (''profile'', profile), (''clock'', cv)] @ fixed))))"

definition budget_policy :: "pyval \<Rightarrow> clock_identity option \<Rightarrow> pyval res" where
  "budget_policy profile c =
     then_do (profile_clock profile c None) (
     if profile = PStr ''desktop'' \<or> profile = PStr JVM_PROFILE then (case c of None \<Rightarrow> Inl AttributeError | Some x \<Rightarrow> worker_policy profile x)
     else full_policy profile c)"

section \<open>Derivation\<close>

text \<open>\<open>math.ceil(x / NS)\<close> of an integer: the quotient is a float.\<close>

definition ceil_seconds :: "int \<Rightarrow> int res" where
  "ceil_seconds n = (case int_truediv n NS of Some (Fin m) \<Rightarrow> Inr (- ((- m) div float_unit)) | _ \<Rightarrow> Inl OverflowError)"

definition PROVENANCE :: "string list" where
  "PROVENANCE = [''controllerJob'', ''invocation'', ''phaseStartSha256'', ''phaseResultSha256'', ''childReturnSha256'', ''runnerName'']"

definition checked_provenance :: "pyval \<Rightarrow> unit res" where
  "checked_provenance p =
     req (closed_dict p PROVENANCE) ''JOB_TIME_PROVENANCE'' (
     then_do (check_each (\<lambda>k. ensure (item_is (hexs 32) p k) ''JOB_TIME_PROVENANCE'') [''controllerJob'', ''invocation'']) (
     check_each (\<lambda>k. ensure (item_is (hexs 64) p k) ''JOB_TIME_PROVENANCE'') [''phaseStartSha256'', ''phaseResultSha256'', ''childReturnSha256'']))"

text \<open>The end of the job on the shared clock: the request start plus what the service left of the job, less the charges.\<close>

definition job_end_of :: "pyval \<Rightarrow> int \<Rightarrow> int \<Rightarrow> int \<Rightarrow> int" where
  "job_end_of profile request_start started date =
     request_start + (started + (if profile = PStr ''full'' then JOB_SECONDS else DESKTOP_JOB_SECONDS) - date - 1 - CACHE_SECONDS - CLOCK_MARGIN_SECONDS) * NS"

definition RUNNER_KEYS :: "string list" where
  "RUNNER_KEYS = [''runner_id'', ''runner_name'', ''runner_group_id'', ''runner_group_name'', ''labels'']"

definition upper_profile :: "pyval \<Rightarrow> string res" where
  "upper_profile profile = andthen (as_str profile) (\<lambda>p. Inr (map upper_char p))"

definition budget_value :: "Admission \<Rightarrow> string \<times> string \<Rightarrow> pyval \<Rightarrow> clock_identity option \<Rightarrow> pyval \<Rightarrow> pyval \<Rightarrow> int \<Rightarrow> int \<Rightarrow> pyval \<Rightarrow> (string \<times> int) list \<Rightarrow> pyval res" where
  "budget_value admitted originals1 provenance c v job started date right fs =
     andthen (py_item v ''profile'') (\<lambda>profile. andthen (upper_profile profile) (\<lambda>name.
     andthen (project v [''source'', ''github'']) (\<lambda>bound. andthen (project job RUNNER_KEYS) (\<lambda>runner.
     andthen (py_item job ''id'') (\<lambda>i. andthen (py_item job ''started_at'') (\<lambda>started_at.
     andthen (py_item right ''startedRawNs'') (\<lambda>request_start. andthen (py_item right ''finishedRawNs'') (\<lambda>finished.
     andthen (budget_policy profile c) (\<lambda>pol.
     andthen (case c of None \<Rightarrow> Inr [(''schema'', PInt 1)] | Some x \<Rightarrow> andthen (clock_value x) (\<lambda>cv.
        Inr [(''schema'', PInt 2), (''profile'', profile), (''clock'', cv)])) (\<lambda>versioned.
     Inr (PDict (versioned @ [(''scope'', PStr (''IMMUTABLE_ORDINARY_'' @ name @ ''_JOB_BUDGET'')), (''admissionSha256'', PStr (sha256 (admitted_record admitted)))]
       @ items bound @ [(''numericJobId'', i), (''runner'', runner), (''jobStartedAt'', started_at), (''jobStartedEpochSeconds'', PInt started),
       (''originDateEpochSeconds'', PInt date), (''requestStartRawNs'', request_start), (''responseFinishedRawNs'', finished),
       (''clockDomain'', case c of None \<Rightarrow> PStr RAW_CLOCK_DOMAIN | Some x \<Rightarrow> domain x),
       (''originalsSha256'', PDict [(''attempt'', PStr (sha256 (fst originals1))), (''jobs'', PStr (sha256 (snd originals1)))]),
       (''provenance'', provenance), (''policy'', pol), (''fencesRawNs'', fences_value fs)]))))))))))))"

text \<open>The two responses belong to one acquisition and to one service clock.\<close>

definition one_acquisition :: "pyval \<Rightarrow> pyval \<Rightarrow> int \<Rightarrow> int \<Rightarrow> unit res" where
  "one_acquisition left right left_date right_date =
     andthen (int_item left ''startedRawNs'') (\<lambda>a. andthen (int_item left ''finishedRawNs'') (\<lambda>b.
     andthen (int_item right ''startedRawNs'') (\<lambda>x. andthen (int_item right ''finishedRawNs'') (\<lambda>y.
     req (b \<le> x \<and> x \<le> y \<and> y \<le> a + ACQUIRE_SECONDS * NS) ''JOB_TIME_ACQUISITION_INTERVAL'' (
     req (0 \<le> right_date - left_date) ''JOB_TIME_SERVICE_CLOCK_CHANGED'' (
     andthen (ceil_seconds (y - a)) (\<lambda>n.
     req (right_date - left_date \<le> n + CACHE_SECONDS + 1) ''JOB_TIME_SERVICE_CLOCK_CHANGED'' (Inr ()))))))))"

definition derive :: "Admission \<Rightarrow> string \<times> string \<Rightarrow> pyval \<Rightarrow> clock_identity option \<Rightarrow> string res" where
  "derive admitted originals1 provenance c =
     andthen (admitted_identity admitted) (\<lambda>(v0, _).
     andthen (py_item v0 ''profile'') (\<lambda>profile.
     then_do (andthen (py_item v0 ''github'') (\<lambda>g. profile_clock profile c (Some g))) (
     then_do (checked_provenance provenance) (
     andthen (paths admitted) (\<lambda>(attempt_path, jobs_path). andthen (py_item provenance ''invocation'') (\<lambda>invocation.
     andthen (observation (fst originals1) (PStr attempt_path) invocation profile c) (\<lambda>(left, attempt, left_date).
     andthen (observation (snd originals1) (PStr jobs_path) invocation profile c) (\<lambda>(right, jobs, right_date).
     then_do (one_acquisition left right left_date right_date) (
     andthen (py_item provenance ''runnerName'') (\<lambda>runner_name.
     andthen (response_identity admitted attempt jobs runner_name) (\<lambda>(v, job, started).
     req (started \<le> right_date) ''JOB_TIME_FUTURE_START'' (
     andthen (int_item right ''startedRawNs'') (\<lambda>request_start. andthen (int_item right ''finishedRawNs'') (\<lambda>finished.
     andthen (bounded 0 UINT64 (PInt (job_end_of profile request_start started right_date))) (\<lambda>job_end.
     req (finished < job_end) ''JOB_TIME_ALREADY_EXPIRED'' (
     andthen (fences job_end profile) (\<lambda>fs.
     andthen (budget_value admitted originals1 provenance c v job started right_date right fs) encoded_record)))))))))))))))))"

section \<open>The budget record\<close>

definition INITIAL_PROVENANCE :: "string list" where
  "INITIAL_PROVENANCE = [''controllerJob'', ''sourceCurrentSha256'', ''sourceContextSha256'', ''currentFirstSessionSha256'',
     ''sourceNativeStartSha256'', ''sourceNativeReturnSha256'', ''sourceOwnerCloseSha256'', ''runnerName'']"

definition INITIAL_KEYS :: "string list" where
  "INITIAL_KEYS = [''schema'', ''scope'', ''identitySha256'', ''profile'', ''clock'', ''source'', ''github'', ''numericJobId'', ''runner'',
     ''jobStartedAt'', ''jobStartedEpochSeconds'', ''originDateEpochSeconds'', ''requestStartRawNs'', ''responseFinishedRawNs'',
     ''clockDomain'', ''originalsSha256'', ''provenance'', ''policy'', ''fencesRawNs'']"

text \<open>\<open>encoded(a) == encoded(b)\<close>\<close>

definition same_encoding :: "pyval res \<Rightarrow> pyval res \<Rightarrow> bool res" where
  "same_encoding a b = andthen (andthen a encoded_record) (\<lambda>x. andthen (andthen b encoded_record) (\<lambda>y. Inr (x = y)))"

definition number_from :: "int \<Rightarrow> pyval \<Rightarrow> string \<Rightarrow> int res" where
  "number_from minimum v k = andthen (py_item v k) (bounded minimum UINT64)"

text \<open>The stored fences are those of the end the stored service observation gives.\<close>

definition stored_fences :: "pyval res \<Rightarrow> int \<Rightarrow> pyval \<Rightarrow> bool res" where
  "stored_fences stored job_end profile =
     same_encoding stored (andthen (bounded 0 UINT64 (PInt job_end)) (\<lambda>e. andthen (fences e profile) (\<lambda>fs. Inr (fences_value fs))))"

definition initial_github :: "pyval \<Rightarrow> pyval \<Rightarrow> pyval \<Rightarrow> bool res" where
  "initial_github github profile src =
     allof [Inr (is_dict github), get_eq github ''repository'' (PStr REPOSITORY), get_eq github ''event'' (PStr ''pull_request''),
       andthen (worker_contract profile) (\<lambda>(workflow, _). get_eq github ''workflow'' (PStr workflow)),
       andthen (worker_contract profile) (\<lambda>(_, job, _). get_eq github ''job'' (PStr job)),
       eq_res (get github ''workflowSha'') (py_item src ''commit''), get_is is_dict github ''eventBinding'',
       andthen (py_item github ''eventBinding'') (\<lambda>b. Inr (has_key ''originalMain'' b)),
       andthen (py_item github ''eventBinding'') (\<lambda>b. Inr (has_key ''policyHead'' b))]"

definition initial_runner :: "pyval \<Rightarrow> pyval \<Rightarrow> bool res" where
  "initial_runner v provenance =
     andthen (py_item v ''runner'') (\<lambda>runner.
     allof [Inr (is_dict runner), Inr (closed_dict runner RUNNER_KEYS), eq_res (py_item runner ''runner_name'') (py_item provenance ''runnerName''),
       andthen (andthen (py_item v ''jobStartedAt'') utc_epoch) (\<lambda>a. andthen (number_from 1 v ''jobStartedEpochSeconds'') (\<lambda>b. Inr (a = b)))])"

definition initial_window :: "pyval \<Rightarrow> pyval \<Rightarrow> unit res" where
  "initial_window v profile =
     andthen (number_from 0 v ''requestStartRawNs'') (\<lambda>start. andthen (number_from 0 v ''responseFinishedRawNs'') (\<lambda>finish.
     req (start \<le> finish \<and> finish \<le> start + REQUEST_SECONDS * NS) ''JOB_TIME_INITIAL_RESPONSE_INTERVAL'' (
     andthen (int_item v ''jobStartedEpochSeconds'') (\<lambda>started. andthen (number_from 1 v ''originDateEpochSeconds'') (\<lambda>date.
     let job_end = job_end_of profile start started date in
     check [Inr (finish < job_end), stored_fences (py_item v ''fencesRawNs'') job_end profile] ''JOB_TIME_INITIAL_BUDGET_FENCES'' (Inr ()))))))"

definition initial_value :: "string \<Rightarrow> pyval \<Rightarrow> unit res" where
  "initial_value raw v =
     check [Inr (closed_dict v INITIAL_KEYS), item_is is_int v ''schema'', andthen (encoded_record v) (\<lambda>r. Inr (raw = r))]
       ''JOB_TIME_INITIAL_BUDGET_FIELDS'' (
     andthen (py_item v ''profile'') (\<lambda>profile. andthen (andthen (py_item v ''clock'') clock_identity_of) (\<lambda>c.
     andthen (py_item v ''github'') (\<lambda>github.
     then_do (profile_clock profile (Some c) (Some github)) (
     andthen (upper_profile profile) (\<lambda>name. andthen (py_item v ''provenance'') (\<lambda>provenance. andthen (py_item v ''originalsSha256'') (\<lambda>digests.
     check [item_eq v ''scope'' (PStr (''IMMUTABLE_INITIAL_ORDINARY_'' @ name @ ''_JOB_BUDGET'')), item_eq v ''clockDomain'' (domain c),
            same_encoding (py_item v ''policy'') (budget_policy profile (Some c)), Inr (closed_dict provenance INITIAL_PROVENANCE),
            Inr (closed_dict digests [''attempt'', ''jobs''])] ''JOB_TIME_INITIAL_BUDGET_POLICY'' (
     andthen (py_item v ''identitySha256'') (\<lambda>own. andthen (dict_values digests) (\<lambda>stored.
     andthen (each (py_item provenance) (filter (endswith ''Sha256'') INITIAL_PROVENANCE)) (\<lambda>linked.
     then_do (check_each (\<lambda>h. ensure (Inr (hexs 64 h)) ''JOB_TIME_INITIAL_BUDGET_DIGEST'') (own # stored @ linked)) (
     check [item_is (hexs 32) provenance ''controllerJob''] ''JOB_TIME_INITIAL_CONTROLLER'' (
     andthen (py_item v ''source'') (\<lambda>src.
     check [initial_github github profile src] ''JOB_TIME_INITIAL_GITHUB'' (
     then_do (check_each (\<lambda>k. andthen (andthen (py_item src k) sha) (\<lambda>_. Inr ())) [''commit'', ''tree'']) (
     andthen (andthen (py_item v ''numericJobId'') (bounded 1 (2 ^ 63 - 1))) (\<lambda>_.
     check [initial_runner v provenance] ''JOB_TIME_INITIAL_RUNNER'' (
     initial_window v profile)))))))))))))))))))"

definition current_value :: "pyval \<Rightarrow> unit res" where
  "current_value v =
     andthen (get v ''profile'') (\<lambda>profile. andthen (andthen (get v ''clock'') clock_identity_of) (\<lambda>c.
     andthen (sub v ''github'') (\<lambda>github.
     then_do (profile_clock profile (Some c) (Some github)) (
     andthen (upper_profile profile) (\<lambda>name.
     check [item_is is_int v ''schema'', get_eq v ''scope'' (PStr (''IMMUTABLE_ORDINARY_'' @ name @ ''_JOB_BUDGET'')), get_eq v ''clockDomain'' (domain c),
            same_encoding (get v ''policy'') (budget_policy profile (Some c))] ''JOB_TIME_BUDGET_CLOCK_CHANGED'' (
     then_do (if profile \<noteq> PStr JVM_PROFILE then Inr () else
       ensure (allof [get_eq github ''workflow'' (PStr (fst JVM_WORKER)), get_eq github ''job'' (PStr (fst (snd JVM_WORKER))),
         eq_res (get github ''workflowSha'') (deep v [''source'', ''commit''])]) ''JOB_TIME_JVM_SELECTOR_CHANGED'') (
     andthen (number_from 0 v ''requestStartRawNs'') (\<lambda>start. andthen (number_from 0 v ''jobStartedEpochSeconds'') (\<lambda>started.
     andthen (number_from 0 v ''originDateEpochSeconds'') (\<lambda>date.
     check [stored_fences (get v ''fencesRawNs'') (job_end_of profile start started date) profile] ''JOB_TIME_BUDGET_FENCES_CHANGED'' (Inr ())))))))))))"

definition legacy_value :: "pyval \<Rightarrow> unit res" where
  "legacy_value v =
     check [get_is is_int v ''schema'', item_eq v ''schema'' (PInt 1), get_eq v ''scope'' (PStr ''IMMUTABLE_ORDINARY_FULL_JOB_BUDGET''),
            Inr (\<not> has_key ''profile'' v), Inr (\<not> has_key ''clock'' v), get_eq v ''clockDomain'' (PStr RAW_CLOCK_DOMAIN),
            eq_res (deep v [''github'', ''job'']) (Inr (PStr ''complete-gate'')),
            eq_res (deep v [''github'', ''workflow'']) (Inr (PStr ''.github/workflows/ci.yml''))] ''JOB_TIME_BUDGET_PROFILE'' (Inr ())"

definition value_of :: "string \<Rightarrow> pyval res" where
  "value_of raw =
     andthen (parse raw RECORD_LIMIT) (\<lambda>v. andthen (get v ''schema'') (\<lambda>schema.
     then_do (if py_eq schema (PInt 3) then initial_value raw v else if py_eq schema (PInt 2) then current_value v else legacy_value v) (
     Inr v)))"

definition budget_clock_of :: "string \<Rightarrow> clock_identity option res" where
  "budget_clock_of raw =
     andthen (value_of raw) (\<lambda>v. andthen (py_item v ''schema'') (\<lambda>schema.
     if py_in schema [PInt 2, PInt 3] then andthen (andthen (py_item v ''clock'') clock_identity_of) (\<lambda>c. Inr (Some c)) else Inr None))"

text \<open>\<open>stage in values\<close> for a value that need not be a dict\<close>

definition member_of :: "string \<Rightarrow> pyval \<Rightarrow> bool res" where
  "member_of k v = (case v of
      PDict d \<Rightarrow> Inr (k \<in> set (map fst d)) | PStr s \<Rightarrow> Inr (contains k s) | PList vs \<Rightarrow> Inr (py_in (PStr k) vs)
    | PTuple vs \<Rightarrow> Inr (py_in (PStr k) vs) | _ \<Rightarrow> Inl TypeError)"

definition fence :: "string \<Rightarrow> string \<Rightarrow> int res" where
  "fence raw stage =
     andthen (value_of raw) (\<lambda>v. andthen (py_item v ''fencesRawNs'') (\<lambda>values.
     check [member_of stage values] ''JOB_TIME_CLOSED_STAGE'' (
     andthen (py_item values stage) (bounded 0 UINT64))))"

section \<open>Checking a stage\<close>

definition raw_now :: "host_env \<Rightarrow> int \<Rightarrow> clock_identity option \<Rightarrow> int res" where
  "raw_now h minimum c =
     (case c of
        None \<Rightarrow> andthen (shared_raw_ns h) (bounded minimum UINT64)
      | Some x \<Rightarrow> andthen (checked_now h x (PInt minimum)) (\<lambda>n. bounded minimum UINT64 (PInt n)))"

definition budget_check :: "host_env \<Rightarrow> string \<Rightarrow> string \<Rightarrow> pyval option \<Rightarrow> int res" where
  "budget_check h raw stage minimum =
     andthen (value_of raw) (\<lambda>v.
     andthen (number_from 0 v ''responseFinishedRawNs'') (\<lambda>original.
     andthen (case minimum of None \<Rightarrow> Inr original | Some m \<Rightarrow> andthen (bounded 0 UINT64 m) (\<lambda>i. Inr (max original i))) (\<lambda>least.
     andthen (budget_clock_of raw) (\<lambda>c.
     andthen (raw_now h least c) (\<lambda>now.
     andthen (fence raw stage) (\<lambda>f.
     req (now < f) ''JOB_TIME_FENCE_EXPIRED'' (Inr now)))))))"

text \<open>The per-process state: the budget record and the last reading.\<close>

record budget_clock =
  budget :: string
  last_reading :: pyval

definition new_budget_clock :: "string \<Rightarrow> budget_clock res" where
  "new_budget_clock raw =
     andthen (value_of raw) (\<lambda>v. andthen (py_item v ''responseFinishedRawNs'') (\<lambda>t. Inr \<lparr>budget = raw, last_reading = t\<rparr>))"

definition clock_check :: "host_env \<Rightarrow> string \<Rightarrow> budget_clock \<Rightarrow> int res \<times> budget_clock" where
  "clock_check h stage bc = (case budget_check h (budget bc) stage (Some (last_reading bc)) of
      Inl e \<Rightarrow> (Inl e, bc)
    | Inr now \<Rightarrow> (Inr now, bc\<lparr>last_reading := PInt now\<rparr>))"

section \<open>Local deadlines\<close>

text \<open>\<open>type(v) in (int, float) and math.isfinite(v)\<close>\<close>

definition finite_number :: "pyval \<Rightarrow> bool res" where
  "finite_number v =
     (if is_number v then (case to_float v of None \<Rightarrow> Inl OverflowError | Some x \<Rightarrow> Inr (is_finite x)) else Inr False)"

definition float_value :: "pyval \<Rightarrow> pyfloat" where
  "float_value v = (case to_float v of Some x \<Rightarrow> x | None \<Rightarrow> NaN)"

definition operation_maximum :: "pyval \<Rightarrow> unit res" where
  "operation_maximum seconds =
     check [finite_number seconds, Inr (flt (Fin 0) (float_value seconds) \<and> fle (float_value seconds) (Fin (8400 * float_unit)))]
       ''JOB_TIME_OPERATION_MAXIMUM'' (Inr ())"

definition directed_deadline :: "pyval \<Rightarrow> pyval \<Rightarrow> int \<Rightarrow> int \<Rightarrow> pyfloat res" where
  "directed_deadline local seconds limit now =
     check [finite_number local, Inr (fle (Fin 0) (float_value local))] ''JOB_TIME_LOCAL_CLOCK'' (
     case int_truediv (limit - now) NS of None \<Rightarrow> Inl OverflowError | Some quo \<Rightarrow>
     let result = nextdown (fadd (float_value local) (fmin (float_value seconds) (nextzero quo))) in
     req (is_finite result \<and> num_lt local (PFloat result)) ''JOB_TIME_LOCAL_DEADLINE'' (Inr result))"

text \<open>The end of both \<open>deadline\<close> methods, once the stage has been checked.\<close>

definition deadline_from :: "string \<Rightarrow> string \<Rightarrow> pyval \<Rightarrow> pyval \<Rightarrow> int \<Rightarrow> pyfloat res" where
  "deadline_from raw stage local seconds now =
     andthen (budget_clock_of raw) (\<lambda>c. andthen (fence raw stage) (\<lambda>limit.
     case c of
       Some _ \<Rightarrow> directed_deadline local seconds limit now
     | None \<Rightarrow> if \<not> is_number local then Inl TypeError else
         (case int_truediv (limit - now) NS of None \<Rightarrow> Inl OverflowError
          | Some quo \<Rightarrow> Inr (fadd (float_value local) (fmin (float_value seconds) quo)))))"

definition budget_deadline :: "host_env \<Rightarrow> string \<Rightarrow> string \<Rightarrow> pyval \<Rightarrow> pyfloat res" where
  "budget_deadline h raw stage seconds =
     then_do (operation_maximum seconds) (
     andthen (local_monotonic h) (\<lambda>local. andthen (budget_check h raw stage None) (\<lambda>now.
     deadline_from raw stage local seconds now)))"

definition clock_deadline :: "host_env \<Rightarrow> string \<Rightarrow> pyval \<Rightarrow> budget_clock \<Rightarrow> pyfloat res \<times> budget_clock" where
  "clock_deadline h stage seconds bc =
     (case then_do (operation_maximum seconds) (local_monotonic h) of
        Inl e \<Rightarrow> (Inl e, bc)
      | Inr local \<Rightarrow> (case clock_check h stage bc of
          (Inl e, next_bc) \<Rightarrow> (Inl e, next_bc)
        | (Inr now, next_bc) \<Rightarrow> (deadline_from (budget bc) stage local seconds now, next_bc)))"

section \<open>The bounded response reader\<close>

text \<open>
  One call reads the shared clock before and after the stream answers; \<open>answer\<close> is the stream's reply to
  the requested amount, \<open>timeout_set\<close> the result of \<open>settimeout\<close>.
\<close>

record read_env =
  first_clock :: host_env
  has_socket :: bool
  timeout_set :: "unit res"
  answer :: "int \<Rightarrow> string res"
  second_clock :: host_env

record http_reader =
  reader_end :: int
  reader_last :: int
  header :: string
  in_headers :: bool
  wire_bytes :: int

definition new_http_reader :: "int \<Rightarrow> int \<Rightarrow> http_reader" where
  "new_http_reader limit start = \<lparr>reader_end = limit, reader_last = start, header = [], in_headers = True, wire_bytes = 0\<rparr>"

definition keep_data :: "string \<Rightarrow> http_reader \<Rightarrow> http_reader" where
  "keep_data data r = (if in_headers r then r\<lparr>header := header r @ data\<rparr> else r)"

definition bounded_read :: "clock_identity option \<Rightarrow> read_env \<Rightarrow> int \<Rightarrow> http_reader \<Rightarrow> string res \<times> http_reader" where
  "bounded_read c e amount r0 = (case raw_now (first_clock e) (reader_last r0) c of
      Inl x \<Rightarrow> (Inl x, r0)
    | Inr now \<Rightarrow> let r = r0\<lparr>reader_last := now\<rparr> in
      if reader_end r \<le> now then (Inl (Refused ''JOB_TIME_HTTP_TIMEOUT''), r)
      else if \<not> has_socket e then (Inl (Refused ''JOB_TIME_HTTP_SOCKET''), r)
      else case andthen (timeout_set e) (\<lambda>_. answer e amount) of
        Inl x \<Rightarrow> (Inl x, r)
      | Inr data \<Rightarrow> let r = r\<lparr>wire_bytes := wire_bytes r + len data\<rparr> in
        if 2 * BODY_LIMIT + HEADER_LIMIT < wire_bytes r then (Inl (Refused ''JOB_TIME_HTTP_WIRE_LIMIT''), r)
        else let r = keep_data data r in
        if in_headers r \<and> HEADER_LIMIT < len (header r) then (Inl (Refused ''JOB_TIME_HTTP_HEADERS_LIMIT''), r)
        else case raw_now (second_clock e) now c of
          Inl x \<Rightarrow> (Inl x, r)
        | Inr finished \<Rightarrow> (if finished < reader_end r then Inr data else Inl (Refused ''JOB_TIME_HTTP_TIMEOUT''), r\<lparr>reader_last := finished\<rparr>))"

definition reader_readline :: "clock_identity option \<Rightarrow> read_env \<Rightarrow> int \<Rightarrow> http_reader \<Rightarrow> string res \<times> http_reader" where
  "reader_readline c e limit r =
     (case bounded_read c e (if 0 \<le> limit then min (HEADER_LINE_LIMIT + 1) limit else HEADER_LINE_LIMIT + 1) r of
        (Inl x, s) \<Rightarrow> (Inl x, s)
      | (Inr raw, s) \<Rightarrow>
          (req (len raw \<le> HEADER_LINE_LIMIT \<and> (raw = [] \<or> endswith [CHR 0x0D, CHR 0x0A] raw)) ''JOB_TIME_HTTP_LINE'' (Inr raw), s))"

definition reader_read :: "clock_identity option \<Rightarrow> read_env \<Rightarrow> pyval \<Rightarrow> http_reader \<Rightarrow> string res \<times> http_reader" where
  "reader_read c e amount r = (case amount of
      PInt n \<Rightarrow> if 0 \<le> n \<and> n \<le> BODY_LIMIT + 1 then bounded_read c e n r else (Inl (Refused ''JOB_TIME_HTTP_READ_BOUND''), r)
    | _ \<Rightarrow> (Inl (Refused ''JOB_TIME_HTTP_READ_BOUND''), r))"

section \<open>Fences\<close>

lemma bounded_PInt: "bounded a b (PInt i) = (if a \<le> i \<and> i \<le> b then Inr i else Inl (Refused ''JOB_TIME_INTEGER''))"
  by (auto simp: bounded_def int_and_def as_int_def req_def)

lemma bounded_ok [ok_iff]: "bounded a b v = Inr i \<longleftrightarrow> v = PInt i \<and> a \<le> i \<and> i \<le> b"
  by (cases v) (auto simp: bounded_def int_and_def as_int_def ok_iff)

text \<open>The running end of consecutive intervals.\<close>

fun schedule :: "int \<Rightarrow> (string \<times> int) list \<Rightarrow> (string \<times> int) list" where
  "schedule t [] = []"
| "schedule t ((label, seconds) # rows) = (label, t + seconds * NS) # schedule (t + seconds * NS) rows"

lemma schedule_append: "schedule t (xs @ ys) = schedule t xs @ schedule (t + sum_list (map snd xs) * NS) ys"
  by (induction t xs rule: schedule.induct) (auto simp: algebra_simps)

lemma schedule_bounds:
  "list_all (\<lambda>(_, s). 0 \<le> s) rows \<Longrightarrow> (k, x) \<in> set (schedule t rows) \<Longrightarrow> t \<le> x \<and> x \<le> t + sum_list (map snd rows) * NS"
proof (induction t rows rule: schedule.induct)
  case (2 t label seconds rows)
  have "0 \<le> sum_list (map snd rows)" using 2(2) by (intro sum_list_nonneg) (auto simp: list_all_iff)
  then show ?case using 2 by (auto simp: NS_def algebra_simps)
qed simp

lemma tail_loop:
  assumes "0 \<le> cursor" "cursor \<le> UINT64" "list_all (\<lambda>(_, s). 0 \<le> s) rows"
  shows "loop tail_fence rows (cursor, fs) =
     (if cursor + sum_list (map snd rows) * NS \<le> UINT64
      then Inr (cursor + sum_list (map snd rows) * NS, fs @ schedule cursor rows) else Inl (Refused ''JOB_TIME_INTEGER''))"
  using assms
proof (induction rows arbitrary: cursor fs)
  case (Cons row rows)
  obtain label seconds where row: "row = (label, seconds)" by force
  have s: "0 \<le> seconds" "0 \<le> sum_list (map snd rows)" using Cons.prems(3) row by (force intro!: sum_list_nonneg simp: list_all_iff)+
  then have "0 \<le> seconds * NS" "0 \<le> sum_list (map snd rows) * NS" by (simp_all add: NS_def)
  then show ?case using Cons.prems s Cons.IH [of "cursor + seconds * NS" "fs @ [(label, cursor + seconds * NS)]"]
    by (auto simp: row tail_fence_def bounded_PInt algebra_simps)
qed simp

definition reserve_schedule :: "int \<Rightarrow> (string \<times> int) list" where
  "reserve_schedule job_end = (let cutoff = job_end - RESERVE_SECONDS * NS in
     [(''productive'', cutoff), (''preparation-final'', cutoff + 45 * NS)] @
     schedule cutoff (CONTROLLER_TAIL @ [(''seal-start'', TRANSITION_SECONDS), (''seal'', SEAL_SECONDS),
       (''upload-start'', TRANSITION_SECONDS), (''upload'', UPLOAD_SECONDS)]))"

lemma reserve_seconds: "TAIL_SECONDS = 2070" "RESERVE_SECONDS = 2430"
  by (simp_all add: RESERVE_SECONDS_def TAIL_SECONDS_def CONTROLLER_TAIL_def SEAL_SECONDS_def UPLOAD_SECONDS_def TRANSITION_SECONDS_def)

lemma tail_rows: "list_all (\<lambda>(_, s). 0 \<le> s) CONTROLLER_TAIL" "sum_list (map snd CONTROLLER_TAIL) = 2070"
  by (simp_all add: CONTROLLER_TAIL_def)

lemmas allowances = SEAL_SECONDS_def UPLOAD_SECONDS_def TRANSITION_SECONDS_def

lemma fences_full:
  "fences job_end (PStr ''full'') =
     (if RESERVE_SECONDS * NS \<le> job_end \<and> job_end - (SEAL_SECONDS + UPLOAD_SECONDS + 2 * TRANSITION_SECONDS) * NS \<le> UINT64
      then Inr (reserve_schedule job_end) else Inl (Refused ''JOB_TIME_INTEGER''))"
proof (cases "RESERVE_SECONDS * NS \<le> job_end \<and> job_end - RESERVE_SECONDS * NS \<le> UINT64")
  case True
  then show ?thesis
    using tail_loop [of "job_end - RESERVE_SECONDS * NS" CONTROLLER_TAIL] tail_rows
    by (simp add: fences_def JVM_PROFILE_def bounded_PInt reserve_schedule_def schedule_append allowances reserve_seconds NS_def Let_def)
next
  case False
  then show ?thesis
    by (auto simp: fences_def JVM_PROFILE_def bounded_PInt allowances reserve_seconds NS_def)
qed

lemma reserve_schedule_bounds:
  assumes "(k, t) \<in> set (reserve_schedule job_end)"
  shows "job_end - RESERVE_SECONDS * NS \<le> t \<and> t \<le> job_end"
proof -
  have "list_all (\<lambda>(_, s). 0 \<le> s) (CONTROLLER_TAIL @ [(''seal-start'', TRANSITION_SECONDS), (''seal'', SEAL_SECONDS),
       (''upload-start'', TRANSITION_SECONDS), (''upload'', UPLOAD_SECONDS)])"
    using tail_rows by (simp add: allowances)
  from schedule_bounds [OF this, of k t "job_end - RESERVE_SECONDS * NS"] show ?thesis
    using assms tail_rows(2) by (auto simp: reserve_schedule_def Let_def reserve_seconds NS_def allowances)
qed

lemma worker_fences_bounds:
  "(k, t) \<in> set (worker_fences cutoff controller_end job_end xs ys) \<Longrightarrow>
     cutoff + 225 * NS \<le> controller_end \<Longrightarrow> controller_end \<le> job_end \<Longrightarrow> cutoff \<le> t \<and> t \<le> job_end"
  by (auto simp: worker_fences_def NS_def DESKTOP_PRODUCT_RETURN_SECONDS_def)

text \<open>The productive fence lies the whole reserve of the profile before the end.\<close>

definition reserved :: "pyval \<Rightarrow> int" where
  "reserved profile = (if profile = PStr ''full'' then RESERVE_SECONDS
     else DESKTOP_DELIVERY_SECONDS + DESKTOP_PRODUCT_RETURN_SECONDS + DESKTOP_PRODUCT_FINAL_SECONDS)"

lemma fences_ok:
  assumes "fences job_end profile = Inr fs"
  shows "map_of fs ''productive'' = Some (job_end - reserved profile * NS)" "0 \<le> job_end - reserved profile * NS"
    "(k, t) \<in> set fs \<Longrightarrow> job_end - reserved profile * NS \<le> t \<and> t \<le> job_end" "map_of fs ''upload'' = Some job_end" "distinct (map fst fs)"
proof -
  let ?goal = "map_of fs ''productive'' = Some (job_end - reserved profile * NS) \<and> 0 \<le> job_end - reserved profile * NS \<and>
    ((k, t) \<in> set fs \<longrightarrow> job_end - reserved profile * NS \<le> t \<and> t \<le> job_end) \<and> map_of fs ''upload'' = Some job_end \<and> distinct (map fst fs)"
  have g: ?goal
  proof (cases "profile = PStr ''full''")
    case True
    then have fs: "fs = reserve_schedule job_end" "RESERVE_SECONDS * NS \<le> job_end"
      using assms by (auto simp: fences_full split: if_splits)
    show ?thesis using reserve_schedule_bounds [of k t job_end] fs True
      by (auto simp: reserved_def reserve_schedule_def CONTROLLER_TAIL_def reserve_seconds allowances Let_def NS_def)
  next
    case False
    then obtain xs ys where xs: "fs = worker_fences (job_end - reserved profile * NS) (job_end - 600 * NS) job_end xs ys"
       "0 \<le> job_end - reserved profile * NS"
       "(xs, ys) = (JVM_CONTROLLER_STAGES, JVM_DELIVERY_STAGES) \<or> (xs, ys) = (DESKTOP_CONTROLLER_STAGES, DESKTOP_DELIVERY_STAGES)"
      using assms by (auto simp: fences_def ok_iff reserved_def DESKTOP_DELIVERY_SECONDS_def DESKTOP_PRODUCT_RETURN_SECONDS_def
        DESKTOP_PRODUCT_FINAL_SECONDS_def NS_def bounded_PInt split: if_splits)
    show ?thesis using worker_fences_bounds [of k t _ _ job_end xs ys] xs False
      by (auto simp: worker_fences_def reserved_def DESKTOP_DELIVERY_SECONDS_def DESKTOP_PRODUCT_RETURN_SECONDS_def
        DESKTOP_PRODUCT_FINAL_SECONDS_def NS_def JVM_CONTROLLER_STAGES_def JVM_DELIVERY_STAGES_def DESKTOP_CONTROLLER_STAGES_def DESKTOP_DELIVERY_STAGES_def)
  qed
  then show "map_of fs ''productive'' = Some (job_end - reserved profile * NS)" "0 \<le> job_end - reserved profile * NS"
    "(k, t) \<in> set fs \<Longrightarrow> job_end - reserved profile * NS \<le> t \<and> t \<le> job_end" "map_of fs ''upload'' = Some job_end" "distinct (map fst fs)"
    by blast+
qed

section \<open>Reading the budget\<close>

lemma encoded_record_ok: "encoded_record v = Inr raw \<longleftrightarrow> record_text v = Inr raw \<and> len raw \<le> RECORD_LIMIT"
  by (auto simp: encoded_record_def Hosted_Identity.encoded_def ok_iff)

lemma encoded_record_canon: "encoded_record (canon v) = encoded_record v"
  by (simp add: encoded_record_def Hosted_Identity.encoded_def record_text_canon)

lemma same_encoding_canon:
  assumes "same_encoding (Inr v) (Inr w) = Inr True" "storable v" "storable w"
  shows "canon v = canon w"
proof -
  obtain raw where "record_text v = Inr raw" "record_text w = Inr raw"
    using assms(1) by (auto simp: same_encoding_def ok_iff encoded_record_ok)
  then show ?thesis
    using record_stored [OF assms(2), of raw "unique_hooks ValueError"] record_stored [OF assms(3), of raw "unique_hooks ValueError"] by simp
qed

lemma canon_int: "canon v = PInt i \<longleftrightarrow> v = PInt i"
  by (cases v) auto

lemma stored_fence:
  assumes "same_encoding (Inr stored) (Inr (fences_value fs)) = Inr True" "storable stored" "storable (fences_value fs)"
    and "py_item stored stage = Inr (PInt f)"
  shows "map_of fs stage = Some f"
proof -
  have "py_item (canon (fences_value fs)) stage = Inr (PInt f)"
    using same_encoding_canon [OF assms(1-3)] py_item_canon [OF assms(2), of stage] assms(4) by simp
  then have "py_item (fences_value fs) stage = Inr (PInt f)"
    using py_item_canon [OF assms(3), of stage] by (auto simp: canon_int split: sum.splits)
  moreover have "map_of (map (\<lambda>(k, t). (k, PInt t)) fs) stage = map_option PInt (map_of fs stage)"
    by (induction fs) auto
  ultimately show ?thesis by (auto simp: fences_value_def py_item_def split: option.splits)
qed

lemma stages_plain:
  "list_all plain_str (map fst CONTROLLER_TAIL @ DESKTOP_CONTROLLER_STAGES @ DESKTOP_DELIVERY_STAGES @ JVM_CONTROLLER_STAGES @ JVM_DELIVERY_STAGES
     @ [''productive'', ''preparation-final'', ''product-return'', ''product-final''])"
  by code_simp

lemma schedule_labels [simp]: "map fst (schedule t rows) = map fst rows"
  by (induction t rows rule: schedule.induct) auto

lemma fences_labels:
  assumes "fences job_end profile = Inr fs"
  shows "list_all plain_str (map fst fs)"
proof (cases "profile = PStr ''full''")
  case True
  then show ?thesis using assms stages_plain
    by (auto simp: fences_full reserve_schedule_def Let_def DESKTOP_DELIVERY_STAGES_def split: if_splits)
next
  case False
  then show ?thesis using assms stages_plain
    by (auto simp: fences_def ok_iff worker_fences_def list_all_iff split: if_splits)
qed

lemma fences_storable: "fences job_end profile = Inr fs \<Longrightarrow> storable (fences_value fs)"
  using fences_labels [of job_end profile fs] fences_ok(5) [of job_end profile fs]
  by (auto simp: fences_value_def storabled_iff list_all_iff case_prod_beta comp_def)

lemma stored_fences_ok:
  assumes "stored_fences (Inr stored) job_end profile = Inr True" "storable stored" "py_item stored stage = Inr (PInt f)"
  shows "\<exists>fs. fences job_end profile = Inr fs \<and> map_of fs stage = Some f"
proof -
  obtain fs where fs: "fences job_end profile = Inr fs" "same_encoding (Inr stored) (Inr (fences_value fs)) = Inr True"
    using assms(1) by (auto simp: stored_fences_def same_encoding_def ok_iff)
  then show ?thesis using stored_fence [OF fs(2) assms(2) fences_storable [OF fs(1)] assms(3)] by blast
qed

lemma number_from_ok [ok_iff]: "number_from m v k = Inr i \<longleftrightarrow> py_item v k = Inr (PInt i) \<and> m \<le> i \<and> i \<le> UINT64"
  by (auto simp: number_from_def ok_iff)

lemma get_item: "get v k = Inr x \<Longrightarrow> py_item v k = Inr y \<Longrightarrow> x = y"
  by (cases v) (auto simp: get_def py_get_def py_item_def split: option.splits)

lemma py_item_get: "py_item v k = Inr y \<Longrightarrow> get v k = Inr y"
  by (cases v) (auto simp: get_def py_get_def py_item_def split: option.splits)

lemma value_of_fences:
  assumes "value_of raw = Inr v" "get v ''schema'' = Inr (PInt n)" "n \<noteq> 1"
  shows "\<exists>profile start started date. get v ''profile'' = Inr profile \<and> py_item v ''requestStartRawNs'' = Inr (PInt start) \<and>
     py_item v ''jobStartedEpochSeconds'' = Inr (PInt started) \<and> py_item v ''originDateEpochSeconds'' = Inr (PInt date) \<and>
     stored_fences (get v ''fencesRawNs'') (job_end_of profile start started date) profile = Inr True"
proof -
  have r: "n = 3 \<and> initial_value raw v = Inr () \<or> n = 2 \<and> current_value v = Inr () \<or> n \<noteq> 2 \<and> legacy_value v = Inr ()"
    using assms(1,2) by (auto simp: value_of_def then_do_def andthen_ok split: if_splits)
  then consider (three) "initial_value raw v = Inr ()" | (two) "current_value v = Inr ()" | (one) "legacy_value v = Inr ()" by blast
  then show ?thesis
  proof cases
    case three
    then obtain profile provenance where p: "py_item v ''profile'' = Inr profile" "initial_window v profile = Inr ()" "initial_runner v provenance = Inr True"
      by (auto simp: initial_value_def then_do_def andthen_ok check_ok)
    then obtain started where "py_item v ''jobStartedEpochSeconds'' = Inr (PInt started)"
      by (auto simp del: allof.simps simp: initial_runner_def andthen_ok allof_ok number_from_ok)
    then obtain start date where w: "py_item v ''requestStartRawNs'' = Inr (PInt start)" "py_item v ''jobStartedEpochSeconds'' = Inr (PInt started)"
        "py_item v ''originDateEpochSeconds'' = Inr (PInt date)"
        "stored_fences (py_item v ''fencesRawNs'') (job_end_of profile start started date) profile = Inr True"
      using p(2) by (auto simp: initial_window_def andthen_ok req_ok check_ok number_from_ok Let_def int_item_def as_int_def)
    then obtain stored where "py_item v ''fencesRawNs'' = Inr stored" by (auto simp: stored_fences_def same_encoding_def andthen_ok)
    then show ?thesis using w py_item_get [OF p(1)] py_item_get [of v "''fencesRawNs''"] by auto
  next
    case two
    then show ?thesis by (auto simp: current_value_def then_do_def andthen_ok check_ok number_from_ok)
  next
    case one
    then show ?thesis using assms(2,3) by (auto simp: legacy_value_def check_ok item_eq_ok dest: get_item)
  qed
qed

section \<open>The process clock\<close>

text \<open>One call of \<open>BudgetClock.check\<close>, with the host's answer; the effect is the stage it was made for with the reading
  it returned.\<close>

definition clock_step :: "budget_clock \<Rightarrow> (string \<times> int) list \<Rightarrow> budget_clock \<Rightarrow> bool" where
  "clock_step s es t \<longleftrightarrow> (\<exists>h stage. t = snd (clock_check h stage s) \<and>
     es = (case fst (clock_check h stage s) of Inl _ \<Rightarrow> [] | Inr now \<Rightarrow> [(stage, now)]))"

lemma raw_now_ok: "raw_now h m c = Inr now \<Longrightarrow> m \<le> now \<and> now \<le> UINT64"
  by (auto simp: raw_now_def andthen_ok bounded_ok split: option.splits)

lemma budget_check_ok:
  assumes "budget_check h raw stage (Some m) = Inr now"
  shows "\<exists>i f. m = PInt i \<and> i \<le> now \<and> fence raw stage = Inr f \<and> now < f"
proof -
  obtain original i c f where "m = PInt i" "raw_now h (max original i) c = Inr now" "fence raw stage = Inr f" "now < f"
    using assms by (auto simp: budget_check_def andthen_ok req_ok bounded_ok)
  then show ?thesis using raw_now_ok [of h "max original i" c now] by auto
qed

lemma clock_check_ok:
  assumes "clock_check h stage s = (Inr now, t)"
  shows "\<exists>i f. last_reading s = PInt i \<and> i \<le> now \<and> fence (budget s) stage = Inr f \<and> now < f \<and> t = s\<lparr>last_reading := PInt now\<rparr>"
proof -
  have "budget_check h (budget s) stage (Some (last_reading s)) = Inr now" "t = s\<lparr>last_reading := PInt now\<rparr>"
    using assms by (auto simp: clock_check_def split: sum.splits)
  then show ?thesis using budget_check_ok by blast
qed

lemma clock_check_failed: "clock_check h stage s = (Inl e, t) \<Longrightarrow> t = s"
  by (auto simp: clock_check_def split: sum.splits)

interpretation bc: step_system clock_step "\<lambda>s. budget s = raw \<and> (\<forall>i. m = PInt i \<longrightarrow> (\<exists>j. last_reading s = PInt j \<and> i \<le> j))" for raw m
proof unfold_locales
  fix s es t
  assume inv: "budget s = raw \<and> (\<forall>i. m = PInt i \<longrightarrow> (\<exists>j. last_reading s = PInt j \<and> i \<le> j))" and "clock_step s es t"
  then obtain h stage where t: "t = snd (clock_check h stage s)" by (auto simp: clock_step_def)
  show "budget t = raw \<and> (\<forall>i. m = PInt i \<longrightarrow> (\<exists>j. last_reading t = PInt j \<and> i \<le> j))"
  proof (cases "fst (clock_check h stage s)")
    case (Inl e)
    then show ?thesis using clock_check_failed [of h stage s e t] t inv by (metis prod.collapse)
  next
    case (Inr now)
    then show ?thesis using clock_check_ok [of h stage s now t] t inv by (force simp: prod_eq_iff)
  qed
qed

lemma clock_step_reading:
  assumes "clock_step s es t" "es \<noteq> []"
  obtains i now stage f where "es = [(stage, now)]" "last_reading s = PInt i" "i \<le> now" "last_reading t = PInt now" "fence (budget s) stage = Inr f" "now < f"
proof -
  obtain h stage where t: "t = snd (clock_check h stage s)" "es = (case fst (clock_check h stage s) of Inl _ \<Rightarrow> [] | Inr now \<Rightarrow> [(stage, now)])"
    using assms(1) by (auto simp: clock_step_def)
  then obtain now where "clock_check h stage s = (Inr now, t)" "es = [(stage, now)]" using assms(2) by (auto simp: prod_eq_iff split: sum.splits)
  then show ?thesis using clock_check_ok [of h stage s now t] that by force
qed

lemma clock_step_silent:
  assumes "clock_step s [] t"
  shows "t = s"
proof -
  obtain h stage where t: "t = snd (clock_check h stage s)" "[] = (case fst (clock_check h stage s) of Inl _ \<Rightarrow> [] | Inr now \<Rightarrow> [(stage, now)])"
    using assms by (auto simp: clock_step_def)
  then obtain e where "fst (clock_check h stage s) = Inl e" by (cases "fst (clock_check h stage s)") simp_all
  then show ?thesis using t(1) clock_check_failed [of h stage s e t] by (simp add: prod_eq_iff)
qed

lemma sorted_last_le: "sorted xs \<Longrightarrow> x \<in> set xs \<Longrightarrow> x \<le> last (xs :: int list)"
  by (cases xs rule: rev_cases) (auto simp: sorted_append)

lemma clock_run:
  assumes "run clock_step s es t" "budget s = raw"
  shows "sorted (map snd es) \<and> budget t = raw
     \<and> list_all (\<lambda>(stage, now). (\<exists>f. fence raw stage = Inr f \<and> now < f) \<and> (\<exists>i. last_reading s = PInt i \<and> i \<le> now)) es
     \<and> (if es = [] then t = s else last_reading t = PInt (snd (last es)))"
  using assms
proof (induction rule: run.induct)
  case (run_step s es t fs u)
  note IH = run_step.IH [OF run_step.prems]
  show ?case
  proof (cases "fs = []")
    case True
    then show ?thesis using IH run_step(2) clock_step_silent [of t u] by simp
  next
    case False
    obtain i now stage f where f: "fs = [(stage, now)]" "last_reading t = PInt i" "i \<le> now" "last_reading u = PInt now" "fence (budget t) stage = Inr f" "now < f"
      using clock_step_reading [OF run_step(2) False] by metis
    have bu: "budget u = raw" using bc.step_inv [of t raw PNone fs u] IH run_step(2) by simp
    have low: "x \<le> now" if "x \<in> set (map snd es)" for x
    proof -
      have "es \<noteq> []" using that by auto
      then have "snd (last es) = i" using IH f(2) by simp
      moreover have "x \<le> last (map snd es)" using IH that by (intro sorted_last_le) simp_all
      ultimately show ?thesis using f(3) \<open>es \<noteq> []\<close> by (simp add: last_map)
    qed
    have base: "\<exists>j. last_reading s = PInt j \<and> j \<le> now"
    proof (cases "es = []")
      case False
      then have "snd (last es) \<le> now" "last es \<in> set es" using low by auto
      then show ?thesis using IH by (force simp: list_all_iff)
    qed (use IH f(2,3) in auto)
    have "sorted (map snd (es @ fs))" using IH low f(1) by (auto simp: sorted_append)
    then show ?thesis using IH base f bu by simp
  qed
qed simp

lemma clock_errors_ok: "clock_errors q = Inr x \<longleftrightarrow> q = Inr x"
  by (simp add: clock_errors_def split: sum.split exn.split)

lemma observe_valid: "observe h = Inr r \<Longrightarrow> validate_reading r = Inr r"
proof -
  assume "observe h = Inr r"
  then have "\<exists>x. validate_reading x = Inr r"
    by (auto simp: observe_def clock_errors_ok andthen_ok req_ok str_and_iff)
  then show ?thesis by (auto simp: validate_reading_ok)
qed

lemma checked_now_live:
  assumes "observe h = Inr \<lparr>clock = c, nanoseconds = PInt now\<rparr>" "0 \<le> m" "m \<le> now"
  shows "checked_now h c (PInt m) = Inr now"
proof -
  have v: "validate_identity c = Inr c" "0 \<le> now" "now \<le> UINT64"
    using observe_valid [OF assms(1)] by (simp_all add: validate_reading_ok)
  then have "elapsed_ns \<lparr>clock = c, nanoseconds = PInt m\<rparr> \<lparr>clock = c, nanoseconds = PInt now\<rparr> = Inr (now - m)"
    using assms(2,3) by (simp add: elapsed_ns_ok)
  then show ?thesis using v assms by (simp add: checked_now_def clock_integer_def)
qed

lemma clock_check_live:
  assumes "budget_clock_of (budget s) = Inr (Some c)" "value_of (budget s) = Inr v" "py_item v ''responseFinishedRawNs'' = Inr (PInt original)"
    and "fence (budget s) stage = Inr f" "last_reading s = PInt i" "0 \<le> original" "0 \<le> i"
    and "observe h = Inr \<lparr>clock = c, nanoseconds = PInt now\<rparr>" "original \<le> now" "i \<le> now" "now < f"
  shows "clock_check h stage s = (Inr now, s\<lparr>last_reading := PInt now\<rparr>)"
proof -
  have "0 \<le> now" "now \<le> UINT64" using observe_valid [OF assms(8)] by (auto simp: validate_reading_ok)
  moreover have "checked_now h c (PInt (max original i)) = Inr now" using assms by (intro checked_now_live) auto
  ultimately have "budget_check h (budget s) stage (Some (PInt i)) = Inr now"
    using assms by (simp add: budget_check_def raw_now_def number_from_def bounded_PInt)
  then show ?thesis using assms(5) by (simp add: clock_check_def)
qed

section \<open>The reader's bounds\<close>

lemma bounded_read_ok:
  assumes "bounded_read c e amount r = (Inr data, s)"
  shows "reader_last s < reader_end s \<and> wire_bytes s = wire_bytes r + len data \<and> wire_bytes s \<le> 2 * BODY_LIMIT + HEADER_LIMIT \<and>
     (in_headers s \<longrightarrow> len (header s) \<le> HEADER_LIMIT)"
  using assms by (auto simp: bounded_read_def keep_data_def Let_def split: sum.splits if_splits)

text \<open>Every read, failed ones included, keeps the end and never turns the clock back.\<close>

lemma bounded_read_clock:
  "reader_end (snd (bounded_read c e amount r)) = reader_end r \<and> reader_last r \<le> reader_last (snd (bounded_read c e amount r))"
  by (auto simp: bounded_read_def keep_data_def Let_def split: sum.splits if_splits dest!: raw_now_ok)

definition reader_step :: "http_reader \<Rightarrow> string list \<Rightarrow> http_reader \<Rightarrow> bool" where
  "reader_step r es s \<longleftrightarrow> (\<exists>c e amount. s = snd (bounded_read c e amount r) \<and>
     es = (case fst (bounded_read c e amount r) of Inl _ \<Rightarrow> [] | Inr data \<Rightarrow> [data]))"

interpretation rd: step_system reader_step "\<lambda>r. reader_end r = limit \<and> start \<le> reader_last r" for limit start
proof unfold_locales
  fix r es s
  assume r: "reader_end r = limit \<and> start \<le> reader_last r" and "reader_step r es s"
  then obtain c e amount where "s = snd (bounded_read c e amount r)" by (auto simp: reader_step_def)
  then show "reader_end s = limit \<and> start \<le> reader_last s" using r bounded_read_clock [of c e amount r] by simp
qed

lemma reader_run: "run reader_step (new_http_reader limit start) es r \<Longrightarrow> reader_end r = limit \<and> start \<le> reader_last r"
  using rd.run_inv [of "new_http_reader limit start" es r limit start] by (simp add: new_http_reader_def)

section \<open>A concrete budget\<close>

definition demo_github :: pyval where
  "demo_github = PDict [(''runnerOS'', PStr ''Linux''), (''runnerArch'', PStr ''X64'')]"

definition demo_clock_value :: pyval where
  "demo_clock_value = PDict [(''role'', PStr ''linux-x64''), (''domain'', PStr LINUX_DOMAIN), (''ticksPerSecond'', PInt NS)]"

definition demo_worker_policy :: pyval where
  "demo_worker_policy = (case worker_policy (PStr ''desktop'') demo_clock of Inr p \<Rightarrow> p | Inl _ \<Rightarrow> PNone)"

definition demo_fences :: "(string \<times> int) list" where
  "demo_fences = worker_fences (31 * NS) (301 * NS) (901 * NS) DESKTOP_CONTROLLER_STAGES DESKTOP_DELIVERY_STAGES"

definition demo_budget :: pyval where
  "demo_budget = PDict [(''schema'', PInt 2), (''profile'', PStr ''desktop''), (''clock'', demo_clock_value), (''github'', demo_github),
     (''scope'', PStr ''IMMUTABLE_ORDINARY_DESKTOP_JOB_BUDGET''), (''clockDomain'', PStr LINUX_DOMAIN), (''policy'', demo_worker_policy),
     (''requestStartRawNs'', PInt NS), (''responseFinishedRawNs'', PInt (2 * NS)), (''jobStartedEpochSeconds'', PInt 1700000000),
     (''originDateEpochSeconds'', PInt 1700000834), (''fencesRawNs'', fences_value demo_fences)]"

definition demo_budget_raw :: string where
  "demo_budget_raw = text_of_record demo_budget"

lemma demo_budget_storable: "storable demo_budget" by code_simp

lemma demo_budget_ints: "list_all (\<lambda>i. \<bar>i\<bar> < 10 ^ 12) (jints demo_budget)" by code_simp


lemma demo_budget_size: "jweight demo_budget < 100000" by code_simp

lemma demo_budget_read:
  "parse demo_budget_raw RECORD_LIMIT = Inr (canon demo_budget)" "encoded_record demo_budget = Inr demo_budget_raw"
proof -
  have i: "\<forall>i \<in> set (jints demo_budget). \<bar>i\<bar> < 10 ^ 12" using demo_budget_ints by (simp add: list_all_iff)
  have j: "jok demo_budget" by (rule jok_moderate(1) [OF demo_budget_storable i])
  have t: "record_text demo_budget = Inr demo_budget_raw" using record_text_of [OF j] by (simp add: demo_budget_raw_def)
  have l: "len demo_budget_raw \<le> RECORD_LIMIT"
    using record_text_length [OF demo_budget_storable t] jbound_moderate(1) [OF demo_budget_storable i] demo_budget_size by (simp add: RECORD_LIMIT_def len_def)
  have z: "demo_budget_raw \<noteq> []" using t by (auto simp: record_text_def andthen_ok)
  show "encoded_record demo_budget = Inr demo_budget_raw" using t l by (simp add: encoded_record_ok)
  have "is_dict (canon demo_budget)" by (simp add: demo_budget_def is_dict_def)
  then show "parse demo_budget_raw RECORD_LIMIT = Inr (canon demo_budget)"
    using record_read_back [OF j t] l z by (simp add: Hosted_Identity.parse_def len_def)
qed


lemma demo_fields:
  "get (canon demo_budget) ''schema'' = Inr (PInt 2)" "py_item (canon demo_budget) ''schema'' = Inr (PInt 2)"
  "get (canon demo_budget) ''profile'' = Inr (PStr ''desktop'')" "get (canon demo_budget) ''clock'' = Inr (canon demo_clock_value)"
  "py_item (canon demo_budget) ''clock'' = Inr (canon demo_clock_value)"
  "sub (canon demo_budget) ''github'' = Inr (canon demo_github)" "get (canon demo_budget) ''scope'' = Inr (PStr ''IMMUTABLE_ORDINARY_DESKTOP_JOB_BUDGET'')"
  "get (canon demo_budget) ''clockDomain'' = Inr (PStr LINUX_DOMAIN)" "get (canon demo_budget) ''policy'' = Inr (canon demo_worker_policy)"
  "py_item (canon demo_budget) ''requestStartRawNs'' = Inr (PInt NS)" "py_item (canon demo_budget) ''responseFinishedRawNs'' = Inr (PInt (2 * NS))"
  "py_item (canon demo_budget) ''jobStartedEpochSeconds'' = Inr (PInt 1700000000)" "py_item (canon demo_budget) ''originDateEpochSeconds'' = Inr (PInt 1700000834)"
  "get (canon demo_budget) ''fencesRawNs'' = Inr (canon (fences_value demo_fences))"
  "py_item (canon demo_budget) ''fencesRawNs'' = Inr (canon (fences_value demo_fences))"
  using get_canon [OF demo_budget_storable] py_item_canon [OF demo_budget_storable]
  by (simp_all add: sub_def get_def py_get_def py_item_def demo_budget_def split: option.splits)

lemma demo_parts:
  "clock_identity_of (canon demo_clock_value) = Inr demo_clock" "github_host (canon demo_github) = Inr (Some (''linux-x64'', ''ubuntu-latest''))"
  "budget_policy (PStr ''desktop'') (Some demo_clock) = Inr demo_worker_policy" "fences (901 * NS) (PStr ''desktop'') = Inr demo_fences"
  "validate_identity demo_clock = Inr demo_clock" "upper_profile (PStr ''desktop'') = Inr ''DESKTOP''"
  by code_simp+

lemma demo_policy_storable: "storable demo_worker_policy" "storable (fences_value demo_fences)"
  using storable_item [OF demo_budget_storable, of "''policy''"] storable_item [OF demo_budget_storable, of "''fencesRawNs''"]
  by (simp_all add: demo_budget_def py_item_def)

lemma part_encoded:
  assumes "storable v" "\<forall>i \<in> set (jints v). \<bar>i\<bar> < 10 ^ 12" "jweight v < 100000"
  shows "encoded_record v = Inr (text_of_record v)"
proof -
  have t: "record_text v = Inr (text_of_record v)" by (rule record_text_of [OF jok_moderate(1) [OF assms(1,2)]])
  then show ?thesis
    using record_text_length [OF assms(1) t] jbound_moderate(1) [OF assms(1,2)] assms(3) by (simp add: encoded_record_ok RECORD_LIMIT_def len_def)
qed

lemma demo_parts_encoded:
  "encoded_record demo_worker_policy = Inr (text_of_record demo_worker_policy)"
  "encoded_record (fences_value demo_fences) = Inr (text_of_record (fences_value demo_fences))"
proof -
  have "list_all (\<lambda>i. \<bar>i\<bar> < 10 ^ 12) (jints demo_worker_policy @ jints (fences_value demo_fences))"
    "jweight demo_worker_policy < 100000" "jweight (fences_value demo_fences) < 100000" by code_simp+
  then show "encoded_record demo_worker_policy = Inr (text_of_record demo_worker_policy)"
    "encoded_record (fences_value demo_fences) = Inr (text_of_record (fences_value demo_fences))"
    by (auto simp: list_all_iff intro!: part_encoded demo_policy_storable)
qed

lemma demo_current: "current_value (canon demo_budget) = Inr ()"
proof -
  have c: "role demo_clock = PStr ''linux-x64''" "domain demo_clock = PStr LINUX_DOMAIN" by (simp_all add: demo_clock_def)
  have e: "job_end_of (PStr ''desktop'') NS 1700000000 1700000834 = 901 * NS" by code_simp
  have p: "profile_clock (PStr ''desktop'') (Some demo_clock) (Some (canon demo_github)) = Inr ()"
    by (simp add: profile_clock_def demo_parts c py_in_def JVM_PROFILE_def)
  have "bounded 0 UINT64 (PInt (901 * NS)) = Inr (901 * NS)" by (simp add: bounded_PInt UINT64_def NS_def)
  then have f: "stored_fences (Inr (canon (fences_value demo_fences))) (901 * NS) (PStr ''desktop'') = Inr True"
    by (simp add: stored_fences_def same_encoding_def encoded_record_canon demo_parts demo_parts_encoded)
  have q: "same_encoding (Inr (canon demo_worker_policy)) (Inr demo_worker_policy) = Inr True"
    by (simp add: same_encoding_def encoded_record_canon demo_parts_encoded)
  have n: "number_from 0 (canon demo_budget) ''requestStartRawNs'' = Inr NS" "number_from 0 (canon demo_budget) ''jobStartedEpochSeconds'' = Inr 1700000000"
    "number_from 0 (canon demo_budget) ''originDateEpochSeconds'' = Inr 1700000834"
    by (simp_all add: number_from_def demo_fields bounded_PInt UINT64_def NS_def)
  show ?thesis
    by (simp add: current_value_def demo_fields demo_parts p q f e c n item_is_def get_eq_def get_is_def check_pass JVM_PROFILE_def)
qed

lemma demo_value: "value_of demo_budget_raw = Inr (canon demo_budget)"
  by (simp add: value_of_def demo_budget_read demo_fields demo_current)

lemma demo_clock_of: "budget_clock_of demo_budget_raw = Inr (Some demo_clock)"
  by (simp add: budget_clock_of_def demo_value demo_fields demo_parts py_in_def)

lemma demo_fence: "fence demo_budget_raw ''productive'' = Inr (31 * NS)" "map_of demo_fences ''productive'' = Some (31 * NS)"
proof -
  have m: "map_of demo_fences ''productive'' = Some (31 * NS)" by (simp add: demo_fences_def worker_fences_def)
  have i: "py_item (canon (fences_value demo_fences)) ''productive'' = Inr (PInt (31 * NS))"
    using py_item_canon [OF demo_policy_storable(2), of "''productive''"] by (simp add: fences_value_def py_item_def demo_fences_def worker_fences_def)
  then have "member_of ''productive'' (canon (fences_value demo_fences)) = Inr True"
    by (auto simp: member_of_def py_item_def split: pyval.splits option.splits dest: map_of_SomeD intro: rev_image_eqI)
  then show "fence demo_budget_raw ''productive'' = Inr (31 * NS)"
    using i by (simp add: fence_def demo_value demo_fields check_pass bounded_PInt UINT64_def NS_def)
  show "map_of demo_fences ''productive'' = Some (31 * NS)" by (rule m)
qed

definition demo_budget_clock :: budget_clock where
  "demo_budget_clock = \<lparr>budget = demo_budget_raw, last_reading = PInt (2 * NS)\<rparr>"

lemma demo_new: "new_budget_clock demo_budget_raw = Inr demo_budget_clock"
  by (simp add: new_budget_clock_def demo_value demo_fields demo_budget_clock_def)

lemma demo_observe: "observe demo_host = Inr \<lparr>clock = demo_clock, nanoseconds = PInt (7 * NS)\<rparr>"
  by code_simp

section \<open>Properties\<close>

text \<open>
  C35.  No stage of a job may run past the end of the job.  Whenever \<open>_fences\<close> returns, every fence lies between the
  productive fence and the end of the job, the upload ends exactly with the job, and the productive fence leaves
  the whole reserve of the profile (the controller tail, seal and upload of the full job; 870 seconds of the workers).
\<close>

theorem fences_within_job:
  assumes "fences job_end profile = Inr fs"
  shows "map_of fs ''productive'' = Some (job_end - reserved profile * NS) \<and> 0 \<le> job_end - reserved profile * NS \<and>
     list_all (\<lambda>(_, t). job_end - reserved profile * NS \<le> t \<and> t \<le> job_end) fs \<and>
     map_of fs ''upload'' = Some job_end \<and> distinct (map fst fs)"
  using fences_ok [OF assms] by (auto simp: list_all_iff)

theorem fences_within_job_witness:
  "fences (901 * NS) (PStr ''desktop'') = Inr demo_fences \<and> map_of demo_fences ''productive'' = Some (31 * NS) \<and>
   list_all (\<lambda>(_, t). 31 * NS \<le> t \<and> t \<le> 901 * NS) demo_fences"
  using fences_within_job [OF demo_parts(4)] demo_parts(4)
  by (simp add: reserved_def DESKTOP_DELIVERY_SECONDS_def DESKTOP_PRODUCT_RETURN_SECONDS_def DESKTOP_PRODUCT_FINAL_SECONDS_def NS_def)

text \<open>
  C36.  The running cursor of \<open>_fences\<close> implements the abstract schedule of the full job: the stages follow each other
  without gaps from the productive fence, each with its own allowance, and the last one ends the job.  It is refused
  exactly when the reserve does not fit before the end or a controller fence leaves 64 bits; the final accounting check
  never fails.
\<close>

theorem full_fences_refine_schedule:
  "fences job_end (PStr ''full'') =
     (if RESERVE_SECONDS * NS \<le> job_end \<and> job_end - (SEAL_SECONDS + UPLOAD_SECONDS + 2 * TRANSITION_SECONDS) * NS \<le> UINT64
      then Inr (reserve_schedule job_end) else Inl (Refused ''JOB_TIME_INTEGER''))"
  by (rule fences_full)

text \<open>
  C37.  A stored budget cannot extend a stage.  When the record of a current or initial budget is accepted, its stored
  fences contain no float and only well-formed text, and a fence is read from it, that fence is the one the profile gives
  for the job end recomputed from the stored service observations, hence not after that end.
\<close>

theorem stored_fence_recomputed:
  assumes "value_of raw = Inr v" "get v ''schema'' = Inr (PInt n)" "n \<noteq> 1"
    and "py_item v ''fencesRawNs'' = Inr stored" "storable stored" "fence raw stage = Inr f"
  shows "\<exists>profile start started date fs. get v ''profile'' = Inr profile \<and> py_item v ''requestStartRawNs'' = Inr (PInt start) \<and>
     py_item v ''jobStartedEpochSeconds'' = Inr (PInt started) \<and> py_item v ''originDateEpochSeconds'' = Inr (PInt date) \<and>
     fences (job_end_of profile start started date) profile = Inr fs \<and> map_of fs stage = Some f \<and> f \<le> job_end_of profile start started date"
proof -
  obtain profile start started date where p: "get v ''profile'' = Inr profile" "py_item v ''requestStartRawNs'' = Inr (PInt start)"
     "py_item v ''jobStartedEpochSeconds'' = Inr (PInt started)" "py_item v ''originDateEpochSeconds'' = Inr (PInt date)"
     "stored_fences (get v ''fencesRawNs'') (job_end_of profile start started date) profile = Inr True"
    using value_of_fences [OF assms(1-3)] by blast
  have "py_item stored stage = Inr (PInt f)"
    using assms(1,4,6) by (auto simp: fence_def andthen_ok check_ok bounded_ok)
  then obtain fs where fs: "fences (job_end_of profile start started date) profile = Inr fs" "map_of fs stage = Some f"
    using stored_fences_ok [of stored _ profile stage f] p(5) py_item_get [OF assms(4)] assms(5) by auto
  then show ?thesis using p fences_ok(3) [OF fs(1) map_of_SomeD [OF fs(2)]] by blast
qed

theorem stored_fence_recomputed_witness:
  "\<exists>start started date fs. fences (job_end_of (PStr ''desktop'') start started date) (PStr ''desktop'') = Inr fs \<and>
     map_of fs ''productive'' = Some (31 * NS) \<and> 31 * NS \<le> job_end_of (PStr ''desktop'') start started date"
  using stored_fence_recomputed [OF demo_value demo_fields(1) _ demo_fields(15) storable_canon(1) [OF demo_policy_storable(2)] demo_fence(1)]
  by (auto simp: demo_fields)

text \<open>
  C38.  The process clock never runs backwards and never grants a reading at or after the fence of the stage it is asked
  for.  In every sequence of checks from a fresh \<open>BudgetClock\<close>, failed ones included, the granted readings are in order;
  each is at or after the service response and strictly before the fence that the budget record gives for the stage of
  that very check; and the state keeps the last one and is unchanged when there is none.
\<close>

theorem budget_clock_monotone:
  assumes "new_budget_clock raw = Inr s" "run clock_step s es t"
  shows "sorted (map snd es) \<and> budget t = raw \<and> (if es = [] then t = s else last_reading t = PInt (snd (last es))) \<and>
     (\<exists>v. value_of raw = Inr v \<and> list_all (\<lambda>(stage, now). (\<exists>f. fence raw stage = Inr f \<and> now < f) \<and>
        (\<exists>i. py_item v ''responseFinishedRawNs'' = Inr (PInt i) \<and> i \<le> now)) es)"
proof -
  obtain v where v: "value_of raw = Inr v" "py_item v ''responseFinishedRawNs'' = Inr (last_reading s)" "budget s = raw"
    using assms(1) by (auto simp: new_budget_clock_def andthen_ok)
  from clock_run [OF assms(2) v(3)] v(1,2) show ?thesis by simp
qed

lemma demo_check: "clock_check demo_host ''productive'' demo_budget_clock = (Inr (7 * NS), demo_budget_clock\<lparr>last_reading := PInt (7 * NS)\<rparr>)"
  by (rule clock_check_live [where v = "canon demo_budget" and original = "2 * NS" and i = "2 * NS" and f = "31 * NS", OF _ _ _ _ _ _ _ demo_observe])
    (simp_all add: demo_budget_clock_def demo_clock_of demo_value demo_fields demo_fence(1) NS_def)

lemma demo_clock_run: "run clock_step demo_budget_clock [(''productive'', 7 * NS)] (demo_budget_clock\<lparr>last_reading := PInt (7 * NS)\<rparr>)"
proof -
  have "clock_step demo_budget_clock [(''productive'', 7 * NS)] (demo_budget_clock\<lparr>last_reading := PInt (7 * NS)\<rparr>)"
    unfolding clock_step_def using demo_check by (intro exI [of _ demo_host] exI [of _ "''productive''"]) simp
  then show ?thesis using run_step [OF run_refl] by fastforce
qed

theorem budget_clock_monotone_witness:
  "run clock_step demo_budget_clock [(''productive'', 7 * NS)] (demo_budget_clock\<lparr>last_reading := PInt (7 * NS)\<rparr>)
   \<and> (\<exists>f. fence demo_budget_raw ''productive'' = Inr f \<and> 7 * NS < f) \<and> sorted (map snd [(''productive'', 7 * NS)])"
  using budget_clock_monotone [OF demo_new demo_clock_run] demo_clock_run by auto

text \<open>
  C39.  A check is granted whenever time is left.  If the host's clock is the clock of the budget and its reading is neither
  before the service response nor before the last reading, and is before the fence of the stage, the check returns that
  reading and records it.
\<close>

theorem budget_clock_granted:
  assumes "budget_clock_of (budget s) = Inr (Some c)" "value_of (budget s) = Inr v" "py_item v ''responseFinishedRawNs'' = Inr (PInt original)"
    and "fence (budget s) stage = Inr f" "last_reading s = PInt i" "0 \<le> original" "0 \<le> i"
    and "observe h = Inr \<lparr>clock = c, nanoseconds = PInt now\<rparr>" "original \<le> now" "i \<le> now" "now < f"
  shows "clock_check h stage s = (Inr now, s\<lparr>last_reading := PInt now\<rparr>)"
  by (rule clock_check_live [OF assms])

theorem budget_clock_granted_witness:
  "clock_check demo_host ''productive'' demo_budget_clock = (Inr (7 * NS), demo_budget_clock\<lparr>last_reading := PInt (7 * NS)\<rparr>)"
  by (rule budget_clock_granted [where v = "canon demo_budget" and original = "2 * NS" and i = "2 * NS" and f = "31 * NS", OF _ _ _ _ _ _ _ demo_observe])
    (simp_all add: demo_budget_clock_def demo_clock_of demo_value demo_fields demo_fence(1) NS_def)

end
