(* ===== verification/Apple_Clock.thy ===== *)
theory Apple_Clock
  imports PyCheck
begin

text \<open>
  The shared Mach clock of the Apple CI adapter, \<^verbatim>\<open>src/scripts/rpc_apple_ci_clock.py\<close>: admission of the runtime, the boot
  session, one bracketed sample, the comparison with the original anchor and the conversion of a cutoff.  What the
  interpreter and the kernel answer during one call is the record \<open>mac_view\<close>.

  The lemmas show that an accepted sample is consistent, that accepted progress bounds the drift against the original
  anchor, and that a cutoff is never rounded later.
\<close>

definition CLOCK :: string where "CLOCK = ''MACH_ABSOLUTE_NANOSECONDS_V1''"
definition BILLION :: int where "BILLION = 1000000000"
definition MAX_NS :: int where "MAX_NS = 2 ^ 63 - 1"
definition MAX_SAMPLE_SPAN_NS :: int where "MAX_SAMPLE_SPAN_NS = 50000000"
definition MAX_DIVERGENCE_NS :: int where "MAX_DIVERGENCE_NS = BILLION"
definition KEYS :: "string list" where
  "KEYS = [''schema'', ''clock'', ''bootSession'', ''monotonicNs'', ''wallNs'', ''sampleSpanNs'']"

text \<open>One answer of \<open>sysctlbyname\<close>: the return code, the reported size and the 37-byte buffer.\<close>

record mac_view =
  os_system :: string
  implementation_name :: string
  version_info :: "int \<times> int"
  clock_implementation :: string
  clock_monotonic :: bool
  clock_adjustable :: bool
  mono_before :: int
  boot_before :: "int \<times> int \<times> string"
  wall_time :: int
  boot_later :: "int \<times> int \<times> string"
  mono_after :: int

definition admit_runtime :: "mac_view \<Rightarrow> unit res" where
  "admit_runtime m =
     req (os_system m = ''Darwin'' \<and> implementation_name m = ''cpython'' \<and> (3 < fst (version_info m) \<or> fst (version_info m) = 3 \<and> 10 \<le> snd (version_info m))
          \<and> clock_implementation m = ''mach_absolute_time()'' \<and> clock_monotonic m \<and> \<not> clock_adjustable m)
       ''Shared Darwin CPython 3.10+ Mach clock required'' (Inr ())"

definition boot_text :: "string \<Rightarrow> bool" where
  "boot_text s \<longleftrightarrow> map length (split_on (CHR ''-'') s) = [8, 4, 4, 4, 12] \<and> list_all (list_all is_hex) (split_on (CHR ''-'') s)
     \<and> set (filter (\<lambda>c. c \<noteq> CHR ''-'') s) \<noteq> {CHR ''0''}"

definition valid_boot :: "pyval \<Rightarrow> bool" where
  "valid_boot v = str_and boot_text v"

definition boot_session :: "int \<times> int \<times> string \<Rightarrow> string res" where
  "boot_session = (\<lambda>(code, size_value, raw).
     req (code = 0 \<and> size_value = 37 \<and> drop (length raw - 1) raw = [CHR 0x00]) ''Kernel boot observation failed'' (
     req (list_all (\<lambda>c. cc c < 128) (butlast raw)) ''Kernel boot observation failed'' (
     let result = map lower_char (butlast raw) in
     req (valid_boot (PStr result)) ''Kernel boot observation failed'' (Inr result))))"

definition validate_sample :: "pyval \<Rightarrow> unit res" where
  "validate_sample v =
     check [Inr (closed_dict v KEYS), item_is is_int v ''schema'', item_eq v ''schema'' (PInt 1), item_eq v ''clock'' (PStr CLOCK),
            item_is valid_boot v ''bootSession''] ''Closed shared clock observation required'' (
     then_do (check_each (\<lambda>k. ensure (item_is (int_and (\<lambda>i. 0 \<le> i \<and> i \<le> MAX_NS)) v k) ''Invalid shared clock number'')
       [''monotonicNs'', ''wallNs'', ''sampleSpanNs'']) (
     andthen (int_item v ''wallNs'') (\<lambda>wall. andthen (int_item v ''sampleSpanNs'') (\<lambda>width. andthen (int_item v ''monotonicNs'') (\<lambda>awake.
     req (0 < wall \<and> width \<le> MAX_SAMPLE_SPAN_NS \<and> awake + width \<le> MAX_NS) ''Unbounded shared clock sample'' (Inr ()))))))"

definition sample_clock :: "mac_view \<Rightarrow> pyval res" where
  "sample_clock m =
     then_do (admit_runtime m) (
     andthen (boot_session (boot_before m)) (\<lambda>boot. andthen (boot_session (boot_later m)) (\<lambda>boot_after.
     req (boot_after = boot \<and> mono_before m \<le> mono_after m) ''Clock continuity changed during observation'' (
     let sample = PDict [(''schema'', PInt 1), (''clock'', PStr CLOCK), (''bootSession'', PStr boot), (''monotonicNs'', PInt (mono_before m)),
       (''wallNs'', PInt (wall_time m)), (''sampleSpanNs'', PInt (mono_after m - mono_before m))] in
     then_do (validate_sample sample) (Inr sample)))))"

definition validate_progress :: "pyval \<Rightarrow> pyval \<Rightarrow> unit res" where
  "validate_progress anchor current =
     then_do (validate_sample anchor) (
     then_do (validate_sample current) (
     check [eq_res (py_item current ''bootSession'') (py_item anchor ''bootSession'')] ''Boot session changed'' (
     andthen (int_item current ''monotonicNs'') (\<lambda>m1. andthen (int_item anchor ''monotonicNs'') (\<lambda>m0.
     andthen (int_item current ''wallNs'') (\<lambda>w1. andthen (int_item anchor ''wallNs'') (\<lambda>w0.
     andthen (int_item anchor ''sampleSpanNs'') (\<lambda>s0. andthen (int_item current ''sampleSpanNs'') (\<lambda>s1.
     let awake = m1 - m0; wall = w1 - w0; difference = wall - awake in
     req (0 \<le> awake \<and> 0 \<le> wall \<and> difference + s0 \<le> MAX_DIVERGENCE_NS \<and> - MAX_DIVERGENCE_NS \<le> difference - s1)
       ''Original wall and awake clock allowance diverged'' (Inr ()))))))))))"

text \<open>A float is an integer multiple of \<open>1 / float_unit\<close>, so \<open>as_integer_ratio\<close> need not be reduced.\<close>

definition cutoff_ratio :: "pyval \<Rightarrow> (int \<times> int) res" where
  "cutoff_ratio v = (case v of
      PInt i \<Rightarrow> Inr (i, 1)
    | PFloat (Fin i) \<Rightarrow> Inr (i, float_unit)
    | PFloat _ \<Rightarrow> Inl (Refused ''Finite cutoff required'')
    | _ \<Rightarrow> Inl (Refused ''Numeric cutoff required''))"

definition floor_seconds_ns :: "pyval \<Rightarrow> int res" where
  "floor_seconds_ns v =
     andthen (cutoff_ratio v) (\<lambda>(numerator, denominator).
     let result = numerator * BILLION div denominator in
     req (0 \<le> result \<and> result \<le> MAX_NS) ''Cutoff is outside the shared signed-nanosecond domain'' (Inr result))"

section \<open>Samples and progress\<close>

text \<open>The numbers of a sample.\<close>

definition sample_numbers :: "pyval \<Rightarrow> int \<times> int \<times> int \<Rightarrow> bool" where
  "sample_numbers v = (\<lambda>(awake, wall, width).
     py_item v ''monotonicNs'' = Inr (PInt awake) \<and> py_item v ''wallNs'' = Inr (PInt wall) \<and> py_item v ''sampleSpanNs'' = Inr (PInt width))"

lemma validate_sample_ok:
  assumes "validate_sample v = Inr ()"
  shows "\<exists>awake wall width. sample_numbers v (awake, wall, width) \<and> 0 \<le> awake \<and> 0 < wall \<and> 0 \<le> width \<and> width \<le> MAX_SAMPLE_SPAN_NS \<and> awake + width \<le> MAX_NS"
  using assms
  by (auto simp: validate_sample_def then_do_def check_each_def ensure_def ok_iff item_is_def int_and_iff int_item_def as_int_def sample_numbers_def
      split: if_splits)

lemma sample_numbers_item [simp]:
  assumes "sample_numbers v (awake, wall, width)"
  shows "int_item v ''monotonicNs'' = Inr awake" "int_item v ''wallNs'' = Inr wall" "int_item v ''sampleSpanNs'' = Inr width"
  using assms by (simp_all add: sample_numbers_def int_item_def as_int_def)

text \<open>
  Accepted progress keeps one boot session and the elapsed wall and awake times agree within the margin of one second,
  whatever samples were taken in between: the anchor is the original one.
\<close>

lemma progress_drift:
  assumes "validate_progress anchor current = Inr ()" "sample_numbers anchor (m0, w0, s0)" "sample_numbers current (m1, w1, s1)"
  shows "m0 \<le> m1 \<and> w0 \<le> w1 \<and> \<bar>(w1 - w0) - (m1 - m0)\<bar> \<le> MAX_DIVERGENCE_NS"
proof -
  have "0 \<le> s0" "0 \<le> s1"
    using assms validate_sample_ok [of anchor] validate_sample_ok [of current] by (auto simp: validate_progress_def then_do_def andthen_ok sample_numbers_def)
  then show ?thesis using assms by (auto simp: validate_progress_def then_do_def andthen_ok check_ok req_ok Let_def)
qed

lemma sample_clock_ok:
  assumes "sample_clock m = Inr v"
  shows "sample_numbers v (mono_before m, wall_time m, mono_after m - mono_before m) \<and> mono_after m - mono_before m \<le> MAX_SAMPLE_SPAN_NS"
proof -
  have v: "validate_sample v = Inr ()" "sample_numbers v (mono_before m, wall_time m, mono_after m - mono_before m)"
    using assms by (auto simp: sample_clock_def then_do_def andthen_ok req_ok Let_def sample_numbers_def py_item_def)
  then show ?thesis using validate_sample_ok [OF v(1)] by (auto simp: sample_numbers_def)
qed

text \<open>A cutoff is converted to the last whole nanosecond that is not after it.\<close>

lemma floor_seconds_exact:
  assumes "floor_seconds_ns v = Inr t" "cutoff_ratio v = Inr (n, d)"
  shows "0 \<le> t \<and> t \<le> MAX_NS \<and> t * d \<le> n * BILLION \<and> n * BILLION < (t + 1) * d"
proof -
  have d: "0 < d" using assms(2) by (auto simp: cutoff_ratio_def float_unit_pos split: pyval.splits pyfloat.splits)
  have t: "t = n * BILLION div d" "0 \<le> t" "t \<le> MAX_NS" using assms by (auto simp: floor_seconds_ns_def req_ok Let_def)
  then show ?thesis
    using le_div_int_iff [of d t "n * BILLION"] div_less_int_iff [of d "n * BILLION" "t + 1"] d by simp
qed

end
