(* ===== verification/Apple_Diagnostics.thy ===== *)
theory Apple_Diagnostics
  imports PyCheck PyHash
begin

text \<open>
  The closed observations of the owned Apple network probe, \<^verbatim>\<open>src/scripts/rpc_apple_network_diagnostics.py\<close>: the fields of
  each probe mode, the strict reader of one observation, its entry in the evidence and the reader of the whole evidence.
  The compiler diagnostics of the same file, which search regular expressions in the probe's source, are not modelled.

  The lemmas show that an accepted observation is well typed for its mode.
\<close>

section \<open>Modes and fields\<close>

definition NETWORK_MODES :: "string list" where
  "NETWORK_MODES = [''network'', ''network-late'', ''network-txt'', ''network-default-domain'', ''network-legacy'',
     ''network-production-shape'', ''network-publish-txt'', ''network-query-empty-txt'',
     ''network-txt-tcp-parameters'', ''network-separate-txt'', ''network-declared'']"

definition RESOLVE_MODES :: "string list" where "RESOLVE_MODES = [''dns-resolve-txt'', ''dns-resolve-selected'']"

definition MODES :: "string list" where
  "MODES = [''bsd'', ''multicast-path'', ''mdns-policy'', ''dns-any'', ''dns-local'', ''dns-selected''] @ RESOLVE_MODES @ NETWORK_MODES"

definition CONTEXTS :: "string list" where "CONTEXTS = [''host'', ''simulator'']"
definition LIMIT :: int where "LIMIT = 16384"

definition COMMON :: "string list" where
  "COMMON = [''schema'', ''mode'', ''simulator'', ''unprivileged'', ''elapsedMillis'', ''probeExit'']"

definition MULTICAST_PATH_BOOLS :: "string list" where
  "MULTICAST_PATH_BOOLS = [''hasIpv4'', ''connectionCreated'', ''ready'', ''waiting'', ''failed'', ''pathObserved'',
     ''localNetworkDenied'', ''cleanupComplete'']"

definition MULTICAST_PATH_COUNTS :: "string list" where
  "MULTICAST_PATH_COUNTS = [''stateCallbacks'', ''errorDomain'', ''errorCode'', ''pathStatus'', ''pathReason'']"

definition DNS_FIELDS :: "string list" where
  "DNS_FIELDS = [''registrationStart'', ''browseStart'', ''registrationCallbacks'', ''registrationCode'',
     ''browseCallbacks'', ''browseCode'', ''targetAdds'', ''pollErrno'', ''processingCode'', ''referencesDeallocated'',
     ''localOnlyAdds'', ''otherInterfaceAdds'']"

definition SELECTION_COUNTS :: "string list" where "SELECTION_COUNTS = [''selectionErrno'', ''candidateInterfaces'']"
definition SELECTED_DNS_COUNTS :: "string list" where "SELECTED_DNS_COUNTS = [''selectedAdds'', ''offInterfaceAdds'']"
definition SELECTED_RESOLVE_BOOLS :: "string list" where "SELECTED_RESOLVE_BOOLS = [''selectedResolution'', ''selectedQuery'']"

definition RESOLVE_BOOLS :: "string list" where
  "RESOLVE_BOOLS = [''queriesStarted'', ''resolvedTxtMatches'', ''queriedTxtMatches'', ''resolvedPortMatches'', ''localTarget'',
     ''referencesDeallocated'']"

definition RESOLVE_OBSERVATION_BOOLS :: "string list" where
  "RESOLVE_OBSERVATION_BOOLS = [''localOnlyResolution'', ''localOnlyQuery'']"

definition RESOLVE_COUNTS :: "string list" where
  "RESOLVE_COUNTS = [''registrationCallbacks'', ''resolveCallbacks'', ''queryCallbacks'', ''pollErrno'']"

definition RESOLVE_CODES :: "string list" where
  "RESOLVE_CODES = [''registrationStart'', ''registrationCode'', ''resolveStart'', ''resolveCode'', ''queryStart'', ''queryCode'',
     ''processingCode'']"

definition TARGET_KINDS :: "string list" where
  "TARGET_KINDS = [''EMPTY'', ''OVERSIZE'', ''LOCAL_ABSOLUTE'', ''LOCAL_RELATIVE'', ''LOCALHOST'', ''OTHER_ABSOLUTE'', ''OTHER_RELATIVE'']"

definition NETWORK_BOOLS :: "string list" where
  "NETWORK_BOOLS = [''hasIpv4'', ''listenerReady'', ''browserReady'', ''connectionReady'', ''cleanupComplete'']"

definition DECLARED_BOOLS :: "string list" where
  "DECLARED_BOOLS = [''bundleIdMatches'', ''usageDeclared'', ''secureBonjourDeclared'', ''legacyBonjourDeclared'']"

definition PREFERENCE_KINDS :: "string list" where "PREFERENCE_KINDS = [''NOT_RETURNED'', ''TRUE'', ''FALSE'', ''OTHER_TYPE'']"
definition NETWORK_OBSERVATION_BOOLS :: "string list" where "NETWORK_OBSERVATION_BOOLS = [''txtLocalOnly'', ''connectionLoopback'']"
definition TXT_NETWORK_BOOLS :: "string list" where "TXT_NETWORK_BOOLS = [''bonjourEndpoint'', ''txtMatches'', ''txtDeallocated'']"
definition TXT_NETWORK_CODES :: "string list" where "TXT_NETWORK_CODES = [''txtQueryStart'', ''txtQueueCode'', ''txtQueryCode'']"

definition NETWORK_NUMBERS :: "string list" where
  "NETWORK_NUMBERS = [''listenerDomain'', ''listenerCode'', ''browserDomain'', ''browserCode'', ''connectionDomain'',
     ''connectionCode'', ''registrationAdds'', ''browseCallbacks'', ''targetAdds'', ''acceptedConnections'',
     ''pathStatus'', ''pathReason'', ''connectionPathReason'', ''txtQueryCallbacks'', ''resultInterfaces'',
     ''resultLoopbackInterfaces''] @ TXT_NETWORK_CODES"

text \<open>The fields of a mode beside \<open>COMMON\<close>.\<close>

definition base_fields :: "string \<Rightarrow> string list" where
  "base_fields mode =
     (if mode = ''bsd'' then [''interfaces'']
      else if mode = ''mdns-policy'' then [''readAttempted'', ''preferenceKind'']
      else if mode = ''multicast-path'' then MULTICAST_PATH_BOOLS @ MULTICAST_PATH_COUNTS
      else if mode \<in> set NETWORK_MODES then NETWORK_BOOLS @ TXT_NETWORK_BOOLS @ NETWORK_OBSERVATION_BOOLS @ NETWORK_NUMBERS
      else if mode \<in> set RESOLVE_MODES then RESOLVE_BOOLS @ RESOLVE_OBSERVATION_BOOLS @ RESOLVE_COUNTS @ RESOLVE_CODES @ [''targetKind'']
      else DNS_FIELDS)"

definition mode_fields :: "string \<Rightarrow> string list" where
  "mode_fields mode = base_fields mode @
     (if mode = ''dns-selected'' then SELECTION_COUNTS @ SELECTED_DNS_COUNTS
      else if mode = ''dns-resolve-selected'' then SELECTION_COUNTS @ SELECTED_RESOLVE_BOOLS @ [''offInterfaceCallbacks'']
      else if mode = ''network-declared'' then DECLARED_BOOLS else [])"

section \<open>Checks\<close>

definition INVALID :: string where "INVALID = ''Invalid closed Apple network diagnostic''"

definition need :: "bool res list \<Rightarrow> unit res" where
  "need cs = check cs INVALID (Inr ())"

definition integer :: "pyval \<Rightarrow> string \<Rightarrow> int \<Rightarrow> int \<Rightarrow> unit res" where
  "integer v k minimum maximum = need [item_is (int_and (\<lambda>i. minimum \<le> i \<and> i \<le> maximum)) v k]"

definition integers :: "pyval \<Rightarrow> string list \<Rightarrow> int \<Rightarrow> unit res" where
  "integers v ks minimum = check_each (\<lambda>k. integer v k minimum 1000000) ks"

definition need_bools :: "pyval \<Rightarrow> string list \<Rightarrow> unit res" where
  "need_bools v ks = need (map (item_is is_bool v) ks)"

text \<open>\<open>all(value[k] for k in ks)\<close>, \<open>all(value[k] == 0 for k in ks)\<close>, \<open>value[k] > 0\<close>\<close>

definition holds :: "pyval \<Rightarrow> string list \<Rightarrow> bool res" where
  "holds v ks = allof (map (item_is truth v) ks)"

definition zero :: "pyval \<Rightarrow> string list \<Rightarrow> bool res" where
  "zero v ks = allof (map (\<lambda>k. item_eq v k (PInt 0)) ks)"

definition positive :: "pyval \<Rightarrow> string \<Rightarrow> bool res" where
  "positive v k = andthen (int_item v k) (\<lambda>i. Inr (0 < i))"

text \<open>\<open>not value[k] or rest\<close>\<close>

definition unless :: "pyval \<Rightarrow> string \<Rightarrow> bool res \<Rightarrow> bool res" where
  "unless v k r = andthen (item_is truth v k) (\<lambda>b. if b then r else Inr True)"

text \<open>The further conditions of a probe that exited with 0.\<close>

definition when_passed :: "pyval \<Rightarrow> unit res \<Rightarrow> unit res" where
  "when_passed v r = andthen (item_eq v ''probeExit'' (PInt 0)) (\<lambda>b. if b then r else Inr ())"

definition selection_checks :: "pyval \<Rightarrow> unit res" where
  "selection_checks v =
     then_do (integer v ''selectionErrno'' 0 255) (
     then_do (integer v ''candidateInterfaces'' 0 64) (
     when_passed v (need [item_eq v ''selectionErrno'' (PInt 0), positive v ''candidateInterfaces''])))"

definition policy_checks :: "pyval \<Rightarrow> unit res" where
  "policy_checks v =
     then_do (need [item_is is_bool v ''readAttempted'', item_is (str_and (\<lambda>s. s \<in> set PREFERENCE_KINDS)) v ''preferenceKind'']) (
     when_passed v (need [item_is truth v ''readAttempted'']))"

definition ROW_FIELDS :: "string list" where
  "ROW_FIELDS = [''privateIpv4'', ''pointToPoint'', ''setupErrno'', ''sendErrno'', ''closeErrno'', ''sendReturned'']"

definition bsd_row :: "pyval \<Rightarrow> unit res" where
  "bsd_row r =
     then_do (need [Inr (closed_dict r ROW_FIELDS)]) (
     then_do (need_bools r [''privateIpv4'', ''pointToPoint'', ''sendReturned'']) (
     then_do (check_each (\<lambda>k. integer r k 0 255) [''setupErrno'', ''sendErrno'', ''closeErrno'']) (
     need [unless r ''sendReturned'' (allof [eq_res (py_item r ''setupErrno'') (py_item r ''sendErrno''), item_eq r ''sendErrno'' (PInt 0)])])))"

definition bsd_checks :: "pyval \<Rightarrow> unit res" where
  "bsd_checks v =
     andthen (py_item v ''interfaces'') (\<lambda>interfaces.
     then_do (need [Inr (is_list interfaces), Inr (len (elems interfaces) \<le> 64)]) (
     then_do (check_each bsd_row (elems interfaces)) (
     when_passed v (need (Inr (elems interfaces \<noteq> []) #
       map (\<lambda>r. allof [item_is truth r ''sendReturned'', item_eq r ''closeErrno'' (PInt 0)]) (elems interfaces))))))"

definition multicast_checks :: "pyval \<Rightarrow> unit res" where
  "multicast_checks v =
     then_do (need_bools v MULTICAST_PATH_BOOLS) (
     then_do (check_each (\<lambda>k. integer v k (if k = ''errorCode'' then - 1000000 else 0) 1000000) MULTICAST_PATH_COUNTS) (
     then_do (need [unless v ''localNetworkDenied'' (allof [item_is truth v ''pathObserved'', item_eq v ''pathReason'' (PInt 3)])]) (
     when_passed v (need [holds v [''hasIpv4'', ''connectionCreated'', ''ready'', ''pathObserved'', ''cleanupComplete''],
       item_is (\<lambda>x. \<not> truth x) v ''localNetworkDenied'', item_is (\<lambda>x. \<not> truth x) v ''failed'', item_eq v ''pathStatus'' (PInt 1),
       eq_res (py_item v ''errorDomain'') (py_item v ''errorCode''), item_eq v ''errorCode'' (PInt 0), positive v ''stateCallbacks'']))))"

definition NETWORK_COUNTS :: "string list" where
  "NETWORK_COUNTS = [''registrationAdds'', ''browseCallbacks'', ''targetAdds'', ''acceptedConnections'', ''txtQueryCallbacks'',
     ''resultInterfaces'', ''resultLoopbackInterfaces'']"

definition network_passed :: "string \<Rightarrow> pyval \<Rightarrow> unit res" where
  "network_passed mode v =
     then_do (need [holds v NETWORK_BOOLS, positive v ''registrationAdds'', positive v ''targetAdds'', positive v ''acceptedConnections'']) (
     then_do (if mode = ''network-separate-txt'' then need [holds v TXT_NETWORK_BOOLS, positive v ''txtQueryCallbacks'', zero v TXT_NETWORK_CODES] else Inr ()) (
     if mode = ''network-declared'' then need [holds v DECLARED_BOOLS] else Inr ()))"

definition network_checks :: "string \<Rightarrow> pyval \<Rightarrow> unit res" where
  "network_checks mode v =
     then_do (need_bools v (NETWORK_BOOLS @ TXT_NETWORK_BOOLS @ NETWORK_OBSERVATION_BOOLS)) (
     then_do (need [item_is (\<lambda>x. py_is x (mode = ''network-separate-txt'')) v ''bonjourEndpoint'']) (
     then_do (integers v NETWORK_NUMBERS (- 1000000)) (
     then_do (integers v NETWORK_COUNTS 0) (
     then_do (need [andthen (int_item v ''resultLoopbackInterfaces'') (\<lambda>a. andthen (int_item v ''resultInterfaces'') (\<lambda>b. Inr (a \<le> b)))]) (
     then_do (if mode = ''network-declared'' then need_bools v DECLARED_BOOLS else Inr ()) (
     when_passed v (network_passed mode v)))))))"

definition resolve_selected :: "pyval \<Rightarrow> unit res" where
  "resolve_selected v =
     then_do (need_bools v SELECTED_RESOLVE_BOOLS) (
     then_do (integer v ''offInterfaceCallbacks'' 0 1000000) (
     then_do (need [unless v ''selectedResolution'' (item_is (\<lambda>x. \<not> truth x) v ''localOnlyResolution'')]) (
     need [unless v ''selectedQuery'' (item_is (\<lambda>x. \<not> truth x) v ''localOnlyQuery'')])))"

definition resolve_passed :: "string \<Rightarrow> pyval \<Rightarrow> unit res" where
  "resolve_passed mode v =
     then_do (need [holds v RESOLVE_BOOLS, item_eq v ''pollErrno'' (PInt 0), zero v RESOLVE_CODES,
       positive v ''registrationCallbacks'', positive v ''resolveCallbacks'', positive v ''queryCallbacks'']) (
     if mode = ''dns-resolve-selected'' then need [holds v SELECTED_RESOLVE_BOOLS, item_eq v ''offInterfaceCallbacks'' (PInt 0)] else Inr ())"

definition resolve_checks :: "string \<Rightarrow> pyval \<Rightarrow> unit res" where
  "resolve_checks mode v =
     then_do (need [item_is (str_and (\<lambda>s. s \<in> set TARGET_KINDS)) v ''targetKind'']) (
     then_do (need [unless v ''localTarget'' (item_eq v ''targetKind'' (PStr ''LOCAL_ABSOLUTE''))]) (
     then_do (need_bools v (RESOLVE_BOOLS @ RESOLVE_OBSERVATION_BOOLS)) (
     then_do (integers v RESOLVE_COUNTS 0) (
     then_do (integers v RESOLVE_CODES (- 1000000)) (
     then_do (if mode = ''dns-resolve-selected'' then resolve_selected v else Inr ()) (
     when_passed v (resolve_passed mode v)))))))"

text \<open>\<open>value[a] + value[b] == value[c]\<close>\<close>

definition adds_up :: "pyval \<Rightarrow> string \<Rightarrow> string \<Rightarrow> string \<Rightarrow> bool res" where
  "adds_up v a b c = andthen (int_item v a) (\<lambda>i. andthen (int_item v b) (\<lambda>j. andthen (int_item v c) (\<lambda>k. Inr (i + j = k))))"

definition DNS_COUNTS :: "string list" where
  "DNS_COUNTS = [''registrationCallbacks'', ''browseCallbacks'', ''targetAdds'', ''pollErrno'', ''localOnlyAdds'', ''otherInterfaceAdds'']"

definition dns_selected :: "pyval \<Rightarrow> unit res" where
  "dns_selected v =
     then_do (integers v SELECTED_DNS_COUNTS 0) (
     need [adds_up v ''selectedAdds'' ''offInterfaceAdds'' ''targetAdds'',
       andthen (int_item v ''localOnlyAdds'') (\<lambda>a. andthen (int_item v ''offInterfaceAdds'') (\<lambda>b. Inr (a \<le> b)))])"

definition dns_passed :: "string \<Rightarrow> pyval \<Rightarrow> unit res" where
  "dns_passed mode v =
     then_do (need [item_is truth v ''referencesDeallocated'', positive v ''registrationCallbacks'', positive v ''targetAdds'',
       zero v [''registrationStart'', ''browseStart'', ''registrationCode'', ''browseCode'', ''pollErrno'', ''processingCode'']]) (
     if mode = ''dns-selected'' then need [positive v ''selectedAdds'', item_eq v ''offInterfaceAdds'' (PInt 0)] else Inr ())"

definition dns_checks :: "string \<Rightarrow> pyval \<Rightarrow> unit res" where
  "dns_checks mode v =
     then_do (need [item_is is_bool v ''referencesDeallocated'']) (
     then_do (integers v (filter (\<lambda>k. k \<noteq> ''referencesDeallocated'') DNS_FIELDS) (- 1000000)) (
     then_do (integers v DNS_COUNTS 0) (
     then_do (need [adds_up v ''localOnlyAdds'' ''otherInterfaceAdds'' ''targetAdds'']) (
     then_do (if mode = ''dns-selected'' then dns_selected v else Inr ()) (
     when_passed v (dns_passed mode v))))))"

definition mode_checks :: "string \<Rightarrow> pyval \<Rightarrow> unit res" where
  "mode_checks mode v =
     (if mode = ''mdns-policy'' then policy_checks v
      else if mode = ''bsd'' then bsd_checks v
      else if mode = ''multicast-path'' then multicast_checks v
      else if mode \<in> set NETWORK_MODES then network_checks mode v
      else if mode \<in> set RESOLVE_MODES then resolve_checks mode v
      else dns_checks mode v)"

definition validate_observation :: "pyval \<Rightarrow> pyval res" where
  "validate_observation v =
     then_do (need [Inr (is_dict v), get_is (str_and (\<lambda>s. s \<in> set MODES)) v ''mode'']) (
     andthen (str_item v ''mode'') (\<lambda>mode.
     then_do (need [Inr (closed_dict v (COMMON @ mode_fields mode)), item_is is_int v ''schema'', item_eq v ''schema'' (PInt 1),
       item_is is_bool v ''simulator'', item_is (\<lambda>x. py_is x True) v ''unprivileged'']) (
     then_do (integer v ''elapsedMillis'' 0 60000) (
     then_do (integer v ''probeExit'' 0 3) (
     then_do (if mode \<in> {''dns-selected'', ''dns-resolve-selected''} then selection_checks v else Inr ()) (
     then_do (mode_checks mode v) (
     Inr v)))))))"

section \<open>The evidence\<close>

definition observe :: "string \<Rightarrow> string \<Rightarrow> string \<Rightarrow> pyval \<Rightarrow> pyval res" where
  "observe raw context_name mode product_exit =
     then_do (need [Inr (0 < len raw), Inr (len raw \<le> LIMIT), Inr (context_name \<in> set CONTEXTS), Inr (mode \<in> set MODES)]) (
     andthen (json_loads_bytes (unique_hooks (Refused INVALID)) raw) (\<lambda>parsed.
     andthen (validate_observation parsed) (\<lambda>v.
     then_do (need [item_eq v ''mode'' (PStr mode), item_is (\<lambda>x. py_is x (context_name = ''simulator'')) v ''simulator'',
       Inr (is_int product_exit), item_eq v ''probeExit'' product_exit]) (
     Inr (PDict [(''sha256'', PStr (sha256 raw)), (''bytes'', PInt (len raw)), (''observation'', v), (''executionAdmitted'', PBool False)])))))"

definition LABELS :: "string list" where
  "LABELS = concat (map (\<lambda>c. map (\<lambda>m. c @ ''-'' @ m) MODES) CONTEXTS)"

definition validate_entry :: "string \<times> pyval \<Rightarrow> unit res" where
  "validate_entry = (\<lambda>(label, entry). case partition_on (CHR ''-'') label of (context_name, _, mode) \<Rightarrow>
     then_do (need [Inr (closed_dict entry [''sha256'', ''bytes'', ''observation'', ''executionAdmitted''])]) (
     then_do (need [item_is (hexs 64) entry ''sha256'', item_is (int_and (\<lambda>i. 0 < i \<and> i \<le> LIMIT)) entry ''bytes'',
       item_is (\<lambda>x. py_is x False) entry ''executionAdmitted'']) (
     andthen (andthen (py_item entry ''observation'') validate_observation) (\<lambda>v.
     need [item_eq v ''mode'' (PStr mode), item_is (\<lambda>x. py_is x (context_name = ''simulator'')) v ''simulator'']))))"

definition validate :: "pyval \<Rightarrow> pyval res" where
  "validate v =
     then_do (need [Inr (is_dict v), Inr (set (map fst (items v)) \<subseteq> set LABELS)]) (
     then_do (check_each validate_entry (items v)) (
     Inr v))"

section \<open>Types of an accepted observation\<close>

definition bool_fields :: "string \<Rightarrow> string list" where
  "bool_fields mode = [''simulator'', ''unprivileged''] @
     (if mode = ''bsd'' then []
      else if mode = ''mdns-policy'' then [''readAttempted'']
      else if mode = ''multicast-path'' then MULTICAST_PATH_BOOLS
      else if mode \<in> set NETWORK_MODES then NETWORK_BOOLS @ TXT_NETWORK_BOOLS @ NETWORK_OBSERVATION_BOOLS @ DECLARED_BOOLS
      else if mode \<in> set RESOLVE_MODES then RESOLVE_BOOLS @ RESOLVE_OBSERVATION_BOOLS @ SELECTED_RESOLVE_BOOLS
      else [''referencesDeallocated''])"

definition well_typed :: "string \<Rightarrow> string \<Rightarrow> pyval \<Rightarrow> bool" where
  "well_typed mode k x =
     (if k = ''mode'' then x = PStr mode
      else if k = ''interfaces'' then is_list x
      else if k \<in> {''preferenceKind'', ''targetKind''} then is_str x
      else if k \<in> set (bool_fields mode) then is_bool x
      else int_and (\<lambda>i. - 1000000 \<le> i \<and> i \<le> 1000000) x)"

definition typed :: "string \<Rightarrow> pyval \<Rightarrow> string list \<Rightarrow> bool" where
  "typed mode v ks \<longleftrightarrow> (\<forall>k \<in> set ks. \<exists>x. py_item v k = Inr x \<and> well_typed mode k x)"

lemma typed_append [simp]: "typed mode v (xs @ ys) \<longleftrightarrow> typed mode v xs \<and> typed mode v ys"
  by (auto simp: typed_def)

lemma typed_simps [simp]: "typed mode v []" "typed mode v (k # ks) \<longleftrightarrow> (\<exists>x. py_item v k = Inr x \<and> well_typed mode k x) \<and> typed mode v ks"
  by (auto simp: typed_def)

lemma need_ok [ok_iff]: "need cs = Inr u \<longleftrightarrow> list_all (\<lambda>c. c = Inr True) cs"
  by (simp add: need_def check_ok)

lemma integer_ok [ok_iff]: "integer v k a b = Inr u \<longleftrightarrow> (\<exists>i. py_item v k = Inr (PInt i) \<and> a \<le> i \<and> i \<le> b)"
  by (auto simp: integer_def ok_iff int_and_iff)

lemma need_bools_typed:
  assumes "need_bools v ks = Inr u" "list_all (\<lambda>k. k \<in> set (bool_fields mode) \<and> k \<notin> set [''mode'', ''interfaces'', ''preferenceKind'', ''targetKind'']) ks"
  shows "typed mode v ks"
  using assms by (auto simp: need_bools_def ok_iff typed_def well_typed_def list_all_iff)

lemma integers_typed:
  assumes "integers v ks a = Inr u" "- 1000000 \<le> a"
    and "list_all (\<lambda>k. k \<notin> set (bool_fields mode) \<and> k \<notin> set [''mode'', ''interfaces'', ''preferenceKind'', ''targetKind'']) ks"
  shows "typed mode v ks"
  using assms by (fastforce simp: integers_def ok_iff typed_def well_typed_def list_all_iff int_and_def)

lemma integer_typed:
  assumes "integer v k a b = Inr u" "- 1000000 \<le> a" "b \<le> 1000000"
    and "k \<notin> set (bool_fields mode) \<and> k \<notin> set [''mode'', ''interfaces'', ''preferenceKind'', ''targetKind'']"
  shows "typed mode v [k]"
  using assms by (auto simp: ok_iff well_typed_def int_and_def)

definition group_of :: "string \<Rightarrow> nat" where
  "group_of mode = (if mode = ''bsd'' then 0 else if mode = ''multicast-path'' then 1 else if mode = ''mdns-policy'' then 2
     else if mode \<in> set NETWORK_MODES then 3 else if mode \<in> set RESOLVE_MODES then 4 else 5)"

lemma group_modes:
  "list_all (\<lambda>m. group_of m = 5 \<longrightarrow> m \<in> set [''dns-any'', ''dns-local'', ''dns-selected'']) MODES"
  "list_all (\<lambda>m. group_of m \<le> 3 \<longrightarrow> m \<notin> {''dns-selected'', ''dns-resolve-selected''}) MODES"
  by code_simp+

lemma mode_checks_group:
  "mode_checks mode v = (if group_of mode = 2 then policy_checks v else if group_of mode = 0 then bsd_checks v
     else if group_of mode = 1 then multicast_checks v else if group_of mode = 3 then network_checks mode v
     else if group_of mode = 4 then resolve_checks mode v else dns_checks mode v)"
  by (simp add: mode_checks_def group_of_def)

lemma fields_of_groups:
  "list_all (\<lambda>m. bool_fields m = bool_fields ''network'' \<and> mode_fields m = NETWORK_BOOLS @ TXT_NETWORK_BOOLS @ NETWORK_OBSERVATION_BOOLS
     @ NETWORK_NUMBERS @ (if m = ''network-declared'' then DECLARED_BOOLS else [])) NETWORK_MODES"
  "list_all (\<lambda>m. bool_fields m = bool_fields ''dns-resolve-txt'' \<and> mode_fields m = RESOLVE_BOOLS @ RESOLVE_OBSERVATION_BOOLS @ RESOLVE_COUNTS @ RESOLVE_CODES
     @ [''targetKind''] @ (if m = ''dns-resolve-selected'' then SELECTION_COUNTS @ SELECTED_RESOLVE_BOOLS @ [''offInterfaceCallbacks''] else [])) RESOLVE_MODES"
  "list_all (\<lambda>m. bool_fields m = bool_fields ''dns-any'' \<and> mode_fields m = DNS_FIELDS
     @ (if m = ''dns-selected'' then SELECTION_COUNTS @ SELECTED_DNS_COUNTS else [])) [''dns-any'', ''dns-local'', ''dns-selected'']"
  by code_simp+

lemma network_fields:
  assumes "mode \<in> set NETWORK_MODES"
  shows "bool_fields mode = bool_fields ''network''" "mode_fields mode = NETWORK_BOOLS @ TXT_NETWORK_BOOLS @ NETWORK_OBSERVATION_BOOLS
     @ NETWORK_NUMBERS @ (if mode = ''network-declared'' then DECLARED_BOOLS else [])"
  using fields_of_groups(1) assms unfolding list_all_iff by blast+

lemma resolve_fields:
  assumes "mode \<in> set RESOLVE_MODES"
  shows "bool_fields mode = bool_fields ''dns-resolve-txt''" "mode_fields mode = RESOLVE_BOOLS @ RESOLVE_OBSERVATION_BOOLS @ RESOLVE_COUNTS @ RESOLVE_CODES
     @ [''targetKind''] @ (if mode = ''dns-resolve-selected'' then SELECTION_COUNTS @ SELECTED_RESOLVE_BOOLS @ [''offInterfaceCallbacks''] else [])"
  using fields_of_groups(2) assms unfolding list_all_iff by blast+

lemma dns_fields:
  assumes "mode \<in> set [''dns-any'', ''dns-local'', ''dns-selected'']"
  shows "bool_fields mode = bool_fields ''dns-any''" "mode_fields mode = DNS_FIELDS
     @ (if mode = ''dns-selected'' then SELECTION_COUNTS @ SELECTED_DNS_COUNTS else [])"
  using fields_of_groups(3) assms unfolding list_all_iff by blast+

abbreviation int_named :: "string \<Rightarrow> string list \<Rightarrow> bool" where
  "int_named mode ks \<equiv> list_all (\<lambda>k. k \<notin> set (bool_fields mode) \<and> k \<notin> set [''mode'', ''interfaces'', ''preferenceKind'', ''targetKind'']) ks"

abbreviation bool_named :: "string \<Rightarrow> string list \<Rightarrow> bool" where
  "bool_named mode ks \<equiv> list_all (\<lambda>k. k \<in> set (bool_fields mode) \<and> k \<notin> set [''mode'', ''interfaces'', ''preferenceKind'', ''targetKind'']) ks"

lemma names_network:
  "bool_named ''network'' (NETWORK_BOOLS @ TXT_NETWORK_BOOLS @ NETWORK_OBSERVATION_BOOLS)" "bool_named ''network'' DECLARED_BOOLS"
  "int_named ''network'' NETWORK_NUMBERS"
  by code_simp+

lemma names_resolve:
  "bool_named ''dns-resolve-txt'' (RESOLVE_BOOLS @ RESOLVE_OBSERVATION_BOOLS)" "bool_named ''dns-resolve-txt'' SELECTED_RESOLVE_BOOLS"
  "int_named ''dns-resolve-txt'' (RESOLVE_COUNTS @ RESOLVE_CODES @ SELECTION_COUNTS @ [''offInterfaceCallbacks''])"
  by code_simp+

lemma names_dns: "int_named ''dns-any'' (filter (\<lambda>k. k \<noteq> ''referencesDeallocated'') DNS_FIELDS)" "int_named ''dns-any'' (SELECTION_COUNTS @ SELECTED_DNS_COUNTS)"
  by code_simp+

lemma names_multicast: "bool_named ''multicast-path'' MULTICAST_PATH_BOOLS" "int_named ''multicast-path'' MULTICAST_PATH_COUNTS"
  by code_simp+

lemma network_typed:
  assumes "network_checks mode v = Inr ()" "mode \<in> set NETWORK_MODES"
  shows "typed mode v (mode_fields mode)"
proof -
  note b = network_fields [OF assms(2)]
  have c: "need_bools v (NETWORK_BOOLS @ TXT_NETWORK_BOOLS @ NETWORK_OBSERVATION_BOOLS) = Inr ()" "integers v NETWORK_NUMBERS (- 1000000) = Inr ()"
    "mode = ''network-declared'' \<Longrightarrow> need_bools v DECLARED_BOOLS = Inr ()"
    using assms(1) unfolding network_checks_def then_do_ok by simp_all
  have "typed mode v (NETWORK_BOOLS @ TXT_NETWORK_BOOLS @ NETWORK_OBSERVATION_BOOLS)"
    by (rule need_bools_typed [OF c(1)]) (unfold b(1), rule names_network(1))
  moreover have "typed mode v NETWORK_NUMBERS" by (rule integers_typed [OF c(2) order_refl]) (unfold b(1), rule names_network(3))
  moreover have "typed mode v DECLARED_BOOLS" if "mode = ''network-declared''"
    by (rule need_bools_typed [OF c(3) [OF that]]) (unfold b(1), rule names_network(2))
  ultimately show ?thesis by (simp add: b(2))
qed

lemma selection_typed:
  assumes "selection_checks v = Inr ()" "int_named mode SELECTION_COUNTS"
  shows "typed mode v SELECTION_COUNTS"
proof -
  have h: "integer v ''selectionErrno'' 0 255 = Inr ()" "integer v ''candidateInterfaces'' 0 64 = Inr ()"
    using assms(1) unfolding selection_checks_def then_do_ok by simp_all
  have "typed mode v [''selectionErrno'']" by (rule integer_typed [OF h(1)]) (use assms(2) in \<open>simp_all add: SELECTION_COUNTS_def\<close>)
  moreover have "typed mode v [''candidateInterfaces'']" by (rule integer_typed [OF h(2)]) (use assms(2) in \<open>simp_all add: SELECTION_COUNTS_def\<close>)
  ultimately show ?thesis by (simp add: SELECTION_COUNTS_def)
qed

lemma resolve_typed:
  assumes "resolve_checks mode v = Inr ()" "mode \<in> set RESOLVE_MODES" "mode = ''dns-resolve-selected'' \<Longrightarrow> selection_checks v = Inr ()"
  shows "typed mode v (mode_fields mode)"
proof -
  note b = resolve_fields [OF assms(2)]
  have c: "need_bools v (RESOLVE_BOOLS @ RESOLVE_OBSERVATION_BOOLS) = Inr ()" "integers v RESOLVE_COUNTS 0 = Inr ()" "integers v RESOLVE_CODES (- 1000000) = Inr ()"
    "mode = ''dns-resolve-selected'' \<Longrightarrow> resolve_selected v = Inr ()" "need [item_is (str_and (\<lambda>s. s \<in> set TARGET_KINDS)) v ''targetKind''] = Inr ()"
    using assms(1) unfolding resolve_checks_def then_do_ok by simp_all
  have n: "int_named mode RESOLVE_COUNTS" "int_named mode RESOLVE_CODES" "int_named mode SELECTION_COUNTS" "int_named mode [''offInterfaceCallbacks'']"
    using names_resolve(3) unfolding b(1) list_all_append by blast+
  have k: "typed mode v [''targetKind'']" using c(5) by (auto simp: ok_iff well_typed_def str_and_iff is_str_def)
  have "typed mode v (RESOLVE_BOOLS @ RESOLVE_OBSERVATION_BOOLS)"
    by (rule need_bools_typed [OF c(1)]) (unfold b(1), rule names_resolve(1))
  moreover have "typed mode v RESOLVE_COUNTS" by (rule integers_typed [OF c(2) _ n(1)]) simp
  moreover have "typed mode v RESOLVE_CODES" by (rule integers_typed [OF c(3) _ n(2)]) simp
  moreover have "typed mode v (SELECTION_COUNTS @ SELECTED_RESOLVE_BOOLS @ [''offInterfaceCallbacks''])" if m: "mode = ''dns-resolve-selected''"
  proof -
    have s: "need_bools v SELECTED_RESOLVE_BOOLS = Inr ()" "integer v ''offInterfaceCallbacks'' 0 1000000 = Inr ()"
      using c(4) [OF m] unfolding resolve_selected_def then_do_ok by simp_all
    have "typed mode v SELECTED_RESOLVE_BOOLS" by (rule need_bools_typed [OF s(1)]) (unfold b(1), rule names_resolve(2))
    moreover have "typed mode v [''offInterfaceCallbacks'']" by (rule integer_typed [OF s(2)]) (use n(4) in simp_all)
    ultimately show ?thesis using selection_typed [OF assms(3) [OF m] n(3)] by simp
  qed
  ultimately show ?thesis using k unfolding b(2) by (cases "mode = ''dns-resolve-selected''") (simp_all only: typed_append if_True if_False typed_simps(1) simp_thms)
qed

lemma dns_typed:
  assumes "dns_checks mode v = Inr ()" "mode \<in> set [''dns-any'', ''dns-local'', ''dns-selected'']" "mode = ''dns-selected'' \<Longrightarrow> selection_checks v = Inr ()"
  shows "typed mode v (mode_fields mode)"
proof -
  note b = dns_fields [OF assms(2)]
  have c: "need [item_is is_bool v ''referencesDeallocated''] = Inr ()" "integers v (filter (\<lambda>k. k \<noteq> ''referencesDeallocated'') DNS_FIELDS) (- 1000000) = Inr ()"
    "mode = ''dns-selected'' \<Longrightarrow> dns_selected v = Inr ()"
    using assms(1) unfolding dns_checks_def then_do_ok by simp_all
  have n: "int_named mode (filter (\<lambda>k. k \<noteq> ''referencesDeallocated'') DNS_FIELDS)" "int_named mode SELECTION_COUNTS" "int_named mode SELECTED_DNS_COUNTS"
    using names_dns unfolding b(1) list_all_append by blast+
  have "typed mode v (filter (\<lambda>k. k \<noteq> ''referencesDeallocated'') DNS_FIELDS)" by (rule integers_typed [OF c(2) _ n(1)]) simp
  moreover have "''referencesDeallocated'' \<in> set (bool_fields ''dns-any'')" by code_simp
  then have "typed mode v [''referencesDeallocated'']" using c(1) by (auto simp: ok_iff well_typed_def b(1))
  ultimately have d: "typed mode v DNS_FIELDS" by (auto simp: typed_def)
  have "typed mode v (SELECTION_COUNTS @ SELECTED_DNS_COUNTS)" if m: "mode = ''dns-selected''"
  proof -
    have "integers v SELECTED_DNS_COUNTS 0 = Inr ()" using c(3) [OF m] unfolding dns_selected_def then_do_ok by simp
    then have "typed mode v SELECTED_DNS_COUNTS" by (rule integers_typed [OF _ _ n(3)]) simp
    then show ?thesis using selection_typed [OF assms(3) [OF m] n(2)] by simp
  qed
  then show ?thesis using d unfolding b(2) by (cases "mode = ''dns-selected''") (simp_all only: typed_append if_True if_False typed_simps(1) simp_thms)
qed

lemma simple_typed:
  "policy_checks v = Inr () \<Longrightarrow> typed ''mdns-policy'' v (mode_fields ''mdns-policy'')"
  "bsd_checks v = Inr () \<Longrightarrow> typed ''bsd'' v (mode_fields ''bsd'')"
  by (auto simp: policy_checks_def bsd_checks_def ok_iff mode_fields_def base_fields_def well_typed_def bool_fields_def str_and_iff is_str_def)

lemma multicast_typed:
  assumes "multicast_checks v = Inr ()"
  shows "typed ''multicast-path'' v (mode_fields ''multicast-path'')"
proof -
  have c: "need_bools v MULTICAST_PATH_BOOLS = Inr ()"
    "check_each (\<lambda>k. integer v k (if k = ''errorCode'' then - 1000000 else 0) 1000000) MULTICAST_PATH_COUNTS = Inr ()"
    using assms unfolding multicast_checks_def then_do_ok by simp_all
  have "integers v MULTICAST_PATH_COUNTS (- 1000000) = Inr ()"
    unfolding integers_def check_each_ok list_all_iff integer_ok
  proof
    fix k assume "k \<in> set MULTICAST_PATH_COUNTS"
    then obtain i where "py_item v k = Inr (PInt i)" "(if k = ''errorCode'' then - 1000000 else 0) \<le> i" "i \<le> 1000000"
      using c(2) unfolding check_each_ok list_all_iff integer_ok by blast
    then show "\<exists>i. py_item v k = Inr (PInt i) \<and> - 1000000 \<le> i \<and> i \<le> 1000000" by (cases "k = ''errorCode''") auto
  qed
  then have "typed ''multicast-path'' v MULTICAST_PATH_COUNTS" by (rule integers_typed) (simp, rule names_multicast(2))
  then show ?thesis using need_bools_typed [OF c(1) names_multicast(1)] by (simp add: mode_fields_def base_fields_def)
qed

lemma mode_typed:
  assumes "mode_checks mode v = Inr ()" "mode \<in> set MODES"
    and "mode \<in> {''dns-selected'', ''dns-resolve-selected''} \<Longrightarrow> selection_checks v = Inr ()"
  shows "typed mode v (mode_fields mode)"
proof -
  consider (a) "group_of mode = 0" | (b) "group_of mode = 1" | (c) "group_of mode = 2" | (d) "group_of mode = 3" | (e) "group_of mode = 4" | (f) "group_of mode = 5"
    unfolding group_of_def by argo
  then show ?thesis
  proof cases
    case a
    then have "mode = ''bsd''" by (simp add: group_of_def split: if_splits)
    then show ?thesis using assms(1) a simple_typed(2) by (simp add: mode_checks_group)
  next
    case b
    then have "mode = ''multicast-path''" by (simp add: group_of_def split: if_splits)
    then show ?thesis using assms(1) b multicast_typed by (simp add: mode_checks_group)
  next
    case c
    then have "mode = ''mdns-policy''" by (simp add: group_of_def split: if_splits)
    then show ?thesis using assms(1) c simple_typed(1) by (simp add: mode_checks_group)
  next
    case d
    then have "mode \<in> set NETWORK_MODES" by (simp add: group_of_def split: if_splits)
    then show ?thesis using assms(1) d network_typed by (simp add: mode_checks_group)
  next
    case e
    then have "mode \<in> set RESOLVE_MODES" by (simp add: group_of_def split: if_splits)
    then show ?thesis using assms(1,3) e resolve_typed by (simp add: mode_checks_group)
  next
    case f
    then have "mode \<in> set [''dns-any'', ''dns-local'', ''dns-selected'']" using group_modes(1) assms(2) unfolding list_all_iff by blast
    then show ?thesis using assms(1,3) f dns_typed by (simp add: mode_checks_group)
  qed
qed

lemma common_names: "list_all (\<lambda>m. int_named m [''schema'', ''elapsedMillis'', ''probeExit'']) MODES"
  by code_simp

lemma validate_observation_typed:
  assumes "validate_observation v = Inr w"
  obtains mode where "w = v" "mode \<in> set MODES" "closed_dict v (COMMON @ mode_fields mode)" "typed mode v (COMMON @ mode_fields mode)"
proof -
  obtain mode where m: "py_item v ''mode'' = Inr (PStr mode)" "w = v"
    and c: "closed_dict v (COMMON @ mode_fields mode)" "item_is is_int v ''schema'' = Inr True" "item_eq v ''schema'' (PInt 1) = Inr True"
      "item_is is_bool v ''simulator'' = Inr True" "item_is (\<lambda>x. py_is x True) v ''unprivileged'' = Inr True"
      "integer v ''elapsedMillis'' 0 60000 = Inr ()" "integer v ''probeExit'' 0 3 = Inr ()"
      "mode \<in> {''dns-selected'', ''dns-resolve-selected''} \<Longrightarrow> selection_checks v = Inr ()" "mode_checks mode v = Inr ()"
      "get_is (str_and (\<lambda>s. s \<in> set MODES)) v ''mode'' = Inr True"
    using assms unfolding validate_observation_def then_do_ok andthen_ok str_item_def as_str_ok need_ok list.pred_inject by (auto split: if_splits)
  have mo: "mode \<in> set MODES" using c(10) m(1) by (auto simp: get_is_def get_def py_get_def py_item_def andthen_ok str_and_def split: pyval.splits option.splits)
  have n: "int_named mode [''schema'', ''elapsedMillis'', ''probeExit'']" using common_names mo unfolding list_all_iff by blast
  have "typed mode v [''elapsedMillis'']" by (rule integer_typed [OF c(6)]) (use n in simp_all)
  moreover have "typed mode v [''probeExit'']" by (rule integer_typed [OF c(7)]) (use n in simp_all)
  moreover obtain x where "py_item v ''schema'' = Inr x" "is_int x" "py_eq x (PInt 1)" using c(2,3) unfolding item_is_ok item_eq_ok by auto
  then have "integer v ''schema'' 1 1 = Inr ()" by (cases x) (auto simp: integer_ok is_int_def)
  then have "typed mode v [''schema'']" by (rule integer_typed) (use n in simp_all)
  moreover have "typed mode v [''simulator'', ''unprivileged'']"
    using c(4,5) by (auto simp: ok_iff well_typed_def bool_fields_def py_is_def is_bool_def)
  moreover have "typed mode v [''mode'']" using m(1) by (simp add: well_typed_def)
  ultimately have "typed mode v COMMON" by (simp add: COMMON_def)
  then show ?thesis using that [OF m(2) mo c(1)] mode_typed [OF c(9) mo c(8)] by simp
qed

text \<open>
  C40.  An observation the reader accepts is well typed for its mode.  It has exactly the fields of that mode, flags are
  booleans, the interface list is a list, the kinds are strings, and every number is an integer of at most a million in
  absolute value; the reader returns the observation unchanged.
\<close>

theorem observation_well_typed:
  assumes "validate_observation v = Inr w"
  shows "w = v \<and> (\<exists>mode. mode \<in> set MODES \<and> closed_dict v (COMMON @ mode_fields mode) \<and> (\<forall>k x. py_item v k = Inr x \<longrightarrow> well_typed mode k x))"
proof -
  obtain mode where m: "w = v" "mode \<in> set MODES" "closed_dict v (COMMON @ mode_fields mode)" "typed mode v (COMMON @ mode_fields mode)"
    using validate_observation_typed [OF assms] by blast
  have "well_typed mode k x" if "py_item v k = Inr x" for k x
  proof -
    have "k \<in> set (COMMON @ mode_fields mode)"
      using m(3) that by (force simp: closed_dict_def keys_eq_def py_item_def split: pyval.splits option.splits dest: map_of_SomeD)
    then show ?thesis using m(4) that unfolding typed_def by force
  qed
  then show ?thesis using m by blast
qed

definition sample_observation :: pyval where
  "sample_observation = PDict [(''schema'', PInt 1), (''mode'', PStr ''dns-selected''), (''simulator'', PBool True), (''unprivileged'', PBool True),
     (''elapsedMillis'', PInt 900), (''probeExit'', PInt 0), (''registrationStart'', PInt 0), (''browseStart'', PInt 0), (''registrationCallbacks'', PInt 1),
     (''registrationCode'', PInt 0), (''browseCallbacks'', PInt 2), (''browseCode'', PInt 0), (''targetAdds'', PInt 2), (''pollErrno'', PInt 0),
     (''processingCode'', PInt 0), (''referencesDeallocated'', PBool True), (''localOnlyAdds'', PInt 0), (''otherInterfaceAdds'', PInt 2),
     (''selectionErrno'', PInt 0), (''candidateInterfaces'', PInt 1), (''selectedAdds'', PInt 2), (''offInterfaceAdds'', PInt 0)]"

lemma sample_observation_accepted: "validate_observation sample_observation = Inr sample_observation"
  by code_simp

theorem observation_well_typed_witness:
  "validate_observation sample_observation = Inr sample_observation \<and>
   (\<exists>mode. mode \<in> set MODES \<and> closed_dict sample_observation (COMMON @ mode_fields mode))"
  using observation_well_typed [OF sample_observation_accepted] sample_observation_accepted by blast

end
