(* ===== verification/Spec2Isabelle.thy ===== *)
theory Spec2Isabelle
  imports Keeper Job_Clock Release_Version Win_Evidence Dependency_Seed Exception_Detail Full_Simulator Hosted_Identity Bootstrap_Identity Recipient_Stages Bootstrap_Allocation Liveness_Pipe Job_Budget Apple_Clock Apple_Diagnostics
begin

text \<open>
  P2pKit's hosted-CI decision code: a verification library of the repository's Python modules.

  \<^bold>\<open>The program.\<close>  P2pKit is a Kotlin networking library whose continuous integration is run by Python
  controllers under \<^verbatim>\<open>src/scripts\<close>.  A controller admits one hosted job (who started it, on which commit and
  host), derives the time budget of the job from what the service reports, runs the product under a
  keeper that may only cancel it, and accepts evidence read back from files and processes.  The
  controllers do the input and output; every decision is taken by a module of functions on bytes, JSON
  values, integers and readings of clocks.  Those modules are the components here.

  \<^bold>\<open>What Python is.\<close>
  \<^item> \<open>P2p_Prelude\<close>: exceptions as values of \<open>exn + 'a\<close>, checks in the order of the source, loops, digits.
  \<^item> \<open>PyFloat\<close>: binary64 with rounding, comparison and \<open>math.nextafter\<close>; the signed zeros are one value.
  \<^item> \<open>PyValue\<close>, \<open>PyText\<close>, \<open>PyCheck\<close>: the values the validators inspect, their equality, field access with
    \<open>KeyError\<close>, \<open>TypeError\<close> and \<open>AttributeError\<close>, text searches and fixed-shape regular expressions.
  \<^item> \<open>PyJson\<close>, \<open>Canonical\<close>: \<open>json.dumps\<close> and \<open>json.loads\<close> with UTF-8, hooks and the 4300-digit limit of \<open>int\<close>; what is
    written is read back with its keys sorted.  The recursion of the reader has the fuel
    \<open>2 * length s + 2\<close>, which is shown to be enough; the interpreter's recursion limit is not modelled.
  \<^item> \<open>PyHash\<close>: SHA-1 and SHA-256 on 32-bit words.  Nothing is assumed about collisions.

  \<^bold>\<open>Interfaces.\<close>  \<open>Step_System\<close> has the runs of a component as sequences of method calls with their external
  effects, and the contracts of the stateful components as locales: \<open>step_system\<close> (an invariant),
  \<open>sticky_flag\<close> (a decision that is never taken back) and \<open>single_shot\<close> (an effect that happens at most
  once).  They are interpreted on the keeper (invariant, latched cancellation, lost clock, decided start,
  delivered callback), on the read end of the liveness pipe (closed descriptor, latched observation) and
  on the process clock of the budget.

  \<^bold>\<open>Components.\<close>  Each theory names its functions as the source does.
  \<^item> \<open>Keeper\<close>, \<^verbatim>\<open>rpc_apple_ci_lifecycle.py\<close>: \<open>KeeperBinding\<close> and every method of \<open>KeeperDecision\<close> on the record
    \<open>keeper\<close>.  Over all sequences of calls: the callback runs at most once and leaves its reserve, the first
    cancellation reason is final, a lost clock stays lost, the launch is decided once, and an exit code
    other than 125 is the product's own.
  \<^item> \<open>Job_Clock\<close>, \<^verbatim>\<open>hosted_job_clock.py\<close> and the Darwin reader of \<^verbatim>\<open>hosted_lock_resources.py\<close>: readings, the exact
    floor of the Windows counter, and local float deadlines that stay strictly within an integer fence.
  \<^item> \<open>Release_Version\<close>, \<^verbatim>\<open>application_release_version.py\<close>: the version grammar, the order-preserving Android
    code, and the unique declaration in a Java properties file.
  \<^item> \<open>Win_Evidence\<close>, \<^verbatim>\<open>rpc_windows_environment_evidence.py\<close>: all validators of the module; the comparison as
    equality of canonical text (without floats), the diagnostic reader as a reading by lines, the
    generations of a contract, the required observations of a \<open>PASS\<close>, the accounting of handles.
  \<^item> \<open>Dependency_Seed\<close>, \<^verbatim>\<open>hosted_dependency_seed.py\<close>: the parser callbacks as steps of a bounded document and the
    compiler of the allowlist; chunk-independent text, uniqueness up to letter case, exact counts.
  \<^item> \<open>Exception_Detail\<close>, \<open>_exception_detail\<close> of \<^verbatim>\<open>hosted_evidence_primitives.py\<close>: a worklist over an arbitrary, possibly
    cyclic heap of exceptions; it ends within its limits and is complete unless it says otherwise.
  \<^item> \<open>Full_Simulator\<close>, \<^verbatim>\<open>hosted_full_simulator.py\<close>: the admitted device, its binding and the coverage report.
  \<^item> \<open>Hosted_Identity\<close>, \<^verbatim>\<open>hosted_test_identity.py\<close>: the admission of a job from its environment, event and Git, and
    the readers of admitted records; the policy of a pull request comes from its base.
  \<^item> \<open>Bootstrap_Identity\<close>, \<^verbatim>\<open>hosted_cache_bootstrap_identity.py\<close>: selections, cohort reader and manual admission
    (definitions only).
  \<^item> \<open>Recipient_Exception\<close>, \<open>Recipient_Stages\<close>, \<^verbatim>\<open>hosted_initial_recipient_exception.py\<close> and
    \<^verbatim>\<open>hosted_initial_recipient_stages.py\<close>: owner statements, rosters and the four matchers; calendar order of
    comment times, exact rechecks, re-matched histories, the shape of the ordinary roster.
  \<^item> \<open>Bootstrap_Allocation\<close>, \<^verbatim>\<open>hosted_cache_bootstrap_service_time.py\<close> and \<^verbatim>\<open>hosted_cache_bootstrap_allocation.py\<close>: the
    fences of 48 phases and the trace of their observations; the exact fence arithmetic, and the chain of
    digests and times in which every row before the last one keeps all its fences.
  \<^item> \<open>Liveness_Pipe\<close>, \<^verbatim>\<open>rpc_apple_ci_liveness.py\<close>: descriptor owners and the pipe allocation.
  \<^item> \<open>Http_Origin\<close>, \<open>Job_Budget\<close>, \<^verbatim>\<open>hosted_full_job_budget.py\<close>: service responses, the fences of the three profiles, the
    record with its strict reader, and the process clock; the running cursor refines a gap-free schedule,
    stored fences are recomputed, and each check is before the fence of its own stage.
  \<^item> \<open>Apple_Clock\<close>, \<^verbatim>\<open>rpc_apple_ci_clock.py\<close>: the shared Mach clock, its drift bound and its floored cutoffs.
  \<^item> \<open>Apple_Diagnostics\<close>, \<^verbatim>\<open>rpc_apple_network_diagnostics.py\<close>: the closed observations of the probe's 19 modes.

  \<^bold>\<open>Parameters.\<close>  Code outside the sources is an argument: the callbacks of expat, the Git query runner
  (indexed by the number of queries, so that answers may change), the answers of the operating system and
  of the host's clocks (a new view for every method call), the cancellation callback, and the service-time
  basis record of the allocation.  Nothing is assumed about them beyond their types; what a property needs
  is a hypothesis of its statement and is discharged in its witness.

  \<^bold>\<open>Bounds.\<close>  Python integers are \<open>int\<close>; the limits to 32, 63 and 64 bits are the checks the code makes.
  Floats are exact binary64.  Loops are structural recursions on their lists; the exception walk has a
  lexicographic measure, and the JSON reader the fuel named above.

  \<^bold>\<open>Not modelled.\<close>  The command-line controllers and everything that is mainly native input and output: process
  ownership (\<^verbatim>\<open>audit_processes.py\<close>), file and archive custody, HTTP and artifact transport, the derivation of
  the service-time basis from retained responses, the compiler observations of the network probe, device
  and benchmark drivers, and release packaging; and the Kotlin library, the JavaScript actions and the
  shell scripts, which are other languages.
\<close>

end
